theory Spec2Isabelle
  imports Main
begin

section \<open>Values of the program\<close>

text \<open>
  JavaScript strings are modelled as \<open>string\<close>. An exception value is an \<open>error\<close> carrying
  its message; a thrown or rejected error is the \<open>Inl\<close> side of a sum.
\<close>

datatype error = Error string | TypeError string | AxiosError string

fun message :: "error \<Rightarrow> string" where
  "message (Error m) = m"
| "message (TypeError m) = m"
| "message (AxiosError m) = m"

text \<open>The registry's JSON answer, restricted to the three fields the program reads.
  \<open>dependencies\<close> is the object's entry list in \<open>Object.entries\<close> order, \<open>dist\<close> is
  \<open>dist.tarball\<close>; \<open>None\<close> stands for an absent field.\<close>

record metadata =
  dependencies :: "(string \<times> string) list option"
  license :: "string option"
  dist :: "string option"

text \<open>What happens to the streamed archive request of \<open>downloadTarball\<close>: the request itself
  is rejected, the response stream emits \<open>error\<close>, or the stream emits \<open>end\<close>.\<close>

datatype archive_outcome = RequestFails error | StreamFails error | StreamEnds

datatype request = MetadataGet string string | ArchiveGet string string string

section \<open>Constants\<close>

definition CONCURRENCY :: nat where
  "CONCURRENCY = 5"

definition COMMERCIAL_FRIENDLY_LICENSES :: "string list" where
  "COMMERCIAL_FRIENDLY_LICENSES = [''MIT'', ''Apache-2.0'', ''BSD-2-Clause'', ''BSD-3-Clause'', ''ISC'']"

section \<open>parsePackageString\<close>






section \<open>The semver library: \<open>semver.valid(semver.coerce(range))\<close>\<close>

text \<open>
  Modelled from the spec: \<open>semver\<close> is the npm library the program calls, not part of the
  sources. The spec says the normalizer extracts the first \<open>major.minor.patch\<close>-shaped token
  and drops everything else; the definitions follow the library's coercion expression
  \<^verbatim>\<open>(^|[^\d])(\d{1,16})(?:\.(\d{1,16}))?(?:\.(\d{1,16}))?(?:$|[^\d])\<close> and its strict
  parse of \<open>major.minor.patch\<close> (no leading zeros, components at most \<open>2^53 - 1\<close>).
  The walker below takes the normalizer as a parameter of its environment, so its theorems
  hold for every normalizer.
\<close>

definition is_digit :: "char \<Rightarrow> bool" where
  "is_digit c \<longleftrightarrow> c \<in> set ''0123456789''"

definition MAX_SAFE_COMPONENT_LENGTH :: nat where
  "MAX_SAFE_COMPONENT_LENGTH = 16"

definition MAX_SAFE_INTEGER :: nat where
  "MAX_SAFE_INTEGER = 9007199254740991"

function coerce_major :: "string \<Rightarrow> (string \<times> string) option" where
  "coerce_major [] = None"
| "coerce_major (c # cs) =
     (if is_digit c then
        (if length (takeWhile is_digit (c # cs)) \<le> MAX_SAFE_COMPONENT_LENGTH
         then Some (takeWhile is_digit (c # cs), dropWhile is_digit (c # cs))
         else coerce_major (dropWhile is_digit cs))
      else coerce_major cs)"
  by pat_completeness auto
termination
  by (relation "measure length") (auto simp: less_Suc_eq_le length_dropWhile_le)

definition coerce_component :: "string \<Rightarrow> (string \<times> string) option" where
  "coerce_component s =
     (case s of
        [] \<Rightarrow> None
      | c # cs \<Rightarrow>
          if c = CHR ''.'' \<and> 1 \<le> length (takeWhile is_digit cs)
             \<and> length (takeWhile is_digit cs) \<le> MAX_SAFE_COMPONENT_LENGTH
          then Some (takeWhile is_digit cs, dropWhile is_digit cs)
          else None)"

definition digit_value :: "char \<Rightarrow> nat" where
  "digit_value c = of_char c - 48"

definition digits_value :: "string \<Rightarrow> nat" where
  "digits_value ds = foldl (\<lambda>acc c. 10 * acc + digit_value c) 0 ds"

definition numeric_identifier :: "string \<Rightarrow> bool" where
  "numeric_identifier ds \<longleftrightarrow>
     (ds = ''0'' \<or> (ds \<noteq> [] \<and> hd ds \<noteq> CHR ''0'')) \<and> digits_value ds \<le> MAX_SAFE_INTEGER"

definition semver_coerce :: "string \<Rightarrow> (string \<times> string \<times> string) option" where
  "semver_coerce version =
     (case coerce_major version of
        None \<Rightarrow> None
      | Some (major, rest) \<Rightarrow>
          (case coerce_component rest of
             None \<Rightarrow> Some (major, ''0'', ''0'')
           | Some (minor, rest') \<Rightarrow>
               (case coerce_component rest' of
                  None \<Rightarrow> Some (major, minor, ''0'')
                | Some (patch, _) \<Rightarrow> Some (major, minor, patch))))"

definition semver_valid :: "(string \<times> string \<times> string) option \<Rightarrow> string option" where
  "semver_valid v =
     (case v of
        None \<Rightarrow> None
      | Some (major, minor, patch) \<Rightarrow>
          if numeric_identifier major \<and> numeric_identifier minor \<and> numeric_identifier patch
          then Some (major @ ''.'' @ minor @ ''.'' @ patch)
          else None)"

definition normalize :: "string \<Rightarrow> string option" where
  "normalize versionRange = semver_valid (semver_coerce versionRange)"

section \<open>isCommercialFriendly\<close>

definition isCommercialFriendly :: "string option \<Rightarrow> bool" where
  "isCommercialFriendly lic =
     (case lic of
        None \<Rightarrow> False
      | Some l \<Rightarrow> if l = [] then False else l \<in> set COMMERCIAL_FRIENDLY_LICENSES)"

section \<open>getAllDependencies\<close>

text \<open>\<^verbatim>\<open>obj[name] = value\<close> on a plain object kept as its entry list, for a string value:
  an existing key keeps its place, a new key goes last. The key \<open>__proto__\<close> is the
  prototype setter, which ignores a string, so the assignment adds no entry.\<close>

fun obj_insert :: "(string \<times> 'v) list \<Rightarrow> string \<Rightarrow> 'v \<Rightarrow> (string \<times> 'v) list" where
  "obj_insert [] k v = [(k, v)]"
| "obj_insert ((k', v') # kvs) k v = (if k' = k then (k, v) # kvs else (k', v') # obj_insert kvs k v)"

definition obj_set :: "(string \<times> 'v) list \<Rightarrow> string \<Rightarrow> 'v \<Rightarrow> (string \<times> 'v) list" where
  "obj_set kvs k v = (if k = ''__proto__'' then kvs else obj_insert kvs k v)"

text \<open>The loop of \<open>getAllDependencies\<close>: the accumulator is \<open>allDependencies\<close> and the lines
  written by \<open>console.warn\<close>.\<close>

fun getAllDependencies_loop ::
  "(string \<Rightarrow> string option) \<Rightarrow> (string \<times> string) list \<Rightarrow>
   (string \<times> string) list \<times> string list \<Rightarrow> (string \<times> string) list \<times> string list" where
  "getAllDependencies_loop nrm [] acc = acc"
| "getAllDependencies_loop nrm ((name, versionRange) # rest) (allDependencies, warned) =
     (case nrm versionRange of
        Some normalizedVersion \<Rightarrow>
          getAllDependencies_loop nrm rest (obj_set allDependencies name normalizedVersion, warned)
      | None \<Rightarrow>
          getAllDependencies_loop nrm rest
            (allDependencies, warned @ [''Skipping invalid version range: '' @ name @ ''@'' @ versionRange]))"

definition getAllDependencies ::
  "(string \<Rightarrow> string option) \<Rightarrow> (string \<times> string) list \<Rightarrow> (string \<times> string) list \<times> string list" where
  "getAllDependencies nrm deps = getAllDependencies_loop nrm deps ([], [])"

section \<open>The state of a run\<close>

text \<open>
  A call of the asynchronous \<open>downloadPackageAndDependencies\<close> is a task: it runs until its
  next \<open>await\<close> and is resumed later. The stage of a task says where it is suspended and
  keeps the local variables it still needs; the promise it returned is its index in \<open>tasks\<close>.
\<close>

datatype stage =
    AwaitMetadata
  | AwaitResponse "(string \<times> string) list" string
  | AwaitStream "(string \<times> string) list" string
  | AwaitSkipped "(string \<times> string) list"
  | AwaitBatch "nat list" nat
  | Fulfilled
  | Rejected error

datatype task = Task (task_name: string) (task_version: string) (task_stage: stage)

text \<open>The four global collections of the program, the archive files in the download
  directory, the network requests issued so far, the console lines, the tasks, and the
  uncaught exception that ended the process, if any.\<close>

record state =
  downloadedPackages :: "string set"
  packageList :: "string list"
  dependencyTree :: "string \<rightharpoonup> string list"
  licenseWarnings :: "string list"
  files :: "string set"
  requests :: "request list"
  console :: "string list"
  tasks :: "task list"
  crashed :: "error option"

text \<open>The world outside the program: the version normalizer
  \<open>semver.valid(semver.coerce(_))\<close>, the registry's answer to
  \<open>GET REGISTRY_URL/name/version\<close>, the fate of the archive request for a URL, the
  \<open>content-length\<close> header of its response, and the error of the write stream of an archive
  file, if writing it fails.\<close>

record env =
  coerce :: "string \<Rightarrow> string option"
  registry :: "string \<Rightarrow> string \<Rightarrow> error + metadata"
  archive :: "string \<Rightarrow> archive_outcome"
  content_length :: "string \<Rightarrow> string option"
  write_error :: "string \<Rightarrow> error option"

definition packageKey_of :: "string \<Rightarrow> string \<Rightarrow> string" where
  "packageKey_of packageName version = packageName @ ''@'' @ version"

definition task_key :: "task \<Rightarrow> string" where
  "task_key t = packageKey_of (task_name t) (task_version t)"

definition fileName_of :: "string \<Rightarrow> string \<Rightarrow> string" where
  "fileName_of packageName version =
     map (\<lambda>c. if c = CHR ''/'' then CHR ''-'' else c) (packageName @ ''-'' @ version @ ''.tgz'')"

section \<open>downloadPackageAndDependencies\<close>

text \<open>The call itself, up to its first \<open>await\<close> (lines 179 to 201): the test on
  \<open>downloadedPackages\<close>, the claim, the push on \<open>packageList\<close>, the edge under the parent
  and the metadata request. The new task is appended, so the promise of the call is
  \<open>length (tasks s)\<close>.\<close>

definition push_child :: "(string \<rightharpoonup> string list) \<Rightarrow> string \<Rightarrow> string \<Rightarrow> (string \<rightharpoonup> string list)" where
  "push_child tree parent packageKey =
     tree(parent \<mapsto> (case tree parent of None \<Rightarrow> [] | Some children \<Rightarrow> children) @ [packageKey])"

definition downloadPackageAndDependencies :: "string \<Rightarrow> string \<Rightarrow> string option \<Rightarrow> state \<Rightarrow> state" where
  "downloadPackageAndDependencies packageName version parent s =
     (let packageKey = packageKey_of packageName version
      in if packageKey \<in> downloadedPackages s
         then s\<lparr>tasks := tasks s @ [Task packageName version Fulfilled]\<rparr>
         else s\<lparr>downloadedPackages := insert packageKey (downloadedPackages s),
                packageList := packageList s @ [packageKey],
                dependencyTree :=
                  (case parent of
                     None \<Rightarrow> dependencyTree s
                   | Some p \<Rightarrow> if p = [] then dependencyTree s
                              else push_child (dependencyTree s) p packageKey),
                requests := requests s @ [MetadataGet packageName version],
                tasks := tasks s @ [Task packageName version AwaitMetadata]\<rparr>)"

text \<open>\<open>entries.map(([name, version]) => downloadPackageAndDependencies(name, version, parent))\<close>:
  every call runs to its first \<open>await\<close> before the next one starts.\<close>

definition launch_all :: "string option \<Rightarrow> (string \<times> string) list \<Rightarrow> state \<Rightarrow> state" where
  "launch_all parent entries s =
     fold (\<lambda>(name, version). downloadPackageAndDependencies name version parent) entries s"

definition license_text :: "string option \<Rightarrow> string" where
  "license_text lic = (case lic of None \<Rightarrow> ''Unknown'' | Some l \<Rightarrow> if l = [] then ''Unknown'' else l)"

definition license_warning :: "string \<Rightarrow> string option \<Rightarrow> string" where
  "license_warning packageKey lic =
     ''WARNING: '' @ packageKey @ '' uses a non-commercial-friendly license: '' @ license_text lic"

text \<open>Lines 204 to 210: the license check.\<close>

definition check_license :: "string \<Rightarrow> string option \<Rightarrow> state \<Rightarrow> state" where
  "check_license packageKey lic s =
     (if \<not> isCommercialFriendly lic
      then s\<lparr>licenseWarnings := licenseWarnings s @ [license_warning packageKey lic],
             console := console s @ [license_warning packageKey lic]\<rparr>
      else s)"

text \<open>\<open>downloadTarball\<close> up to its \<open>await\<close> (lines 104 to 114): an existing file is skipped,
  otherwise the archive request is issued.\<close>

definition downloadTarball_start ::
  "string \<Rightarrow> string \<Rightarrow> string \<Rightarrow> (string \<times> string) list \<Rightarrow> state \<Rightarrow> stage \<times> state" where
  "downloadTarball_start packageName version tarballUrl deps s =
     (let fileName = fileName_of packageName version
      in if fileName \<in> files s
         then (AwaitSkipped deps,
               s\<lparr>console := console s @ [''Skipping '' @ fileName @ '' (already downloaded)'']\<rparr>)
         else (AwaitResponse deps tarballUrl,
               s\<lparr>requests := requests s @ [ArchiveGet packageName version tarballUrl]\<rparr>))"

text \<open>Lines 202 to 213, run when the metadata has arrived. A missing \<open>dist\<close> makes
  \<open>metadata.dist.tarball\<close> throw a \<open>TypeError\<close> after the license check.\<close>

text \<open>\<^verbatim>\<open>metadata.dependencies || {}\<close>.\<close>

definition dependencies_or_empty :: "metadata \<Rightarrow> (string \<times> string) list" where
  "dependencies_or_empty md = (case dependencies md of None \<Rightarrow> [] | Some d \<Rightarrow> d)"

definition after_metadata :: "string \<Rightarrow> string \<Rightarrow> metadata \<Rightarrow> state \<Rightarrow> (error + stage) \<times> state" where
  "after_metadata packageName version md s =
     (let deps = dependencies_or_empty md;
          s1 = check_license (packageKey_of packageName version) (license md) s
      in case dist md of
           None \<Rightarrow> (Inl (TypeError (''Cannot read properties of undefined (reading '' @ [CHR 0x27] @ ''tarball'' @ [CHR 0x27] @ '')'')), s1)
         | Some tarballUrl \<Rightarrow>
             (case downloadTarball_start packageName version tarballUrl deps s1 of
                (st, s2) \<Rightarrow> (Inr st, s2)))"

text \<open>Lines 216 to 228 up to the first \<open>await\<close>: the dependencies are normalized, every one
  of them is called at once by \<open>map\<close>, and the loop then waits for the first slice of
  \<open>CONCURRENCY\<close> promises. With no dependency the loop body never runs and the call returns.\<close>

definition launch_dependencies :: "env \<Rightarrow> string \<Rightarrow> (string \<times> string) list \<Rightarrow> state \<Rightarrow> stage \<times> state" where
  "launch_dependencies env packageKey deps s =
     (case getAllDependencies (coerce env) deps of
        (allDependencies, warned) \<Rightarrow>
          let s1 = s\<lparr>console := console s @ warned\<rparr>;
              downloadPromises = [length (tasks s1) ..< length (tasks s1) + length allDependencies]
          in (if 0 < length downloadPromises then AwaitBatch downloadPromises 0 else Fulfilled,
              launch_all (Some packageKey) allDependencies s1))"

text \<open>\<open>downloadPromises.slice(i, i + batchSize)\<close>.\<close>

definition batch_of :: "nat list \<Rightarrow> nat \<Rightarrow> nat list" where
  "batch_of downloadPromises i = take CONCURRENCY (drop i downloadPromises)"

fun first_rejection :: "stage list \<Rightarrow> error option" where
  "first_rejection [] = None"
| "first_rejection (Rejected e # sts) = Some e"
| "first_rejection (st # sts) = first_rejection sts"

text \<open>\<open>await Promise.all(batch)\<close> has settled: a rejection is thrown into the \<open>try\<close> block,
  otherwise the loop goes to the next slice or ends.\<close>

definition after_batch :: "nat list \<Rightarrow> nat \<Rightarrow> state \<Rightarrow> (error + stage) \<times> state" where
  "after_batch downloadPromises i s =
     (case first_rejection (map (\<lambda>p. task_stage (tasks s ! p)) (batch_of downloadPromises i)) of
        Some e \<Rightarrow> (Inl e, s)
      | None \<Rightarrow>
          (Inr (if i + CONCURRENCY < length downloadPromises
                then AwaitBatch downloadPromises (i + CONCURRENCY) else Fulfilled), s))"

text \<open>Lines 128 to 138, run when the response of the archive request has arrived: a response
  without \<open>content-length\<close> (absent or empty) is reported on the console, and
  \<open>fs.createWriteStream\<close> creates the file the response is piped to.\<close>

definition on_response :: "env \<Rightarrow> string \<Rightarrow> string \<Rightarrow> string \<Rightarrow> state \<Rightarrow> state" where
  "on_response env packageName version tarballUrl s =
     (let fileName = fileName_of packageName version;
          s1 = (case content_length env tarballUrl of
                  None \<Rightarrow> s\<lparr>console := console s @ [''No Content-Length header for '' @ fileName]\<rparr>
                | Some contentLength \<Rightarrow>
                    if contentLength = []
                    then s\<lparr>console := console s @ [''No Content-Length header for '' @ fileName]\<rparr>
                    else s)
      in s1\<lparr>files := insert fileName (files s1)\<rparr>)"

text \<open>The part of the \<open>try\<close> block that runs when a suspended task is resumed: \<open>Inl\<close> is an
  error thrown inside the block, \<open>Inr\<close> the stage of the next suspension. The write stream of
  line 138 has no \<open>error\<close> listener: when writing the file fails, the error is an uncaught
  exception, the process ends and the task stays where it is.\<close>

definition resume_body :: "env \<Rightarrow> task \<Rightarrow> state \<Rightarrow> (error + stage) \<times> state" where
  "resume_body env t s =
     (case t of
        Task packageName version st \<Rightarrow>
          (case st of
             AwaitMetadata \<Rightarrow>
               (case registry env packageName version of
                  Inl e \<Rightarrow> (Inl e, s)
                | Inr md \<Rightarrow> after_metadata packageName version md s)
           | AwaitResponse deps tarballUrl \<Rightarrow>
               (case archive env tarballUrl of
                  RequestFails e \<Rightarrow> (Inl e, s)
                | _ \<Rightarrow> (Inr (AwaitStream deps tarballUrl),
                        on_response env packageName version tarballUrl s))
           | AwaitStream deps tarballUrl \<Rightarrow>
               (case write_error env (fileName_of packageName version) of
                  Some e \<Rightarrow> (Inr (AwaitStream deps tarballUrl), s\<lparr>crashed := Some e\<rparr>)
                | None \<Rightarrow>
                    (case archive env tarballUrl of
                       StreamFails e \<Rightarrow> (Inl e, s)
                     | _ \<Rightarrow>
                         (case launch_dependencies env (packageKey_of packageName version) deps s of
                            (st', s') \<Rightarrow> (Inr st', s'))))
           | AwaitSkipped deps \<Rightarrow>
               (case launch_dependencies env (packageKey_of packageName version) deps s of
                  (st', s') \<Rightarrow> (Inr st', s'))
           | AwaitBatch downloadPromises i \<Rightarrow> after_batch downloadPromises i s
           | Fulfilled \<Rightarrow> (Inr Fulfilled, s)
           | Rejected e \<Rightarrow> (Inr (Rejected e), s)))"

definition set_stage :: "nat \<Rightarrow> stage \<Rightarrow> state \<Rightarrow> state" where
  "set_stage i st s =
     s\<lparr>tasks := (tasks s)[i := Task (task_name (tasks s ! i)) (task_version (tasks s ! i)) st]\<rparr>"

text \<open>Lines 229 to 231: the \<open>catch\<close> clause writes one line and the call returns normally.\<close>

definition catch_error :: "string \<Rightarrow> error \<Rightarrow> state \<Rightarrow> state" where
  "catch_error packageKey e s =
     s\<lparr>console := console s @ [''Error downloading '' @ packageKey @ '': '' @ message e]\<rparr>"

definition resume :: "env \<Rightarrow> nat \<Rightarrow> state \<Rightarrow> state" where
  "resume env i s =
     (case resume_body env (tasks s ! i) s of
        (Inl e, s') \<Rightarrow> set_stage i Fulfilled (catch_error (task_key (tasks s ! i)) e s')
      | (Inr st, s') \<Rightarrow> set_stage i st s')"

section \<open>Scheduling\<close>

text \<open>
  A task waiting for the network can be resumed at any time; a task waiting for
  \<open>Promise.all(batch)\<close> once a promise of the batch is rejected or all are fulfilled.
  A schedule is a list of numbers: each picks the runnable task that is resumed next. Once
  the process has ended with an uncaught exception, nothing runs.
\<close>

fun is_rejected :: "stage \<Rightarrow> bool" where
  "is_rejected (Rejected e) = True"
| "is_rejected st = False"

fun settled :: "stage \<Rightarrow> bool" where
  "settled Fulfilled = True"
| "settled (Rejected e) = True"
| "settled st = False"

fun runnable_stage :: "task list \<Rightarrow> stage \<Rightarrow> bool" where
  "runnable_stage ts (AwaitBatch downloadPromises i) =
     (list_ex (\<lambda>p. is_rejected (task_stage (ts ! p))) (batch_of downloadPromises i)
      \<or> list_all (\<lambda>p. task_stage (ts ! p) = Fulfilled) (batch_of downloadPromises i))"
| "runnable_stage ts Fulfilled = False"
| "runnable_stage ts (Rejected e) = False"
| "runnable_stage ts st = True"

definition runnable :: "state \<Rightarrow> nat list" where
  "runnable s = filter (\<lambda>i. runnable_stage (tasks s) (task_stage (tasks s ! i))) [0 ..< length (tasks s)]"

definition step :: "env \<Rightarrow> nat \<Rightarrow> state \<Rightarrow> state" where
  "step env n s =
     (if crashed s \<noteq> None \<or> runnable s = [] then s
      else resume env (runnable s ! (n mod length (runnable s))) s)"

fun run :: "env \<Rightarrow> nat list \<Rightarrow> state \<Rightarrow> state" where
  "run env [] s = s"
| "run env (n # ns) s = run env ns (step env n s)"

definition in_flight :: "state \<Rightarrow> nat list" where
  "in_flight s = filter (\<lambda>i. \<not> settled (task_stage (tasks s ! i))) [0 ..< length (tasks s)]"

definition all_settled :: "state \<Rightarrow> bool" where
  "all_settled s \<longleftrightarrow> list_all (\<lambda>t. settled (task_stage t)) (tasks s)"

section \<open>main\<close>


definition initial_state :: "string set \<Rightarrow> state" where
  "initial_state disk =
     \<lparr>downloadedPackages = {}, packageList = [], dependencyTree = Map.empty, licenseWarnings = [],
      files = disk, requests = [], console = [], tasks = [], crashed = None\<rparr>"

text \<open>Lines 266 to 271: the roots are parsed and all of them are called, with no parent.\<close>

definition start :: "string set \<Rightarrow> (string \<times> string) list \<Rightarrow> state" where
  "start disk parsedPackages = launch_all None parsedPackages (initial_state disk)"


section \<open>buildDependencyTree\<close>



section \<open>Pre-order traversal of the recorded edges\<close>



section \<open>Example registries\<close>

text \<open>\<open>bar@2.0.0\<close> depends on \<open>foo\<close> and \<open>baz\<close>; the registry has no \<open>foo\<close>.\<close>

definition registry_foo_fails :: "string \<Rightarrow> string \<Rightarrow> error + metadata" where
  "registry_foo_fails packageName version =
     (if packageName = ''bar'' \<and> version = ''2.0.0''
      then Inr \<lparr>dependencies = Some [(''foo'', ''1.0.0''), (''baz'', ''1.0.0'')],
               license = Some ''MIT'', dist = Some ''http://registry/bar-2.0.0.tgz''\<rparr>
      else if packageName = ''baz'' \<and> version = ''1.0.0''
      then Inr \<lparr>dependencies = None, license = Some ''MIT'',
               dist = Some ''http://registry/baz-1.0.0.tgz''\<rparr>
      else Inl (AxiosError ''Request failed with status code 404''))"

definition env_foo_fails :: env where
  "env_foo_fails = \<lparr>coerce = normalize, registry = registry_foo_fails, archive = (\<lambda>url. StreamEnds),
      content_length = (\<lambda>url. Some ''1024''), write_error = (\<lambda>fileName. None)\<rparr>"

text \<open>\<open>app@1.0.0\<close> has six dependencies.\<close>

definition registry_six :: "string \<Rightarrow> string \<Rightarrow> error + metadata" where
  "registry_six packageName version =
     (if packageName = ''app''
      then Inr \<lparr>dependencies = Some [(''d1'', ''1.0.0''), (''d2'', ''1.0.0''), (''d3'', ''1.0.0''),
                                     (''d4'', ''1.0.0''), (''d5'', ''1.0.0''), (''d6'', ''1.0.0'')],
               license = Some ''MIT'', dist = Some ''http://registry/app.tgz''\<rparr>
      else Inr \<lparr>dependencies = None, license = Some ''MIT'', dist = Some ''http://registry/dep.tgz''\<rparr>)"

definition env_six :: env where
  "env_six = \<lparr>coerce = normalize, registry = registry_six, archive = (\<lambda>url. StreamEnds),
      content_length = (\<lambda>url. Some ''1024''), write_error = (\<lambda>fileName. None)\<rparr>"

text \<open>\<open>A@1.0.0\<close> depends on \<open>B@1.0.0\<close>, which depends on \<open>A@1.0.0\<close>.\<close>

definition registry_cycle :: "string \<Rightarrow> string \<Rightarrow> error + metadata" where
  "registry_cycle packageName version =
     (if packageName = ''A'' \<and> version = ''1.0.0''
      then Inr \<lparr>dependencies = Some [(''B'', ''1.0.0'')], license = Some ''MIT'',
               dist = Some ''http://registry/A-1.0.0.tgz''\<rparr>
      else if packageName = ''B'' \<and> version = ''1.0.0''
      then Inr \<lparr>dependencies = Some [(''A'', ''1.0.0'')], license = Some ''ISC'',
               dist = Some ''http://registry/B-1.0.0.tgz''\<rparr>
      else Inl (AxiosError ''Request failed with status code 404''))"

definition env_cycle :: env where
  "env_cycle = \<lparr>coerce = normalize, registry = registry_cycle, archive = (\<lambda>url. StreamEnds),
      content_length = (\<lambda>url. Some ''1024''), write_error = (\<lambda>fileName. None)\<rparr>"

text \<open>\<open>bar@2.0.0\<close> depends on \<open>foo@1.0.0\<close> and \<open>baz@1.0.0\<close>; the archive file of \<open>foo\<close> cannot be
  written.\<close>

definition registry_siblings :: "string \<Rightarrow> string \<Rightarrow> error + metadata" where
  "registry_siblings packageName version =
     (if packageName = ''bar'' \<and> version = ''2.0.0''
      then Inr \<lparr>dependencies = Some [(''foo'', ''1.0.0''), (''baz'', ''1.0.0'')],
               license = Some ''MIT'', dist = Some ''http://registry/bar-2.0.0.tgz''\<rparr>
      else Inr \<lparr>dependencies = None, license = Some ''MIT'',
               dist = Some (''http://registry/'' @ packageName @ ''-'' @ version @ ''.tgz'')\<rparr>)"

definition env_write_fails :: env where
  "env_write_fails = \<lparr>coerce = normalize, registry = registry_siblings, archive = (\<lambda>url. StreamEnds),
      content_length = (\<lambda>url. Some ''1024''),
      write_error = (\<lambda>fileName. if fileName = ''foo-1.0.0.tgz''
                                 then Some (Error ''ENOSPC: no space left on device, write'')
                                 else None)\<rparr>"

text \<open>A version component as the library accepts it: one to sixteen digits, no leading zero,
  at most \<open>MAX_SAFE_INTEGER\<close>.\<close>

definition version_component :: "string \<Rightarrow> bool" where
  "version_component ds \<longleftrightarrow>
     ds \<noteq> [] \<and> list_all is_digit ds \<and> length ds \<le> MAX_SAFE_COMPONENT_LENGTH \<and> numeric_identifier ds"

section \<open>Shapes of a resumed step\<close>

text \<open>Two states agree on the collections that record claims, edges, requests and tasks.\<close>

definition same_core :: "state \<Rightarrow> state \<Rightarrow> bool" where
  "same_core s s0 \<longleftrightarrow>
     downloadedPackages s0 = downloadedPackages s \<and> packageList s0 = packageList s
     \<and> dependencyTree s0 = dependencyTree s \<and> requests s0 = requests s \<and> tasks s0 = tasks s"

text \<open>A step that claims nothing: at most the archive request of the resumed task is added.\<close>

definition quiet :: "string \<Rightarrow> string \<Rightarrow> stage \<Rightarrow> state \<Rightarrow> state \<Rightarrow> bool" where
  "quiet n v st s s1 \<longleftrightarrow>
     downloadedPackages s1 = downloadedPackages s \<and> packageList s1 = packageList s
     \<and> dependencyTree s1 = dependencyTree s \<and> tasks s1 = tasks s
     \<and> (requests s1 = requests s
          \<or> (st = AwaitMetadata \<and> (\<exists>u. requests s1 = requests s @ [ArchiveGet n v u])))"

text \<open>The stage a task can take after a step that claims nothing.\<close>

definition next_stage :: "env \<Rightarrow> string \<Rightarrow> string \<Rightarrow> stage \<Rightarrow> stage \<Rightarrow> bool" where
  "next_stage env n v st st' \<longleftrightarrow>
     (\<not> settled st \<and> st' = Fulfilled)
     \<or> (st = AwaitMetadata \<and>
          (\<exists>md u. registry env n v = Inr md
             \<and> (st' = AwaitSkipped (dependencies_or_empty md)
                  \<or> st' = AwaitResponse (dependencies_or_empty md) u)))
     \<or> (\<exists>deps u. st = AwaitResponse deps u \<and> st' = AwaitStream deps u)
     \<or> (\<exists>ps j. st = AwaitBatch ps j \<and> j + CONCURRENCY < length ps \<and> st' = AwaitBatch ps (j + CONCURRENCY))
     \<or> (settled st \<and> st' = st)"

section \<open>Invariants of a run\<close>

fun request_key :: "request \<Rightarrow> string" where
  "request_key (MetadataGet n v) = packageKey_of n v"
| "request_key (ArchiveGet n v u) = packageKey_of n v"

fun is_metadata :: "request \<Rightarrow> bool" where
  "is_metadata (MetadataGet n v) = True"
| "is_metadata (ArchiveGet n v u) = False"

text \<open>The package keys of the metadata requests and of the archive requests, in order.\<close>

definition metadata_keys :: "request list \<Rightarrow> string list" where
  "metadata_keys rq = map request_key (filter is_metadata rq)"

definition archive_keys :: "request list \<Rightarrow> string list" where
  "archive_keys rq = map request_key (filter (\<lambda>r. \<not> is_metadata r) rq)"

text \<open>The package list holds the claimed keys, each once, in the order of their metadata
  requests, and the key of every call is claimed once the call has returned.\<close>

definition inv_claims :: "state \<Rightarrow> bool" where
  "inv_claims s \<longleftrightarrow>
     set (packageList s) = downloadedPackages s \<and> distinct (packageList s)
     \<and> metadata_keys (requests s) = packageList s
     \<and> (\<forall>t \<in> set (tasks s). task_key t \<in> downloadedPackages s)"

text \<open>No key has two archive requests: the tasks that still wait for their metadata have
  distinct keys, none of which has an archive request yet.\<close>

definition inv_archive :: "state \<Rightarrow> bool" where
  "inv_archive s \<longleftrightarrow>
     distinct (archive_keys (requests s))
     \<and> set (archive_keys (requests s)) \<subseteq> downloadedPackages s
     \<and> (\<forall>i < length (tasks s). task_stage (tasks s ! i) = AwaitMetadata \<longrightarrow>
           task_key (tasks s ! i) \<in> downloadedPackages s
           \<and> task_key (tasks s ! i) \<notin> set (archive_keys (requests s)))
     \<and> (\<forall>i < length (tasks s). \<forall>j < length (tasks s).
           i \<noteq> j \<and> task_stage (tasks s ! i) = AwaitMetadata \<and> task_stage (tasks s ! j) = AwaitMetadata \<longrightarrow>
           task_key (tasks s ! i) \<noteq> task_key (tasks s ! j))"

text \<open>The stage of a parent after its dependencies were called: the promises are the
  \<open>count\<close> tasks from index \<open>first\<close> on.\<close>

definition batch_stage :: "nat \<Rightarrow> nat \<Rightarrow> stage" where
  "batch_stage first count =
     (if 0 < length [first ..< first + count] then AwaitBatch [first ..< first + count] 0 else Fulfilled)"

section \<open>The recorded edges\<close>


text \<open>The position at which a key was pushed on the package list (the length of the list for
  a key that is not in it).\<close>

definition claim_rank :: "string list \<Rightarrow> string \<Rightarrow> nat" where
  "claim_rank pl packageKey = length (takeWhile (\<lambda>x. x \<noteq> packageKey) pl)"


text \<open>Whether a text starts with a digit, and whether it starts with a dot and a digit.\<close>

definition digit_first :: "string \<Rightarrow> bool" where
  "digit_first s = (case s of [] \<Rightarrow> False | c # _ \<Rightarrow> is_digit c)"

definition dot_digit :: "string \<Rightarrow> bool" where
  "dot_digit s = (case s of c # d # _ \<Rightarrow> c = CHR ''.'' \<and> is_digit d | _ \<Rightarrow> False)"

section \<open>Evaluation\<close>

lemmas exec_defs = step_def runnable_def resume_def resume_body_def after_metadata_def
  check_license_def downloadTarball_start_def launch_dependencies_def launch_all_def
  downloadPackageAndDependencies_def after_batch_def batch_of_def set_stage_def catch_error_def
  packageKey_of_def task_key_def fileName_of_def isCommercialFriendly_def
  COMMERCIAL_FRIENDLY_LICENSES_def CONCURRENCY_def getAllDependencies_def push_child_def
  license_warning_def license_text_def start_def initial_state_def dependencies_or_empty_def
  on_response_def obj_set_def Let_def

lemmas semver_defs = normalize_def semver_valid_def semver_coerce_def coerce_component_def
  numeric_identifier_def digits_value_def digit_value_def is_digit_def
  MAX_SAFE_COMPONENT_LENGTH_def MAX_SAFE_INTEGER_def

section \<open>The license audit\<close>

lemma isCommercialFriendly_iff:
  "isCommercialFriendly lic \<longleftrightarrow> lic \<in> Some ` set COMMERCIAL_FRIENDLY_LICENSES"
  by (auto simp: isCommercialFriendly_def COMMERCIAL_FRIENDLY_LICENSES_def split: option.splits)

lemma licenseWarnings_downloadTarball_start:
  "licenseWarnings (snd (downloadTarball_start n v u deps s)) = licenseWarnings s"
  by (simp add: downloadTarball_start_def Let_def)

lemma licenseWarnings_after_metadata:
  "licenseWarnings (snd (after_metadata n v md s)) =
     licenseWarnings (check_license (packageKey_of n v) (license md) s)"
  by (simp add: after_metadata_def Let_def licenseWarnings_downloadTarball_start
      split: option.splits prod.splits)
    (metis licenseWarnings_downloadTarball_start snd_conv)

text \<open>
  C8 (as stated). The claim has the text of the warning distinguish the absent license. The
  text is built with \<^verbatim>\<open>license || 'Unknown'\<close>: a response whose license is the string
  \<open>Unknown\<close>, or the empty string, gets the very warning of a response without license.
\<close>

theorem license_unknown_counterexample:
  "licenseWarnings (snd (after_metadata ''left-pad'' ''1.3.0''
       \<lparr>dependencies = None, license = None, dist = None\<rparr> (initial_state {})))
     = [''WARNING: left-pad@1.3.0 uses a non-commercial-friendly license: Unknown'']
   \<and> licenseWarnings (snd (after_metadata ''left-pad'' ''1.3.0''
       \<lparr>dependencies = None, license = Some ''Unknown'', dist = None\<rparr> (initial_state {})))
     = [''WARNING: left-pad@1.3.0 uses a non-commercial-friendly license: Unknown'']
   \<and> licenseWarnings (snd (after_metadata ''left-pad'' ''1.3.0''
       \<lparr>dependencies = None, license = Some [], dist = None\<rparr> (initial_state {})))
     = [''WARNING: left-pad@1.3.0 uses a non-commercial-friendly license: Unknown'']"
  unfolding licenseWarnings_after_metadata
  by (simp add: check_license_def isCommercialFriendly_def COMMERCIAL_FRIENDLY_LICENSES_def
      license_warning_def license_text_def packageKey_of_def initial_state_def)

text \<open>
  C8 (amended). When the metadata of a package arrives, a license on the allow-list (MIT,
  Apache-2.0, BSD-2-Clause, BSD-3-Clause, ISC) appends no license warning. An absent license
  appends exactly one warning for the package key, whose text ends in \<open>Unknown\<close>; a license
  that is present but not on the list appends exactly one warning that ends in the license
  string, or in \<open>Unknown\<close> when the string is empty. So the warnings of a response with a
  license and of the same response without one differ for every license string except the
  empty string and \<open>Unknown\<close> itself.
\<close>

theorem license_audit:
  "(license md \<in> Some ` set [''MIT'', ''Apache-2.0'', ''BSD-2-Clause'', ''BSD-3-Clause'', ''ISC''] \<longrightarrow>
      licenseWarnings (snd (after_metadata packageName version md s)) = licenseWarnings s)
   \<and> (license md = None \<longrightarrow>
      licenseWarnings (snd (after_metadata packageName version md s)) =
        licenseWarnings s @
          [''WARNING: '' @ packageName @ ''@'' @ version @ '' uses a non-commercial-friendly license: Unknown''])
   \<and> (\<forall>l. license md = Some l \<and> l \<notin> set [''MIT'', ''Apache-2.0'', ''BSD-2-Clause'', ''BSD-3-Clause'', ''ISC''] \<longrightarrow>
      licenseWarnings (snd (after_metadata packageName version md s)) =
        licenseWarnings s @
          [''WARNING: '' @ packageName @ ''@'' @ version @ '' uses a non-commercial-friendly license: ''
             @ (if l = [] then ''Unknown'' else l)])
   \<and> (\<forall>l. l \<noteq> [] \<and> l \<noteq> ''Unknown'' \<longrightarrow>
      licenseWarnings (snd (after_metadata packageName version (md\<lparr>license := Some l\<rparr>) s)) \<noteq>
      licenseWarnings (snd (after_metadata packageName version (md\<lparr>license := None\<rparr>) s)))"
  unfolding licenseWarnings_after_metadata
  by (auto simp: check_license_def isCommercialFriendly_iff COMMERCIAL_FRIENDLY_LICENSES_def
      license_warning_def license_text_def packageKey_of_def)

theorem license_audit_witness:
  "licenseWarnings (snd (after_metadata ''lodash'' ''4.17.21''
       \<lparr>dependencies = None, license = Some ''MIT'', dist = Some ''http://registry/lodash-4.17.21.tgz''\<rparr>
       (initial_state {}))) = []
   \<and> licenseWarnings (snd (after_metadata ''left-pad'' ''1.3.0''
       \<lparr>dependencies = None, license = None, dist = Some ''http://registry/left-pad-1.3.0.tgz''\<rparr>
       (initial_state {}))) =
       [''WARNING: left-pad@1.3.0 uses a non-commercial-friendly license: Unknown'']
   \<and> licenseWarnings (snd (after_metadata ''readline'' ''1.3.0''
       \<lparr>dependencies = None, license = Some ''GPL-3.0'', dist = None\<rparr>
       (initial_state {}))) =
       [''WARNING: readline@1.3.0 uses a non-commercial-friendly license: GPL-3.0'']
   \<and> licenseWarnings (snd (after_metadata ''readline'' ''1.3.0''
       \<lparr>dependencies = None, license = Some ''GPL-3.0'', dist = None\<rparr>
       (initial_state {}))) \<noteq>
     licenseWarnings (snd (after_metadata ''readline'' ''1.3.0''
       \<lparr>dependencies = None, license = None, dist = None\<rparr>
       (initial_state {})))"
proof -
  let ?s = "initial_state {}"
  have nil: "licenseWarnings ?s = []"
    by (simp add: initial_state_def)
  have a: "licenseWarnings (snd (after_metadata ''lodash'' ''4.17.21''
       \<lparr>dependencies = None, license = Some ''MIT'', dist = Some ''http://registry/lodash-4.17.21.tgz''\<rparr> ?s)) = []"
    using license_audit [where md = "\<lparr>dependencies = None, license = Some ''MIT'',
        dist = Some ''http://registry/lodash-4.17.21.tgz''\<rparr>" and packageName = "''lodash''"
        and version = "''4.17.21''" and s = ?s] nil
    by simp
  have b: "licenseWarnings (snd (after_metadata ''left-pad'' ''1.3.0''
       \<lparr>dependencies = None, license = None, dist = Some ''http://registry/left-pad-1.3.0.tgz''\<rparr> ?s)) =
       [''WARNING: left-pad@1.3.0 uses a non-commercial-friendly license: Unknown'']"
    using license_audit [where md = "\<lparr>dependencies = None, license = None,
        dist = Some ''http://registry/left-pad-1.3.0.tgz''\<rparr>" and packageName = "''left-pad''"
        and version = "''1.3.0''" and s = ?s] nil
    by simp
  have c: "licenseWarnings (snd (after_metadata ''readline'' ''1.3.0''
       \<lparr>dependencies = None, license = Some ''GPL-3.0'', dist = None\<rparr> ?s)) =
       [''WARNING: readline@1.3.0 uses a non-commercial-friendly license: GPL-3.0'']"
    using license_audit [where md = "\<lparr>dependencies = None, license = Some ''GPL-3.0'', dist = None\<rparr>"
        and packageName = "''readline''" and version = "''1.3.0''" and s = ?s] nil
    by simp
  have "\<forall>l. l \<noteq> [] \<and> l \<noteq> ''Unknown'' \<longrightarrow>
      licenseWarnings (snd (after_metadata ''readline'' ''1.3.0''
        (\<lparr>dependencies = None, license = Some ''GPL-3.0'', dist = None\<rparr>\<lparr>license := Some l\<rparr>) ?s)) \<noteq>
      licenseWarnings (snd (after_metadata ''readline'' ''1.3.0''
        (\<lparr>dependencies = None, license = Some ''GPL-3.0'', dist = None\<rparr>\<lparr>license := None\<rparr>) ?s))"
    using license_audit [where md = "\<lparr>dependencies = None, license = Some ''GPL-3.0'', dist = None\<rparr>"
        and packageName = "''readline''" and version = "''1.3.0''" and s = ?s]
    by (elim conjE)
  from spec [OF this, of "''GPL-3.0''"]
  have d: "licenseWarnings (snd (after_metadata ''readline'' ''1.3.0''
       \<lparr>dependencies = None, license = Some ''GPL-3.0'', dist = None\<rparr> ?s)) \<noteq>
     licenseWarnings (snd (after_metadata ''readline'' ''1.3.0''
       \<lparr>dependencies = None, license = None, dist = None\<rparr> ?s))"
    by simp
  from a b c d show ?thesis by blast
qed

section \<open>The tree rendering\<close>







section \<open>Version normalization\<close>

lemma coerce_major_skip:
  "list_all (\<lambda>c. \<not> is_digit c) pre \<Longrightarrow> coerce_major (pre @ s) = coerce_major s"
  by (induction pre) simp_all

lemma takeWhile_digits:
  "list_all is_digit a \<Longrightarrow> rest = [] \<or> \<not> is_digit (hd rest) \<Longrightarrow> takeWhile is_digit (a @ rest) = a"
  by (induction a) (auto simp: takeWhile_eq_Nil_iff)

lemma dropWhile_digits:
  "list_all is_digit a \<Longrightarrow> rest = [] \<or> \<not> is_digit (hd rest) \<Longrightarrow> dropWhile is_digit (a @ rest) = rest"
  by (induction a) (auto simp: dropWhile_eq_self_iff)

lemma coerce_major_digits:
  assumes "a \<noteq> []" "list_all is_digit a" "length a \<le> MAX_SAFE_COMPONENT_LENGTH"
    and "rest = [] \<or> \<not> is_digit (hd rest)"
  shows "coerce_major (a @ rest) = Some (a, rest)"
proof -
  obtain c cs where a: "a = c # cs"
    using assms(1) by (cases a) auto
  have t: "takeWhile is_digit ((c # cs) @ rest) = c # cs"
    and d: "dropWhile is_digit ((c # cs) @ rest) = rest"
    using takeWhile_digits [OF assms(2,4)] dropWhile_digits [OF assms(2,4)] a by simp_all
  have "is_digit c" using assms(2) a by simp
  then show ?thesis
    using t d assms(3) a by (simp del: takeWhile.simps dropWhile.simps)
qed

lemma coerce_component_digits:
  assumes "b \<noteq> []" "list_all is_digit b" "length b \<le> MAX_SAFE_COMPONENT_LENGTH"
    and "rest = [] \<or> \<not> is_digit (hd rest)"
  shows "coerce_component (CHR ''.'' # b @ rest) = Some (b, rest)"
  using assms takeWhile_digits [OF assms(2,4)] dropWhile_digits [OF assms(2,4)]
  by (cases b) (simp_all add: coerce_component_def)

lemma not_digit_dot: "\<not> is_digit CHR ''.''"
  by (simp add: is_digit_def)

lemma normalize_triple:
  assumes pre: "list_all (\<lambda>x. \<not> is_digit x) pre"
    and a: "version_component a" and b: "version_component b" and c: "version_component c"
    and post: "post = [] \<or> \<not> is_digit (hd post)"
  shows "normalize (pre @ a @ ''.'' @ b @ ''.'' @ c @ post) = Some (a @ ''.'' @ b @ ''.'' @ c)"
proof -
  have 1: "coerce_major (pre @ a @ CHR ''.'' # b @ CHR ''.'' # c @ post)
      = Some (a, CHR ''.'' # b @ CHR ''.'' # c @ post)"
    using a by (simp add: coerce_major_skip [OF pre] coerce_major_digits version_component_def not_digit_dot)
  have 2: "coerce_component (CHR ''.'' # b @ CHR ''.'' # c @ post) = Some (b, CHR ''.'' # c @ post)"
    using b coerce_component_digits [of b "CHR ''.'' # c @ post"]
    by (simp add: version_component_def not_digit_dot)
  have 3: "coerce_component (CHR ''.'' # c @ post) = Some (c, post)"
    using c post coerce_component_digits [of c post]
    by (simp add: version_component_def)
  show ?thesis
    using a b c by (simp add: normalize_def semver_coerce_def 1 2 3 semver_valid_def version_component_def)
qed

lemma coerce_major_None: "list_all (\<lambda>c. \<not> is_digit c) s \<Longrightarrow> coerce_major s = None"
  by (induction s) simp_all

lemma normalize_no_digit: "list_all (\<lambda>c. \<not> is_digit c) s \<Longrightarrow> normalize s = None"
  by (simp add: normalize_def semver_coerce_def coerce_major_None semver_valid_def)

lemma list_all_takeWhile: "list_all P (takeWhile P xs)"
  by (induction xs) auto

lemma coerce_major_Some_digits:
  "coerce_major s = Some (a, rest) \<Longrightarrow> a \<noteq> [] \<and> list_all is_digit a"
proof (induction s rule: coerce_major.induct)
  case 1
  then show ?case by simp
next
  case (2 c cs)
  show ?case
  proof (cases "is_digit c")
    case False
    then show ?thesis using 2 by simp
  next
    case True
    show ?thesis
    proof (cases "length (takeWhile is_digit (c # cs)) \<le> MAX_SAFE_COMPONENT_LENGTH")
      case False
      then show ?thesis using 2 True by simp
    next
      case le: True
      have "coerce_major (c # cs) = Some (takeWhile is_digit (c # cs), dropWhile is_digit (c # cs))"
        using True le by (simp del: takeWhile.simps dropWhile.simps)
      then have a: "a = takeWhile is_digit (c # cs)"
        using "2.prems" by simp
      have "a \<noteq> []" using a True by simp
      moreover have "list_all is_digit a"
        unfolding a by (rule list_all_takeWhile)
      ultimately show ?thesis by blast
    qed
  qed
qed

lemma coerce_component_Some_digits:
  assumes h: "coerce_component s = Some (a, rest)"
  shows "a \<noteq> [] \<and> list_all is_digit a"
proof (cases s)
  case Nil
  then show ?thesis using h by (simp add: coerce_component_def)
next
  case (Cons c cs)
  then have a: "a = takeWhile is_digit cs" and "1 \<le> length (takeWhile is_digit cs)"
    using h by (auto simp: coerce_component_def split: if_splits)
  then have "a \<noteq> []" by auto
  moreover have "list_all is_digit a"
    unfolding a by (rule list_all_takeWhile)
  ultimately show ?thesis by blast
qed

lemma zero_digits: "list_all is_digit ''0''"
  by (simp add: is_digit_def)

lemma normalize_shape:
  assumes "normalize r = Some v"
  shows "\<exists>a b c. v = a @ ''.'' @ b @ ''.'' @ c \<and> a \<noteq> [] \<and> b \<noteq> [] \<and> c \<noteq> []
           \<and> list_all is_digit a \<and> list_all is_digit b \<and> list_all is_digit c"
proof -
  obtain a b c where co: "semver_coerce r = Some (a, b, c)" and v: "v = a @ ''.'' @ b @ ''.'' @ c"
    using assms by (auto simp: normalize_def semver_valid_def split: option.splits if_splits)
  from co have "a \<noteq> [] \<and> list_all is_digit a \<and> b \<noteq> [] \<and> list_all is_digit b
      \<and> c \<noteq> [] \<and> list_all is_digit c"
    using zero_digits
    by (auto simp: semver_coerce_def split: option.splits prod.splits
        dest!: coerce_major_Some_digits coerce_component_Some_digits)
  with v show ?thesis by blast
qed

section \<open>getAllDependencies\<close>



lemma getAllDependencies_loop_fst:
  "fst (getAllDependencies_loop nrm ds (acc, w)) = fst (getAllDependencies_loop nrm ds (acc, w'))"
  by (induction ds arbitrary: acc w w') (auto split: option.splits)

lemma getAllDependencies_loop_append:
  "getAllDependencies_loop nrm (ds1 @ ds2) acc =
     getAllDependencies_loop nrm ds2 (getAllDependencies_loop nrm ds1 acc)"
  by (induction nrm ds1 acc rule: getAllDependencies_loop.induct) (auto split: option.splits)

lemma getAllDependencies_loop_warned:
  "x \<in> set w \<Longrightarrow> x \<in> set (snd (getAllDependencies_loop nrm ds (acc, w)))"
proof (induction ds arbitrary: acc w)
  case Nil
  then show ?case by simp
next
  case (Cons d ds)
  obtain n r where d: "d = (n, r)" by (cases d) auto
  show ?case
  proof (cases "nrm r")
    case None
    have "x \<in> set (w @ [''Skipping invalid version range: '' @ n @ ''@'' @ r])"
      using Cons.prems by simp
    from Cons.IH [OF this] show ?thesis
      using None d by simp
  next
    case (Some v)
    then show ?thesis using Cons d by simp
  qed
qed

lemma getAllDependencies_skip:
  assumes "nrm r = None"
  shows "fst (getAllDependencies nrm (ds1 @ (n, r) # ds2)) = fst (getAllDependencies nrm (ds1 @ ds2))"
    and "''Skipping invalid version range: '' @ n @ ''@'' @ r
           \<in> set (snd (getAllDependencies nrm (ds1 @ (n, r) # ds2)))"
proof -
  obtain acc w where l: "getAllDependencies_loop nrm ds1 ([], []) = (acc, w)"
    by (cases "getAllDependencies_loop nrm ds1 ([], [])") auto
  show "fst (getAllDependencies nrm (ds1 @ (n, r) # ds2)) = fst (getAllDependencies nrm (ds1 @ ds2))"
    using assms getAllDependencies_loop_fst
    by (simp add: getAllDependencies_def getAllDependencies_loop_append l)
  show "''Skipping invalid version range: '' @ n @ ''@'' @ r
           \<in> set (snd (getAllDependencies nrm (ds1 @ (n, r) # ds2)))"
    using assms getAllDependencies_loop_warned
      [of "''Skipping invalid version range: '' @ n @ ''@'' @ r"
          "w @ [''Skipping invalid version range: '' @ n @ ''@'' @ r]" nrm ds2 acc]
    by (simp add: getAllDependencies_def getAllDependencies_loop_append l)
qed




lemma digit_first_iff: "\<not> digit_first s \<longleftrightarrow> s = [] \<or> \<not> is_digit (hd s)"
  by (cases s) (simp_all add: digit_first_def)

lemma coerce_component_None: "\<not> dot_digit rest \<Longrightarrow> coerce_component rest = None"
proof (cases rest)
  case Nil
  then show ?thesis by (simp add: coerce_component_def)
next
  case (Cons c cs)
  assume nd: "\<not> dot_digit rest"
  show ?thesis
  proof (cases cs)
    case Nil
    then show ?thesis using Cons by (simp add: coerce_component_def)
  next
    case cs: (Cons d ds)
    then have "c \<noteq> CHR ''.'' \<or> \<not> is_digit d"
      using nd Cons by (simp add: dot_digit_def)
    then show ?thesis using Cons cs by (auto simp: coerce_component_def)
  qed
qed

lemma normalize_major:
  assumes pre: "list_all (\<lambda>x. \<not> is_digit x) pre" and a: "version_component a"
    and rest: "\<not> digit_first rest" "\<not> dot_digit rest"
  shows "normalize (pre @ a @ rest) = Some (a @ ''.0.0'')"
proof -
  have 1: "coerce_major (pre @ a @ rest) = Some (a, rest)"
    using a rest(1)
    by (simp add: coerce_major_skip [OF pre] coerce_major_digits version_component_def digit_first_iff)
  have zero: "numeric_identifier ''0''"
    by (simp add: semver_defs)
  show ?thesis
    using a zero
    by (simp add: normalize_def semver_coerce_def 1 coerce_component_None [OF rest(2)]
        semver_valid_def version_component_def)
qed

lemma normalize_major_minor:
  assumes pre: "list_all (\<lambda>x. \<not> is_digit x) pre" and a: "version_component a"
    and b: "version_component b" and rest: "\<not> digit_first rest" "\<not> dot_digit rest"
  shows "normalize (pre @ a @ ''.'' @ b @ rest) = Some (a @ ''.'' @ b @ ''.0'')"
proof -
  have 1: "coerce_major (pre @ a @ CHR ''.'' # b @ rest) = Some (a, CHR ''.'' # b @ rest)"
    using a by (simp add: coerce_major_skip [OF pre] coerce_major_digits version_component_def not_digit_dot)
  have 2: "coerce_component (CHR ''.'' # b @ rest) = Some (b, rest)"
    using b rest(1) coerce_component_digits [of b rest]
    by (simp add: version_component_def digit_first_iff)
  have zero: "numeric_identifier ''0''"
    by (simp add: semver_defs)
  show ?thesis
    using a b zero
    by (simp add: normalize_def semver_coerce_def 1 2 coerce_component_None [OF rest(2)]
        semver_valid_def version_component_def)
qed

section \<open>Dependencies that cannot be normalized\<close>

lemma call_console:
  "downloadPackageAndDependencies n v p (s\<lparr>console := c\<rparr>)
     = (downloadPackageAndDependencies n v p s)\<lparr>console := c\<rparr>"
  by (cases p) (simp_all add: downloadPackageAndDependencies_def Let_def)

lemma launch_all_console:
  "launch_all p entries (s\<lparr>console := c\<rparr>) = (launch_all p entries s)\<lparr>console := c\<rparr>"
proof (induction entries arbitrary: s)
  case Nil
  show ?case by (simp add: launch_all_def)
next
  case (Cons e entries)
  obtain n v where e: "e = (n, v)" by (cases e) auto
  have "launch_all p (e # entries) (s\<lparr>console := c\<rparr>)
      = launch_all p entries (downloadPackageAndDependencies n v p (s\<lparr>console := c\<rparr>))"
    by (simp add: launch_all_def e)
  also have "\<dots> = launch_all p entries ((downloadPackageAndDependencies n v p s)\<lparr>console := c\<rparr>)"
    by (simp only: call_console)
  also have "\<dots> = (launch_all p entries (downloadPackageAndDependencies n v p s))\<lparr>console := c\<rparr>"
    by (rule Cons.IH)
  also have "\<dots> = (launch_all p (e # entries) s)\<lparr>console := c\<rparr>"
    by (simp add: launch_all_def e)
  finally show ?case .
qed

lemma launch_dependencies_eq:
  "launch_dependencies env k deps s =
     (if 0 < length [length (tasks s) ..< length (tasks s) + length (fst (getAllDependencies (coerce env) deps))]
      then AwaitBatch [length (tasks s) ..< length (tasks s) + length (fst (getAllDependencies (coerce env) deps))] 0
      else Fulfilled,
      launch_all (Some k) (fst (getAllDependencies (coerce env) deps))
        (s\<lparr>console := console s @ snd (getAllDependencies (coerce env) deps)\<rparr>))"
  by (cases "getAllDependencies (coerce env) deps") (simp add: launch_dependencies_def Let_def)

lemma console_launch_all: "console (launch_all p entries s) = console s"
proof (induction entries arbitrary: s)
  case Nil
  show ?case by (simp add: launch_all_def)
next
  case (Cons e entries)
  obtain n v where e: "e = (n, v)" by (cases e) auto
  have "console (launch_all p (e # entries) s)
      = console (launch_all p entries (downloadPackageAndDependencies n v p s))"
    by (simp add: launch_all_def e)
  also have "\<dots> = console (downloadPackageAndDependencies n v p s)"
    by (rule Cons.IH)
  also have "\<dots> = console s"
    by (simp add: downloadPackageAndDependencies_def Let_def)
  finally show ?case .
qed

lemma launch_dependencies_skip:
  assumes "coerce env r = None"
  shows "fst (launch_dependencies env k (ds1 @ (n, r) # ds2) s) = fst (launch_dependencies env k (ds1 @ ds2) s)"
    and "(snd (launch_dependencies env k (ds1 @ (n, r) # ds2) s))\<lparr>console := c\<rparr>
         = (snd (launch_dependencies env k (ds1 @ ds2) s))\<lparr>console := c\<rparr>"
    and "''Skipping invalid version range: '' @ n @ ''@'' @ r
           \<in> set (console (snd (launch_dependencies env k (ds1 @ (n, r) # ds2) s)))"
proof -
  note sk = getAllDependencies_skip [where nrm = "coerce env" and r = r and ?ds1.0 = ds1 and n = n
      and ?ds2.0 = ds2, OF assms]
  show "fst (launch_dependencies env k (ds1 @ (n, r) # ds2) s) = fst (launch_dependencies env k (ds1 @ ds2) s)"
    by (simp only: launch_dependencies_eq fst_conv sk(1))
  show "(snd (launch_dependencies env k (ds1 @ (n, r) # ds2) s))\<lparr>console := c\<rparr>
         = (snd (launch_dependencies env k (ds1 @ ds2) s))\<lparr>console := c\<rparr>"
    by (simp add: launch_dependencies_eq sk(1) launch_all_console)
  show "''Skipping invalid version range: '' @ n @ ''@'' @ r
           \<in> set (console (snd (launch_dependencies env k (ds1 @ (n, r) # ds2) s)))"
    using sk(2) by (simp add: launch_dependencies_eq console_launch_all)
qed

lemma resume_skipped:
  assumes "tasks s ! i = Task pn pv (AwaitSkipped deps)"
  shows "resume env i s =
     set_stage i (fst (launch_dependencies env (pn @ ''@'' @ pv) deps s))
       (snd (launch_dependencies env (pn @ ''@'' @ pv) deps s))"
  by (cases "launch_dependencies env (pn @ ''@'' @ pv) deps s")
    (simp add: resume_def resume_body_def assms packageKey_of_def)

lemma resume_streamed:
  assumes "tasks s ! i = Task pn pv (AwaitStream deps u)"
    and "write_error env (fileName_of pn pv) = None" "archive env u = StreamEnds"
  shows "resume env i s =
     set_stage i (fst (launch_dependencies env (pn @ ''@'' @ pv) deps s))
       (snd (launch_dependencies env (pn @ ''@'' @ pv) deps s))"
  by (cases "launch_dependencies env (pn @ ''@'' @ pv) deps s")
    (simp add: resume_def resume_body_def assms packageKey_of_def)

text \<open>
  C7 (as stated). The claim has the first \<open>major.minor.patch\<close>-shaped token extracted and lets
  the literal \<open>latest\<close> pass through to the registry as a tag. Neither holds for a dependency.
  In \<open>>=1 <2.3.4\<close> the first such token is \<open>2.3.4\<close>, yet the result is \<open>1.0.0\<close>: the first run
  of digits is taken and padded. And \<open>getAllDependencies\<close> coerces every range: \<open>latest\<close> has
  no digit, so the dependency \<open>foo: latest\<close> is dropped with a warning and no request for it
  is ever made.
\<close>

theorem latest_dependency_counterexample:
  "getAllDependencies normalize [(''foo'', ''latest'')] = ([], [''Skipping invalid version range: foo@latest''])
   \<and> requests (snd (launch_dependencies env_foo_fails ''bar@2.0.0'' [(''foo'', ''latest'')] (initial_state {}))) = []
   \<and> tasks (snd (launch_dependencies env_foo_fails ''bar@2.0.0'' [(''foo'', ''latest'')] (initial_state {}))) = []
   \<and> normalize ''>=1 <2.3.4'' = Some ''1.0.0''"
proof -
  have "normalize ''>=1 <2.3.4'' = Some ''1.0.0''"
    by (simp add: semver_defs)
  then show ?thesis
    by (simp add: exec_defs env_foo_fails_def normalize_no_digit is_digit_def)
qed

text \<open>
  C7 (amended). Normalizing a dependency's range takes the first run of digits as the major
  version, and the digit runs that directly follow it, each after one dot, as minor and patch
  (a component being one to sixteen digits without leading zero, at most \<open>2^53 - 1\<close>, and the
  major run being preceded by no digit); a missing minor or patch is filled with \<open>0\<close>, and
  whatever follows, pre-release and build metadata included, is dropped. Every result is three
  dot-separated digit strings. Every range of a dependency is coerced, the literal \<open>latest\<close>
  included; a range without a digit, such as \<open>latest\<close>, cannot be coerced. A dependency whose
  range cannot be coerced is left out and a warning is written, while the parent goes on with
  the other dependencies exactly as if it had not been listed: the same calls, the same
  promises to wait for, the same state up to the console.
\<close>

theorem version_normalization:
  "(list_all (\<lambda>x. \<not> is_digit x) pre \<and> version_component a \<and> \<not> digit_first rest \<and> \<not> dot_digit rest \<longrightarrow>
      normalize (pre @ a @ rest) = Some (a @ ''.0.0''))
   \<and> (list_all (\<lambda>x. \<not> is_digit x) pre \<and> version_component a \<and> version_component b
      \<and> \<not> digit_first rest \<and> \<not> dot_digit rest \<longrightarrow>
      normalize (pre @ a @ ''.'' @ b @ rest) = Some (a @ ''.'' @ b @ ''.0''))
   \<and> (list_all (\<lambda>x. \<not> is_digit x) pre \<and> version_component a \<and> version_component b \<and> version_component c
      \<and> \<not> digit_first rest \<longrightarrow>
      normalize (pre @ a @ ''.'' @ b @ ''.'' @ c @ rest) = Some (a @ ''.'' @ b @ ''.'' @ c))
   \<and> (\<forall>v. normalize r = Some v \<longrightarrow>
        (\<exists>a b c. v = a @ ''.'' @ b @ ''.'' @ c \<and> a \<noteq> [] \<and> b \<noteq> [] \<and> c \<noteq> []
           \<and> list_all is_digit a \<and> list_all is_digit b \<and> list_all is_digit c))
   \<and> (list_all (\<lambda>x. \<not> is_digit x) r \<longrightarrow> normalize r = None)
   \<and> normalize ''latest'' = None
   \<and> (nrm r' = None \<longrightarrow>
        fst (getAllDependencies nrm (ds1 @ (n, r') # ds2)) = fst (getAllDependencies nrm (ds1 @ ds2))
        \<and> ''Skipping invalid version range: '' @ n @ ''@'' @ r'
             \<in> set (snd (getAllDependencies nrm (ds1 @ (n, r') # ds2))))
   \<and> (coerce env r' = None \<longrightarrow>
        fst (launch_dependencies env k (ds1 @ (n, r') # ds2) s) = fst (launch_dependencies env k (ds1 @ ds2) s)
        \<and> (snd (launch_dependencies env k (ds1 @ (n, r') # ds2) s))\<lparr>console := co\<rparr>
            = (snd (launch_dependencies env k (ds1 @ ds2) s))\<lparr>console := co\<rparr>
        \<and> ''Skipping invalid version range: '' @ n @ ''@'' @ r'
             \<in> set (console (snd (launch_dependencies env k (ds1 @ (n, r') # ds2) s))))
   \<and> snd (launch_dependencies env k deps s) =
        launch_all (Some k) (fst (getAllDependencies (coerce env) deps))
          (s\<lparr>console := console s @ snd (getAllDependencies (coerce env) deps)\<rparr>)
   \<and> (tasks s ! i = Task pn pv (AwaitSkipped deps)
        \<or> (tasks s ! i = Task pn pv (AwaitStream deps u)
            \<and> write_error env (fileName_of pn pv) = None \<and> archive env u = StreamEnds) \<longrightarrow>
        resume env i s =
          set_stage i (fst (launch_dependencies env (pn @ ''@'' @ pv) deps s))
            (snd (launch_dependencies env (pn @ ''@'' @ pv) deps s)))"
proof -
  have n1: "list_all (\<lambda>x. \<not> is_digit x) pre \<and> version_component a \<and> \<not> digit_first rest \<and> \<not> dot_digit rest \<longrightarrow>
      normalize (pre @ a @ rest) = Some (a @ ''.0.0'')"
    using normalize_major [of pre a rest] by blast
  have n2: "list_all (\<lambda>x. \<not> is_digit x) pre \<and> version_component a \<and> version_component b
      \<and> \<not> digit_first rest \<and> \<not> dot_digit rest \<longrightarrow>
      normalize (pre @ a @ ''.'' @ b @ rest) = Some (a @ ''.'' @ b @ ''.0'')"
    using normalize_major_minor [of pre a b rest] by blast
  have n3: "list_all (\<lambda>x. \<not> is_digit x) pre \<and> version_component a \<and> version_component b \<and> version_component c
      \<and> \<not> digit_first rest \<longrightarrow>
      normalize (pre @ a @ ''.'' @ b @ ''.'' @ c @ rest) = Some (a @ ''.'' @ b @ ''.'' @ c)"
    using normalize_triple [of pre a b c rest] digit_first_iff [of rest] by blast
  have n4: "\<forall>v. normalize r = Some v \<longrightarrow>
        (\<exists>a b c. v = a @ ''.'' @ b @ ''.'' @ c \<and> a \<noteq> [] \<and> b \<noteq> [] \<and> c \<noteq> []
           \<and> list_all is_digit a \<and> list_all is_digit b \<and> list_all is_digit c)"
    using normalize_shape [of r] by blast
  have n5: "list_all (\<lambda>x. \<not> is_digit x) r \<longrightarrow> normalize r = None"
    using normalize_no_digit [of r] by blast
  have n6: "normalize ''latest'' = None"
    by (rule normalize_no_digit) (simp add: is_digit_def)
  have n7: "nrm r' = None \<longrightarrow>
        fst (getAllDependencies nrm (ds1 @ (n, r') # ds2)) = fst (getAllDependencies nrm (ds1 @ ds2))
        \<and> ''Skipping invalid version range: '' @ n @ ''@'' @ r'
             \<in> set (snd (getAllDependencies nrm (ds1 @ (n, r') # ds2)))"
    using getAllDependencies_skip [where nrm = nrm and r = r' and ?ds1.0 = ds1 and n = n and ?ds2.0 = ds2]
    by blast
  have n8: "coerce env r' = None \<longrightarrow>
        fst (launch_dependencies env k (ds1 @ (n, r') # ds2) s) = fst (launch_dependencies env k (ds1 @ ds2) s)
        \<and> (snd (launch_dependencies env k (ds1 @ (n, r') # ds2) s))\<lparr>console := co\<rparr>
            = (snd (launch_dependencies env k (ds1 @ ds2) s))\<lparr>console := co\<rparr>
        \<and> ''Skipping invalid version range: '' @ n @ ''@'' @ r'
             \<in> set (console (snd (launch_dependencies env k (ds1 @ (n, r') # ds2) s)))"
    using launch_dependencies_skip(1) [where env = env and r = r' and k = k and ?ds1.0 = ds1 and n = n
        and ?ds2.0 = ds2 and s = s]
      launch_dependencies_skip(2) [where env = env and r = r' and k = k and ?ds1.0 = ds1 and n = n
        and ?ds2.0 = ds2 and s = s and c = co]
      launch_dependencies_skip(3) [where env = env and r = r' and k = k and ?ds1.0 = ds1 and n = n
        and ?ds2.0 = ds2 and s = s]
    by (intro impI conjI)
  have n9: "snd (launch_dependencies env k deps s) =
        launch_all (Some k) (fst (getAllDependencies (coerce env) deps))
          (s\<lparr>console := console s @ snd (getAllDependencies (coerce env) deps)\<rparr>)"
    by (simp only: launch_dependencies_eq snd_conv)
  have n10: "tasks s ! i = Task pn pv (AwaitSkipped deps)
        \<or> (tasks s ! i = Task pn pv (AwaitStream deps u)
            \<and> write_error env (fileName_of pn pv) = None \<and> archive env u = StreamEnds) \<longrightarrow>
        resume env i s =
          set_stage i (fst (launch_dependencies env (pn @ ''@'' @ pv) deps s))
            (snd (launch_dependencies env (pn @ ''@'' @ pv) deps s))"
    using resume_skipped [of s i pn pv deps env] resume_streamed [of s i pn pv deps u env]
    by (intro impI) (elim disjE conjE)
  show ?thesis
    by (intro conjI n1 n2 n3 n4 n5 n6 n7 n8 n9 n10)
qed

theorem version_normalization_witness:
  "normalize ''>=1 <2.3.4'' = Some ''1.0.0''
   \<and> normalize ''^1.2'' = Some ''1.2.0''
   \<and> normalize ''^1.2.3-beta.1+build.5'' = Some ''1.2.3''
   \<and> normalize ''*'' = None
   \<and> fst (getAllDependencies normalize [(''a'', ''~1.0.2''), (''b'', ''*''), (''c'', ''2.1.0'')])
       = fst (getAllDependencies normalize [(''a'', ''~1.0.2''), (''c'', ''2.1.0'')])
   \<and> ''Skipping invalid version range: b@*''
       \<in> set (snd (getAllDependencies normalize [(''a'', ''~1.0.2''), (''b'', ''*''), (''c'', ''2.1.0'')]))
   \<and> fst (launch_dependencies env_foo_fails ''p@1.0.0'' [(''a'', ''~1.0.2''), (''b'', ''*''), (''c'', ''2.1.0'')]
            (initial_state {}))
       = fst (launch_dependencies env_foo_fails ''p@1.0.0'' [(''a'', ''~1.0.2''), (''c'', ''2.1.0'')]
            (initial_state {}))
   \<and> tasks (resume env_foo_fails 0
        ((initial_state {})\<lparr>tasks := [Task ''p'' ''1.0.0'' (AwaitSkipped [(''b'', ''*'')])]\<rparr>))
       = [Task ''p'' ''1.0.0'' Fulfilled]"
proof -
  have star: "normalize ''*'' = None"
    by (rule normalize_no_digit) (simp add: is_digit_def)
  have one: "version_component ''1''" and two: "version_component ''2''" and three: "version_component ''3''"
    by (simp_all add: version_component_def semver_defs)
  have pre1: "list_all (\<lambda>x. \<not> is_digit x) ''>=''" and rest1: "\<not> digit_first '' <2.3.4''"
    "\<not> dot_digit '' <2.3.4''"
    and pre2: "list_all (\<lambda>x. \<not> is_digit x) ''^''" and rest2: "\<not> digit_first []" "\<not> dot_digit []"
    and rest3: "\<not> digit_first ''-beta.1+build.5''"
    by (simp_all add: is_digit_def digit_first_def dot_digit_def)
  have w1: "normalize (''>='' @ ''1'' @ '' <2.3.4'') = Some (''1'' @ ''.0.0'')"
    using version_normalization [where pre = "''>=''" and a = "''1''" and rest = "'' <2.3.4''",
        THEN conjunct1] pre1 one rest1
    by blast
  have w2: "normalize (''^'' @ ''1'' @ ''.'' @ ''2'' @ []) = Some (''1'' @ ''.'' @ ''2'' @ ''.0'')"
    using version_normalization [where pre = "''^''" and a = "''1''" and b = "''2''" and rest = "[]",
        THEN conjunct2, THEN conjunct1] pre2 one two rest2
    by blast
  have w3: "normalize (''^'' @ ''1'' @ ''.'' @ ''2'' @ ''.'' @ ''3'' @ ''-beta.1+build.5'')
      = Some (''1'' @ ''.'' @ ''2'' @ ''.'' @ ''3'')"
    using version_normalization [where pre = "''^''" and a = "''1''" and b = "''2''" and c = "''3''"
        and rest = "''-beta.1+build.5''", THEN conjunct2, THEN conjunct2, THEN conjunct1]
      pre2 one two three rest3
    by blast
  note rest = version_normalization [where nrm = normalize and r' = "''*''"
      and ?ds1.0 = "[(''a'', ''~1.0.2'')]" and n = "''b''" and ?ds2.0 = "[(''c'', ''2.1.0'')]"
      and env = env_foo_fails and k = "''p@1.0.0''" and s = "initial_state {}",
      THEN conjunct2, THEN conjunct2, THEN conjunct2, THEN conjunct2, THEN conjunct2, THEN conjunct2]
  have w7: "fst (getAllDependencies normalize ([(''a'', ''~1.0.2'')] @ (''b'', ''*'') # [(''c'', ''2.1.0'')]))
       = fst (getAllDependencies normalize ([(''a'', ''~1.0.2'')] @ [(''c'', ''2.1.0'')]))
     \<and> ''Skipping invalid version range: '' @ ''b'' @ ''@'' @ ''*''
       \<in> set (snd (getAllDependencies normalize ([(''a'', ''~1.0.2'')] @ (''b'', ''*'') # [(''c'', ''2.1.0'')])))"
    using rest [THEN conjunct1] star by blast
  have co: "coerce env_foo_fails ''*'' = None"
    using star by (simp add: env_foo_fails_def)
  have w8: "fst (launch_dependencies env_foo_fails ''p@1.0.0''
          ([(''a'', ''~1.0.2'')] @ (''b'', ''*'') # [(''c'', ''2.1.0'')]) (initial_state {}))
       = fst (launch_dependencies env_foo_fails ''p@1.0.0''
          ([(''a'', ''~1.0.2'')] @ [(''c'', ''2.1.0'')]) (initial_state {}))"
    using rest [THEN conjunct2, THEN conjunct1] co by blast
  let ?s = "(initial_state {})\<lparr>tasks := [Task ''p'' ''1.0.0'' (AwaitSkipped [(''b'', ''*'')])]\<rparr>"
  have t: "tasks ?s ! 0 = Task ''p'' ''1.0.0'' (AwaitSkipped [(''b'', ''*'')])"
    by simp
  have "resume env_foo_fails 0 ?s =
      set_stage 0 (fst (launch_dependencies env_foo_fails (''p'' @ ''@'' @ ''1.0.0'') [(''b'', ''*'')] ?s))
        (snd (launch_dependencies env_foo_fails (''p'' @ ''@'' @ ''1.0.0'') [(''b'', ''*'')] ?s))"
    using version_normalization [where env = env_foo_fails and s = ?s and i = 0 and pn = "''p''"
        and pv = "''1.0.0''" and deps = "[(''b'', ''*'')]",
        THEN conjunct2, THEN conjunct2, THEN conjunct2, THEN conjunct2, THEN conjunct2, THEN conjunct2,
        THEN conjunct2, THEN conjunct2, THEN conjunct2] t
    by blast
  then have w10: "tasks (resume env_foo_fails 0 ?s) = [Task ''p'' ''1.0.0'' Fulfilled]"
    using co by (simp add: launch_dependencies_eq getAllDependencies_def set_stage_def launch_all_def)
  show ?thesis
    using w1 w2 w3 star w7 w8 w10 by simp
qed
section \<open>The package key\<close>











section \<open>Six dependencies at once\<close>

lemma six_start: "start {} [(''app'', ''1.0.0'')] =
  \<lparr>downloadedPackages = {''app@1.0.0''},
   packageList = [''app@1.0.0''],
   dependencyTree = Map.empty,
   licenseWarnings = [],
   files = {},
   requests = [MetadataGet ''app'' ''1.0.0''],
   console = [],
   tasks = [Task ''app'' ''1.0.0'' AwaitMetadata],
   crashed = None\<rparr>"
  by (simp add: exec_defs)

lemma six_step1: "step env_six n
  \<lparr>downloadedPackages = {''app@1.0.0''},
   packageList = [''app@1.0.0''],
   dependencyTree = Map.empty,
   licenseWarnings = [],
   files = {},
   requests = [MetadataGet ''app'' ''1.0.0''],
   console = [],
   tasks = [Task ''app'' ''1.0.0'' AwaitMetadata],
   crashed = None\<rparr> =
  \<lparr>downloadedPackages = {''app@1.0.0''},
   packageList = [''app@1.0.0''],
   dependencyTree = Map.empty,
   licenseWarnings = [],
   files = {},
   requests = [MetadataGet ''app'' ''1.0.0'', ArchiveGet ''app'' ''1.0.0'' ''http://registry/app.tgz''],
   console = [],
   tasks = [Task ''app'' ''1.0.0'' (AwaitResponse [(''d1'', ''1.0.0''), (''d2'', ''1.0.0''), (''d3'', ''1.0.0''), (''d4'', ''1.0.0''), (''d5'', ''1.0.0''), (''d6'', ''1.0.0'')] ''http://registry/app.tgz'')],
   crashed = None\<rparr>"
  by (simp add: exec_defs env_six_def registry_six_def)

lemma six_step2: "step env_six n
  \<lparr>downloadedPackages = {''app@1.0.0''},
   packageList = [''app@1.0.0''],
   dependencyTree = Map.empty,
   licenseWarnings = [],
   files = {},
   requests = [MetadataGet ''app'' ''1.0.0'', ArchiveGet ''app'' ''1.0.0'' ''http://registry/app.tgz''],
   console = [],
   tasks = [Task ''app'' ''1.0.0'' (AwaitResponse [(''d1'', ''1.0.0''), (''d2'', ''1.0.0''), (''d3'', ''1.0.0''), (''d4'', ''1.0.0''), (''d5'', ''1.0.0''), (''d6'', ''1.0.0'')] ''http://registry/app.tgz'')],
   crashed = None\<rparr> =
  \<lparr>downloadedPackages = {''app@1.0.0''},
   packageList = [''app@1.0.0''],
   dependencyTree = Map.empty,
   licenseWarnings = [],
   files = {''app-1.0.0.tgz''},
   requests = [MetadataGet ''app'' ''1.0.0'', ArchiveGet ''app'' ''1.0.0'' ''http://registry/app.tgz''],
   console = [],
   tasks = [Task ''app'' ''1.0.0'' (AwaitStream [(''d1'', ''1.0.0''), (''d2'', ''1.0.0''), (''d3'', ''1.0.0''), (''d4'', ''1.0.0''), (''d5'', ''1.0.0''), (''d6'', ''1.0.0'')] ''http://registry/app.tgz'')],
   crashed = None\<rparr>"
  by (simp add: exec_defs env_six_def registry_six_def)

lemma six_normalize: "normalize ''1.0.0'' = Some ''1.0.0''"
  by (simp add: semver_defs)

lemma six_step3: "step env_six n
  \<lparr>downloadedPackages = {''app@1.0.0''},
   packageList = [''app@1.0.0''],
   dependencyTree = Map.empty,
   licenseWarnings = [],
   files = {''app-1.0.0.tgz''},
   requests = [MetadataGet ''app'' ''1.0.0'', ArchiveGet ''app'' ''1.0.0'' ''http://registry/app.tgz''],
   console = [],
   tasks = [Task ''app'' ''1.0.0'' (AwaitStream [(''d1'', ''1.0.0''), (''d2'', ''1.0.0''), (''d3'', ''1.0.0''), (''d4'', ''1.0.0''), (''d5'', ''1.0.0''), (''d6'', ''1.0.0'')] ''http://registry/app.tgz'')],
   crashed = None\<rparr> =
  \<lparr>downloadedPackages = {''d6@1.0.0'', ''d5@1.0.0'', ''d4@1.0.0'', ''d3@1.0.0'', ''d2@1.0.0'', ''d1@1.0.0'', ''app@1.0.0''},
   packageList = [''app@1.0.0'', ''d1@1.0.0'', ''d2@1.0.0'', ''d3@1.0.0'', ''d4@1.0.0'', ''d5@1.0.0'', ''d6@1.0.0''],
   dependencyTree = [''app@1.0.0'' \<mapsto> [''d1@1.0.0'', ''d2@1.0.0'', ''d3@1.0.0'', ''d4@1.0.0'', ''d5@1.0.0'', ''d6@1.0.0'']],
   licenseWarnings = [],
   files = {''app-1.0.0.tgz''},
   requests = [MetadataGet ''app'' ''1.0.0'', ArchiveGet ''app'' ''1.0.0'' ''http://registry/app.tgz'', MetadataGet ''d1'' ''1.0.0'', MetadataGet ''d2'' ''1.0.0'', MetadataGet ''d3'' ''1.0.0'', MetadataGet ''d4'' ''1.0.0'', MetadataGet ''d5'' ''1.0.0'', MetadataGet ''d6'' ''1.0.0''],
   console = [],
   tasks = [Task ''app'' ''1.0.0'' (AwaitBatch [1, 2, 3, 4, 5, 6] 0), Task ''d1'' ''1.0.0'' AwaitMetadata, Task ''d2'' ''1.0.0'' AwaitMetadata, Task ''d3'' ''1.0.0'' AwaitMetadata, Task ''d4'' ''1.0.0'' AwaitMetadata, Task ''d5'' ''1.0.0'' AwaitMetadata, Task ''d6'' ''1.0.0'' AwaitMetadata],
   crashed = None\<rparr>"
  by (simp add: exec_defs env_six_def registry_six_def six_normalize)

lemma six_run: "run env_six [n1, n2, n3] (start {} [(''app'', ''1.0.0'')]) =
  \<lparr>downloadedPackages = {''d6@1.0.0'', ''d5@1.0.0'', ''d4@1.0.0'', ''d3@1.0.0'', ''d2@1.0.0'', ''d1@1.0.0'', ''app@1.0.0''},
   packageList = [''app@1.0.0'', ''d1@1.0.0'', ''d2@1.0.0'', ''d3@1.0.0'', ''d4@1.0.0'', ''d5@1.0.0'', ''d6@1.0.0''],
   dependencyTree = [''app@1.0.0'' \<mapsto> [''d1@1.0.0'', ''d2@1.0.0'', ''d3@1.0.0'', ''d4@1.0.0'', ''d5@1.0.0'', ''d6@1.0.0'']],
   licenseWarnings = [],
   files = {''app-1.0.0.tgz''},
   requests = [MetadataGet ''app'' ''1.0.0'', ArchiveGet ''app'' ''1.0.0'' ''http://registry/app.tgz'', MetadataGet ''d1'' ''1.0.0'', MetadataGet ''d2'' ''1.0.0'', MetadataGet ''d3'' ''1.0.0'', MetadataGet ''d4'' ''1.0.0'', MetadataGet ''d5'' ''1.0.0'', MetadataGet ''d6'' ''1.0.0''],
   console = [],
   tasks = [Task ''app'' ''1.0.0'' (AwaitBatch [1, 2, 3, 4, 5, 6] 0), Task ''d1'' ''1.0.0'' AwaitMetadata, Task ''d2'' ''1.0.0'' AwaitMetadata, Task ''d3'' ''1.0.0'' AwaitMetadata, Task ''d4'' ''1.0.0'' AwaitMetadata, Task ''d5'' ''1.0.0'' AwaitMetadata, Task ''d6'' ''1.0.0'' AwaitMetadata],
   crashed = None\<rparr>"
  by (simp add: six_start six_step1 six_step2 six_step3)
text \<open>
  C2. The claim bounds the resolutions of one dependency list that are in flight by
  \<open>CONCURRENCY = 5\<close>. \<open>map\<close> calls \<open>downloadPackageAndDependencies\<close> for every dependency
  before the loop awaits its first slice, so for a package with six dependencies all six are
  claimed, have their metadata request issued and are unsettled at the same moment, under every
  schedule, while the parent waits for the first slice.
\<close>

theorem six_in_flight_at_once:
  "CONCURRENCY = 5
   \<and> task_stage (tasks (run env_six [n1, n2, n3] (start {} [(''app'', ''1.0.0'')])) ! 0)
       = AwaitBatch [1, 2, 3, 4, 5, 6] 0
   \<and> filter (\<lambda>p. \<not> settled (task_stage (tasks (run env_six [n1, n2, n3] (start {} [(''app'', ''1.0.0'')])) ! p)))
        [1, 2, 3, 4, 5, 6] = [1, 2, 3, 4, 5, 6]
   \<and> requests (run env_six [n1, n2, n3] (start {} [(''app'', ''1.0.0'')])) =
       [MetadataGet ''app'' ''1.0.0'', ArchiveGet ''app'' ''1.0.0'' ''http://registry/app.tgz'',
        MetadataGet ''d1'' ''1.0.0'', MetadataGet ''d2'' ''1.0.0'', MetadataGet ''d3'' ''1.0.0'',
        MetadataGet ''d4'' ''1.0.0'', MetadataGet ''d5'' ''1.0.0'', MetadataGet ''d6'' ''1.0.0'']"
  unfolding six_run by (simp add: CONCURRENCY_def)


section \<open>A dependency whose metadata cannot be fetched\<close>

lemma foo_normalize: "normalize ''1.0.0'' = Some ''1.0.0''"
  by (simp add: semver_defs)

lemma foo_start: "start {} [(''bar'', ''2.0.0'')] =
  \<lparr>downloadedPackages = {''bar@2.0.0''},
   packageList = [''bar@2.0.0''],
   dependencyTree = Map.empty,
   licenseWarnings = [],
   files = {},
   requests = [MetadataGet ''bar'' ''2.0.0''],
   console = [],
   tasks = [Task ''bar'' ''2.0.0'' AwaitMetadata],
   crashed = None\<rparr>"
  by (simp add: exec_defs)

lemma foo_step1: "step env_foo_fails n
  \<lparr>downloadedPackages = {''bar@2.0.0''},
   packageList = [''bar@2.0.0''],
   dependencyTree = Map.empty,
   licenseWarnings = [],
   files = {},
   requests = [MetadataGet ''bar'' ''2.0.0''],
   console = [],
   tasks = [Task ''bar'' ''2.0.0'' AwaitMetadata],
   crashed = None\<rparr> =
  \<lparr>downloadedPackages = {''bar@2.0.0''},
   packageList = [''bar@2.0.0''],
   dependencyTree = Map.empty,
   licenseWarnings = [],
   files = {},
   requests = [MetadataGet ''bar'' ''2.0.0'', ArchiveGet ''bar'' ''2.0.0'' ''http://registry/bar-2.0.0.tgz''],
   console = [],
   tasks = [Task ''bar'' ''2.0.0'' (AwaitResponse [(''foo'', ''1.0.0''), (''baz'', ''1.0.0'')] ''http://registry/bar-2.0.0.tgz'')],
   crashed = None\<rparr>"
  by (simp add: exec_defs env_foo_fails_def registry_foo_fails_def foo_normalize)

lemma foo_step2: "step env_foo_fails n
  \<lparr>downloadedPackages = {''bar@2.0.0''},
   packageList = [''bar@2.0.0''],
   dependencyTree = Map.empty,
   licenseWarnings = [],
   files = {},
   requests = [MetadataGet ''bar'' ''2.0.0'', ArchiveGet ''bar'' ''2.0.0'' ''http://registry/bar-2.0.0.tgz''],
   console = [],
   tasks = [Task ''bar'' ''2.0.0'' (AwaitResponse [(''foo'', ''1.0.0''), (''baz'', ''1.0.0'')] ''http://registry/bar-2.0.0.tgz'')],
   crashed = None\<rparr> =
  \<lparr>downloadedPackages = {''bar@2.0.0''},
   packageList = [''bar@2.0.0''],
   dependencyTree = Map.empty,
   licenseWarnings = [],
   files = {''bar-2.0.0.tgz''},
   requests = [MetadataGet ''bar'' ''2.0.0'', ArchiveGet ''bar'' ''2.0.0'' ''http://registry/bar-2.0.0.tgz''],
   console = [],
   tasks = [Task ''bar'' ''2.0.0'' (AwaitStream [(''foo'', ''1.0.0''), (''baz'', ''1.0.0'')] ''http://registry/bar-2.0.0.tgz'')],
   crashed = None\<rparr>"
  by (simp add: exec_defs env_foo_fails_def registry_foo_fails_def foo_normalize)

lemma foo_step3: "step env_foo_fails n
  \<lparr>downloadedPackages = {''bar@2.0.0''},
   packageList = [''bar@2.0.0''],
   dependencyTree = Map.empty,
   licenseWarnings = [],
   files = {''bar-2.0.0.tgz''},
   requests = [MetadataGet ''bar'' ''2.0.0'', ArchiveGet ''bar'' ''2.0.0'' ''http://registry/bar-2.0.0.tgz''],
   console = [],
   tasks = [Task ''bar'' ''2.0.0'' (AwaitStream [(''foo'', ''1.0.0''), (''baz'', ''1.0.0'')] ''http://registry/bar-2.0.0.tgz'')],
   crashed = None\<rparr> =
  \<lparr>downloadedPackages = {''baz@1.0.0'', ''foo@1.0.0'', ''bar@2.0.0''},
   packageList = [''bar@2.0.0'', ''foo@1.0.0'', ''baz@1.0.0''],
   dependencyTree = [''bar@2.0.0'' \<mapsto> [''foo@1.0.0'', ''baz@1.0.0'']],
   licenseWarnings = [],
   files = {''bar-2.0.0.tgz''},
   requests = [MetadataGet ''bar'' ''2.0.0'', ArchiveGet ''bar'' ''2.0.0'' ''http://registry/bar-2.0.0.tgz'', MetadataGet ''foo'' ''1.0.0'', MetadataGet ''baz'' ''1.0.0''],
   console = [],
   tasks = [Task ''bar'' ''2.0.0'' (AwaitBatch [1, 2] 0), Task ''foo'' ''1.0.0'' AwaitMetadata, Task ''baz'' ''1.0.0'' AwaitMetadata],
   crashed = None\<rparr>"
  by (simp add: exec_defs env_foo_fails_def registry_foo_fails_def foo_normalize)

lemma foo_fails_0: "n mod Suc (Suc 0) = 0 \<Longrightarrow> step env_foo_fails n
  \<lparr>downloadedPackages = {''baz@1.0.0'', ''foo@1.0.0'', ''bar@2.0.0''},
   packageList = [''bar@2.0.0'', ''foo@1.0.0'', ''baz@1.0.0''],
   dependencyTree = [''bar@2.0.0'' \<mapsto> [''foo@1.0.0'', ''baz@1.0.0'']],
   licenseWarnings = [],
   files = {''bar-2.0.0.tgz''},
   requests = [MetadataGet ''bar'' ''2.0.0'', ArchiveGet ''bar'' ''2.0.0'' ''http://registry/bar-2.0.0.tgz'', MetadataGet ''foo'' ''1.0.0'', MetadataGet ''baz'' ''1.0.0''],
   console = [],
   tasks = [Task ''bar'' ''2.0.0'' (AwaitBatch [1, 2] 0), Task ''foo'' ''1.0.0'' AwaitMetadata, Task ''baz'' ''1.0.0'' AwaitMetadata],
   crashed = None\<rparr> =
  \<lparr>downloadedPackages = {''baz@1.0.0'', ''foo@1.0.0'', ''bar@2.0.0''},
   packageList = [''bar@2.0.0'', ''foo@1.0.0'', ''baz@1.0.0''],
   dependencyTree = [''bar@2.0.0'' \<mapsto> [''foo@1.0.0'', ''baz@1.0.0'']],
   licenseWarnings = [],
   files = {''bar-2.0.0.tgz''},
   requests = [MetadataGet ''bar'' ''2.0.0'', ArchiveGet ''bar'' ''2.0.0'' ''http://registry/bar-2.0.0.tgz'', MetadataGet ''foo'' ''1.0.0'', MetadataGet ''baz'' ''1.0.0''],
   console = [''Error downloading foo@1.0.0: Request failed with status code 404''],
   tasks = [Task ''bar'' ''2.0.0'' (AwaitBatch [1, 2] 0), Task ''foo'' ''1.0.0'' Fulfilled, Task ''baz'' ''1.0.0'' AwaitMetadata],
   crashed = None\<rparr>"
  by (simp add: exec_defs env_foo_fails_def registry_foo_fails_def foo_normalize)

lemma foo_waits_0: "n mod Suc (Suc 0) = Suc 0 \<Longrightarrow> step env_foo_fails n
  \<lparr>downloadedPackages = {''baz@1.0.0'', ''foo@1.0.0'', ''bar@2.0.0''},
   packageList = [''bar@2.0.0'', ''foo@1.0.0'', ''baz@1.0.0''],
   dependencyTree = [''bar@2.0.0'' \<mapsto> [''foo@1.0.0'', ''baz@1.0.0'']],
   licenseWarnings = [],
   files = {''bar-2.0.0.tgz''},
   requests = [MetadataGet ''bar'' ''2.0.0'', ArchiveGet ''bar'' ''2.0.0'' ''http://registry/bar-2.0.0.tgz'', MetadataGet ''foo'' ''1.0.0'', MetadataGet ''baz'' ''1.0.0''],
   console = [],
   tasks = [Task ''bar'' ''2.0.0'' (AwaitBatch [1, 2] 0), Task ''foo'' ''1.0.0'' AwaitMetadata, Task ''baz'' ''1.0.0'' AwaitMetadata],
   crashed = None\<rparr> =
  \<lparr>downloadedPackages = {''baz@1.0.0'', ''foo@1.0.0'', ''bar@2.0.0''},
   packageList = [''bar@2.0.0'', ''foo@1.0.0'', ''baz@1.0.0''],
   dependencyTree = [''bar@2.0.0'' \<mapsto> [''foo@1.0.0'', ''baz@1.0.0'']],
   licenseWarnings = [],
   files = {''bar-2.0.0.tgz''},
   requests = [MetadataGet ''bar'' ''2.0.0'', ArchiveGet ''bar'' ''2.0.0'' ''http://registry/bar-2.0.0.tgz'', MetadataGet ''foo'' ''1.0.0'', MetadataGet ''baz'' ''1.0.0'', ArchiveGet ''baz'' ''1.0.0'' ''http://registry/baz-1.0.0.tgz''],
   console = [],
   tasks = [Task ''bar'' ''2.0.0'' (AwaitBatch [1, 2] 0), Task ''foo'' ''1.0.0'' AwaitMetadata, Task ''baz'' ''1.0.0'' (AwaitResponse [] ''http://registry/baz-1.0.0.tgz'')],
   crashed = None\<rparr>"
  by (simp add: exec_defs env_foo_fails_def registry_foo_fails_def foo_normalize)

lemma foo_fails_1: "n mod Suc (Suc 0) = 0 \<Longrightarrow> step env_foo_fails n
  \<lparr>downloadedPackages = {''baz@1.0.0'', ''foo@1.0.0'', ''bar@2.0.0''},
   packageList = [''bar@2.0.0'', ''foo@1.0.0'', ''baz@1.0.0''],
   dependencyTree = [''bar@2.0.0'' \<mapsto> [''foo@1.0.0'', ''baz@1.0.0'']],
   licenseWarnings = [],
   files = {''bar-2.0.0.tgz''},
   requests = [MetadataGet ''bar'' ''2.0.0'', ArchiveGet ''bar'' ''2.0.0'' ''http://registry/bar-2.0.0.tgz'', MetadataGet ''foo'' ''1.0.0'', MetadataGet ''baz'' ''1.0.0'', ArchiveGet ''baz'' ''1.0.0'' ''http://registry/baz-1.0.0.tgz''],
   console = [],
   tasks = [Task ''bar'' ''2.0.0'' (AwaitBatch [1, 2] 0), Task ''foo'' ''1.0.0'' AwaitMetadata, Task ''baz'' ''1.0.0'' (AwaitResponse [] ''http://registry/baz-1.0.0.tgz'')],
   crashed = None\<rparr> =
  \<lparr>downloadedPackages = {''baz@1.0.0'', ''foo@1.0.0'', ''bar@2.0.0''},
   packageList = [''bar@2.0.0'', ''foo@1.0.0'', ''baz@1.0.0''],
   dependencyTree = [''bar@2.0.0'' \<mapsto> [''foo@1.0.0'', ''baz@1.0.0'']],
   licenseWarnings = [],
   files = {''bar-2.0.0.tgz''},
   requests = [MetadataGet ''bar'' ''2.0.0'', ArchiveGet ''bar'' ''2.0.0'' ''http://registry/bar-2.0.0.tgz'', MetadataGet ''foo'' ''1.0.0'', MetadataGet ''baz'' ''1.0.0'', ArchiveGet ''baz'' ''1.0.0'' ''http://registry/baz-1.0.0.tgz''],
   console = [''Error downloading foo@1.0.0: Request failed with status code 404''],
   tasks = [Task ''bar'' ''2.0.0'' (AwaitBatch [1, 2] 0), Task ''foo'' ''1.0.0'' Fulfilled, Task ''baz'' ''1.0.0'' (AwaitResponse [] ''http://registry/baz-1.0.0.tgz'')],
   crashed = None\<rparr>"
  by (simp add: exec_defs env_foo_fails_def registry_foo_fails_def foo_normalize)

lemma foo_waits_1: "n mod Suc (Suc 0) = Suc 0 \<Longrightarrow> step env_foo_fails n
  \<lparr>downloadedPackages = {''baz@1.0.0'', ''foo@1.0.0'', ''bar@2.0.0''},
   packageList = [''bar@2.0.0'', ''foo@1.0.0'', ''baz@1.0.0''],
   dependencyTree = [''bar@2.0.0'' \<mapsto> [''foo@1.0.0'', ''baz@1.0.0'']],
   licenseWarnings = [],
   files = {''bar-2.0.0.tgz''},
   requests = [MetadataGet ''bar'' ''2.0.0'', ArchiveGet ''bar'' ''2.0.0'' ''http://registry/bar-2.0.0.tgz'', MetadataGet ''foo'' ''1.0.0'', MetadataGet ''baz'' ''1.0.0'', ArchiveGet ''baz'' ''1.0.0'' ''http://registry/baz-1.0.0.tgz''],
   console = [],
   tasks = [Task ''bar'' ''2.0.0'' (AwaitBatch [1, 2] 0), Task ''foo'' ''1.0.0'' AwaitMetadata, Task ''baz'' ''1.0.0'' (AwaitResponse [] ''http://registry/baz-1.0.0.tgz'')],
   crashed = None\<rparr> =
  \<lparr>downloadedPackages = {''baz@1.0.0'', ''foo@1.0.0'', ''bar@2.0.0''},
   packageList = [''bar@2.0.0'', ''foo@1.0.0'', ''baz@1.0.0''],
   dependencyTree = [''bar@2.0.0'' \<mapsto> [''foo@1.0.0'', ''baz@1.0.0'']],
   licenseWarnings = [],
   files = {''baz-1.0.0.tgz'', ''bar-2.0.0.tgz''},
   requests = [MetadataGet ''bar'' ''2.0.0'', ArchiveGet ''bar'' ''2.0.0'' ''http://registry/bar-2.0.0.tgz'', MetadataGet ''foo'' ''1.0.0'', MetadataGet ''baz'' ''1.0.0'', ArchiveGet ''baz'' ''1.0.0'' ''http://registry/baz-1.0.0.tgz''],
   console = [],
   tasks = [Task ''bar'' ''2.0.0'' (AwaitBatch [1, 2] 0), Task ''foo'' ''1.0.0'' AwaitMetadata, Task ''baz'' ''1.0.0'' (AwaitStream [] ''http://registry/baz-1.0.0.tgz'')],
   crashed = None\<rparr>"
  by (simp add: exec_defs env_foo_fails_def registry_foo_fails_def foo_normalize)

lemma foo_fails_2: "n mod Suc (Suc 0) = 0 \<Longrightarrow> step env_foo_fails n
  \<lparr>downloadedPackages = {''baz@1.0.0'', ''foo@1.0.0'', ''bar@2.0.0''},
   packageList = [''bar@2.0.0'', ''foo@1.0.0'', ''baz@1.0.0''],
   dependencyTree = [''bar@2.0.0'' \<mapsto> [''foo@1.0.0'', ''baz@1.0.0'']],
   licenseWarnings = [],
   files = {''baz-1.0.0.tgz'', ''bar-2.0.0.tgz''},
   requests = [MetadataGet ''bar'' ''2.0.0'', ArchiveGet ''bar'' ''2.0.0'' ''http://registry/bar-2.0.0.tgz'', MetadataGet ''foo'' ''1.0.0'', MetadataGet ''baz'' ''1.0.0'', ArchiveGet ''baz'' ''1.0.0'' ''http://registry/baz-1.0.0.tgz''],
   console = [],
   tasks = [Task ''bar'' ''2.0.0'' (AwaitBatch [1, 2] 0), Task ''foo'' ''1.0.0'' AwaitMetadata, Task ''baz'' ''1.0.0'' (AwaitStream [] ''http://registry/baz-1.0.0.tgz'')],
   crashed = None\<rparr> =
  \<lparr>downloadedPackages = {''baz@1.0.0'', ''foo@1.0.0'', ''bar@2.0.0''},
   packageList = [''bar@2.0.0'', ''foo@1.0.0'', ''baz@1.0.0''],
   dependencyTree = [''bar@2.0.0'' \<mapsto> [''foo@1.0.0'', ''baz@1.0.0'']],
   licenseWarnings = [],
   files = {''baz-1.0.0.tgz'', ''bar-2.0.0.tgz''},
   requests = [MetadataGet ''bar'' ''2.0.0'', ArchiveGet ''bar'' ''2.0.0'' ''http://registry/bar-2.0.0.tgz'', MetadataGet ''foo'' ''1.0.0'', MetadataGet ''baz'' ''1.0.0'', ArchiveGet ''baz'' ''1.0.0'' ''http://registry/baz-1.0.0.tgz''],
   console = [''Error downloading foo@1.0.0: Request failed with status code 404''],
   tasks = [Task ''bar'' ''2.0.0'' (AwaitBatch [1, 2] 0), Task ''foo'' ''1.0.0'' Fulfilled, Task ''baz'' ''1.0.0'' (AwaitStream [] ''http://registry/baz-1.0.0.tgz'')],
   crashed = None\<rparr>"
  by (simp add: exec_defs env_foo_fails_def registry_foo_fails_def foo_normalize)

lemma foo_waits_2: "n mod Suc (Suc 0) = Suc 0 \<Longrightarrow> step env_foo_fails n
  \<lparr>downloadedPackages = {''baz@1.0.0'', ''foo@1.0.0'', ''bar@2.0.0''},
   packageList = [''bar@2.0.0'', ''foo@1.0.0'', ''baz@1.0.0''],
   dependencyTree = [''bar@2.0.0'' \<mapsto> [''foo@1.0.0'', ''baz@1.0.0'']],
   licenseWarnings = [],
   files = {''baz-1.0.0.tgz'', ''bar-2.0.0.tgz''},
   requests = [MetadataGet ''bar'' ''2.0.0'', ArchiveGet ''bar'' ''2.0.0'' ''http://registry/bar-2.0.0.tgz'', MetadataGet ''foo'' ''1.0.0'', MetadataGet ''baz'' ''1.0.0'', ArchiveGet ''baz'' ''1.0.0'' ''http://registry/baz-1.0.0.tgz''],
   console = [],
   tasks = [Task ''bar'' ''2.0.0'' (AwaitBatch [1, 2] 0), Task ''foo'' ''1.0.0'' AwaitMetadata, Task ''baz'' ''1.0.0'' (AwaitStream [] ''http://registry/baz-1.0.0.tgz'')],
   crashed = None\<rparr> =
  \<lparr>downloadedPackages = {''baz@1.0.0'', ''foo@1.0.0'', ''bar@2.0.0''},
   packageList = [''bar@2.0.0'', ''foo@1.0.0'', ''baz@1.0.0''],
   dependencyTree = [''bar@2.0.0'' \<mapsto> [''foo@1.0.0'', ''baz@1.0.0'']],
   licenseWarnings = [],
   files = {''baz-1.0.0.tgz'', ''bar-2.0.0.tgz''},
   requests = [MetadataGet ''bar'' ''2.0.0'', ArchiveGet ''bar'' ''2.0.0'' ''http://registry/bar-2.0.0.tgz'', MetadataGet ''foo'' ''1.0.0'', MetadataGet ''baz'' ''1.0.0'', ArchiveGet ''baz'' ''1.0.0'' ''http://registry/baz-1.0.0.tgz''],
   console = [],
   tasks = [Task ''bar'' ''2.0.0'' (AwaitBatch [1, 2] 0), Task ''foo'' ''1.0.0'' AwaitMetadata, Task ''baz'' ''1.0.0'' Fulfilled],
   crashed = None\<rparr>"
  by (simp add: exec_defs env_foo_fails_def registry_foo_fails_def foo_normalize)

lemma foo_fails_3: "step env_foo_fails n
  \<lparr>downloadedPackages = {''baz@1.0.0'', ''foo@1.0.0'', ''bar@2.0.0''},
   packageList = [''bar@2.0.0'', ''foo@1.0.0'', ''baz@1.0.0''],
   dependencyTree = [''bar@2.0.0'' \<mapsto> [''foo@1.0.0'', ''baz@1.0.0'']],
   licenseWarnings = [],
   files = {''baz-1.0.0.tgz'', ''bar-2.0.0.tgz''},
   requests = [MetadataGet ''bar'' ''2.0.0'', ArchiveGet ''bar'' ''2.0.0'' ''http://registry/bar-2.0.0.tgz'', MetadataGet ''foo'' ''1.0.0'', MetadataGet ''baz'' ''1.0.0'', ArchiveGet ''baz'' ''1.0.0'' ''http://registry/baz-1.0.0.tgz''],
   console = [],
   tasks = [Task ''bar'' ''2.0.0'' (AwaitBatch [1, 2] 0), Task ''foo'' ''1.0.0'' AwaitMetadata, Task ''baz'' ''1.0.0'' Fulfilled],
   crashed = None\<rparr> =
  \<lparr>downloadedPackages = {''baz@1.0.0'', ''foo@1.0.0'', ''bar@2.0.0''},
   packageList = [''bar@2.0.0'', ''foo@1.0.0'', ''baz@1.0.0''],
   dependencyTree = [''bar@2.0.0'' \<mapsto> [''foo@1.0.0'', ''baz@1.0.0'']],
   licenseWarnings = [],
   files = {''baz-1.0.0.tgz'', ''bar-2.0.0.tgz''},
   requests = [MetadataGet ''bar'' ''2.0.0'', ArchiveGet ''bar'' ''2.0.0'' ''http://registry/bar-2.0.0.tgz'', MetadataGet ''foo'' ''1.0.0'', MetadataGet ''baz'' ''1.0.0'', ArchiveGet ''baz'' ''1.0.0'' ''http://registry/baz-1.0.0.tgz''],
   console = [''Error downloading foo@1.0.0: Request failed with status code 404''],
   tasks = [Task ''bar'' ''2.0.0'' (AwaitBatch [1, 2] 0), Task ''foo'' ''1.0.0'' Fulfilled, Task ''baz'' ''1.0.0'' Fulfilled],
   crashed = None\<rparr>"
  by (simp add: exec_defs env_foo_fails_def registry_foo_fails_def foo_normalize)

lemma foo_failed_0: "step env_foo_fails n
  \<lparr>downloadedPackages = {''baz@1.0.0'', ''foo@1.0.0'', ''bar@2.0.0''},
   packageList = [''bar@2.0.0'', ''foo@1.0.0'', ''baz@1.0.0''],
   dependencyTree = [''bar@2.0.0'' \<mapsto> [''foo@1.0.0'', ''baz@1.0.0'']],
   licenseWarnings = [],
   files = {''bar-2.0.0.tgz''},
   requests = [MetadataGet ''bar'' ''2.0.0'', ArchiveGet ''bar'' ''2.0.0'' ''http://registry/bar-2.0.0.tgz'', MetadataGet ''foo'' ''1.0.0'', MetadataGet ''baz'' ''1.0.0''],
   console = [''Error downloading foo@1.0.0: Request failed with status code 404''],
   tasks = [Task ''bar'' ''2.0.0'' (AwaitBatch [1, 2] 0), Task ''foo'' ''1.0.0'' Fulfilled, Task ''baz'' ''1.0.0'' AwaitMetadata],
   crashed = None\<rparr> =
  \<lparr>downloadedPackages = {''baz@1.0.0'', ''foo@1.0.0'', ''bar@2.0.0''},
   packageList = [''bar@2.0.0'', ''foo@1.0.0'', ''baz@1.0.0''],
   dependencyTree = [''bar@2.0.0'' \<mapsto> [''foo@1.0.0'', ''baz@1.0.0'']],
   licenseWarnings = [],
   files = {''bar-2.0.0.tgz''},
   requests = [MetadataGet ''bar'' ''2.0.0'', ArchiveGet ''bar'' ''2.0.0'' ''http://registry/bar-2.0.0.tgz'', MetadataGet ''foo'' ''1.0.0'', MetadataGet ''baz'' ''1.0.0'', ArchiveGet ''baz'' ''1.0.0'' ''http://registry/baz-1.0.0.tgz''],
   console = [''Error downloading foo@1.0.0: Request failed with status code 404''],
   tasks = [Task ''bar'' ''2.0.0'' (AwaitBatch [1, 2] 0), Task ''foo'' ''1.0.0'' Fulfilled, Task ''baz'' ''1.0.0'' (AwaitResponse [] ''http://registry/baz-1.0.0.tgz'')],
   crashed = None\<rparr>"
  by (simp add: exec_defs env_foo_fails_def registry_foo_fails_def foo_normalize)

lemma foo_failed_1: "step env_foo_fails n
  \<lparr>downloadedPackages = {''baz@1.0.0'', ''foo@1.0.0'', ''bar@2.0.0''},
   packageList = [''bar@2.0.0'', ''foo@1.0.0'', ''baz@1.0.0''],
   dependencyTree = [''bar@2.0.0'' \<mapsto> [''foo@1.0.0'', ''baz@1.0.0'']],
   licenseWarnings = [],
   files = {''bar-2.0.0.tgz''},
   requests = [MetadataGet ''bar'' ''2.0.0'', ArchiveGet ''bar'' ''2.0.0'' ''http://registry/bar-2.0.0.tgz'', MetadataGet ''foo'' ''1.0.0'', MetadataGet ''baz'' ''1.0.0'', ArchiveGet ''baz'' ''1.0.0'' ''http://registry/baz-1.0.0.tgz''],
   console = [''Error downloading foo@1.0.0: Request failed with status code 404''],
   tasks = [Task ''bar'' ''2.0.0'' (AwaitBatch [1, 2] 0), Task ''foo'' ''1.0.0'' Fulfilled, Task ''baz'' ''1.0.0'' (AwaitResponse [] ''http://registry/baz-1.0.0.tgz'')],
   crashed = None\<rparr> =
  \<lparr>downloadedPackages = {''baz@1.0.0'', ''foo@1.0.0'', ''bar@2.0.0''},
   packageList = [''bar@2.0.0'', ''foo@1.0.0'', ''baz@1.0.0''],
   dependencyTree = [''bar@2.0.0'' \<mapsto> [''foo@1.0.0'', ''baz@1.0.0'']],
   licenseWarnings = [],
   files = {''baz-1.0.0.tgz'', ''bar-2.0.0.tgz''},
   requests = [MetadataGet ''bar'' ''2.0.0'', ArchiveGet ''bar'' ''2.0.0'' ''http://registry/bar-2.0.0.tgz'', MetadataGet ''foo'' ''1.0.0'', MetadataGet ''baz'' ''1.0.0'', ArchiveGet ''baz'' ''1.0.0'' ''http://registry/baz-1.0.0.tgz''],
   console = [''Error downloading foo@1.0.0: Request failed with status code 404''],
   tasks = [Task ''bar'' ''2.0.0'' (AwaitBatch [1, 2] 0), Task ''foo'' ''1.0.0'' Fulfilled, Task ''baz'' ''1.0.0'' (AwaitStream [] ''http://registry/baz-1.0.0.tgz'')],
   crashed = None\<rparr>"
  by (simp add: exec_defs env_foo_fails_def registry_foo_fails_def foo_normalize)

lemma foo_failed_2: "step env_foo_fails n
  \<lparr>downloadedPackages = {''baz@1.0.0'', ''foo@1.0.0'', ''bar@2.0.0''},
   packageList = [''bar@2.0.0'', ''foo@1.0.0'', ''baz@1.0.0''],
   dependencyTree = [''bar@2.0.0'' \<mapsto> [''foo@1.0.0'', ''baz@1.0.0'']],
   licenseWarnings = [],
   files = {''baz-1.0.0.tgz'', ''bar-2.0.0.tgz''},
   requests = [MetadataGet ''bar'' ''2.0.0'', ArchiveGet ''bar'' ''2.0.0'' ''http://registry/bar-2.0.0.tgz'', MetadataGet ''foo'' ''1.0.0'', MetadataGet ''baz'' ''1.0.0'', ArchiveGet ''baz'' ''1.0.0'' ''http://registry/baz-1.0.0.tgz''],
   console = [''Error downloading foo@1.0.0: Request failed with status code 404''],
   tasks = [Task ''bar'' ''2.0.0'' (AwaitBatch [1, 2] 0), Task ''foo'' ''1.0.0'' Fulfilled, Task ''baz'' ''1.0.0'' (AwaitStream [] ''http://registry/baz-1.0.0.tgz'')],
   crashed = None\<rparr> =
  \<lparr>downloadedPackages = {''baz@1.0.0'', ''foo@1.0.0'', ''bar@2.0.0''},
   packageList = [''bar@2.0.0'', ''foo@1.0.0'', ''baz@1.0.0''],
   dependencyTree = [''bar@2.0.0'' \<mapsto> [''foo@1.0.0'', ''baz@1.0.0'']],
   licenseWarnings = [],
   files = {''baz-1.0.0.tgz'', ''bar-2.0.0.tgz''},
   requests = [MetadataGet ''bar'' ''2.0.0'', ArchiveGet ''bar'' ''2.0.0'' ''http://registry/bar-2.0.0.tgz'', MetadataGet ''foo'' ''1.0.0'', MetadataGet ''baz'' ''1.0.0'', ArchiveGet ''baz'' ''1.0.0'' ''http://registry/baz-1.0.0.tgz''],
   console = [''Error downloading foo@1.0.0: Request failed with status code 404''],
   tasks = [Task ''bar'' ''2.0.0'' (AwaitBatch [1, 2] 0), Task ''foo'' ''1.0.0'' Fulfilled, Task ''baz'' ''1.0.0'' Fulfilled],
   crashed = None\<rparr>"
  by (simp add: exec_defs env_foo_fails_def registry_foo_fails_def foo_normalize)

lemma foo_failed_3: "step env_foo_fails n
  \<lparr>downloadedPackages = {''baz@1.0.0'', ''foo@1.0.0'', ''bar@2.0.0''},
   packageList = [''bar@2.0.0'', ''foo@1.0.0'', ''baz@1.0.0''],
   dependencyTree = [''bar@2.0.0'' \<mapsto> [''foo@1.0.0'', ''baz@1.0.0'']],
   licenseWarnings = [],
   files = {''baz-1.0.0.tgz'', ''bar-2.0.0.tgz''},
   requests = [MetadataGet ''bar'' ''2.0.0'', ArchiveGet ''bar'' ''2.0.0'' ''http://registry/bar-2.0.0.tgz'', MetadataGet ''foo'' ''1.0.0'', MetadataGet ''baz'' ''1.0.0'', ArchiveGet ''baz'' ''1.0.0'' ''http://registry/baz-1.0.0.tgz''],
   console = [''Error downloading foo@1.0.0: Request failed with status code 404''],
   tasks = [Task ''bar'' ''2.0.0'' (AwaitBatch [1, 2] 0), Task ''foo'' ''1.0.0'' Fulfilled, Task ''baz'' ''1.0.0'' Fulfilled],
   crashed = None\<rparr> =
  \<lparr>downloadedPackages = {''baz@1.0.0'', ''foo@1.0.0'', ''bar@2.0.0''},
   packageList = [''bar@2.0.0'', ''foo@1.0.0'', ''baz@1.0.0''],
   dependencyTree = [''bar@2.0.0'' \<mapsto> [''foo@1.0.0'', ''baz@1.0.0'']],
   licenseWarnings = [],
   files = {''baz-1.0.0.tgz'', ''bar-2.0.0.tgz''},
   requests = [MetadataGet ''bar'' ''2.0.0'', ArchiveGet ''bar'' ''2.0.0'' ''http://registry/bar-2.0.0.tgz'', MetadataGet ''foo'' ''1.0.0'', MetadataGet ''baz'' ''1.0.0'', ArchiveGet ''baz'' ''1.0.0'' ''http://registry/baz-1.0.0.tgz''],
   console = [''Error downloading foo@1.0.0: Request failed with status code 404''],
   tasks = [Task ''bar'' ''2.0.0'' Fulfilled, Task ''foo'' ''1.0.0'' Fulfilled, Task ''baz'' ''1.0.0'' Fulfilled],
   crashed = None\<rparr>"
  by (simp add: exec_defs env_foo_fails_def registry_foo_fails_def foo_normalize)

lemma foo_final: "step env_foo_fails n
  \<lparr>downloadedPackages = {''baz@1.0.0'', ''foo@1.0.0'', ''bar@2.0.0''},
   packageList = [''bar@2.0.0'', ''foo@1.0.0'', ''baz@1.0.0''],
   dependencyTree = [''bar@2.0.0'' \<mapsto> [''foo@1.0.0'', ''baz@1.0.0'']],
   licenseWarnings = [],
   files = {''baz-1.0.0.tgz'', ''bar-2.0.0.tgz''},
   requests = [MetadataGet ''bar'' ''2.0.0'', ArchiveGet ''bar'' ''2.0.0'' ''http://registry/bar-2.0.0.tgz'', MetadataGet ''foo'' ''1.0.0'', MetadataGet ''baz'' ''1.0.0'', ArchiveGet ''baz'' ''1.0.0'' ''http://registry/baz-1.0.0.tgz''],
   console = [''Error downloading foo@1.0.0: Request failed with status code 404''],
   tasks = [Task ''bar'' ''2.0.0'' Fulfilled, Task ''foo'' ''1.0.0'' Fulfilled, Task ''baz'' ''1.0.0'' Fulfilled],
   crashed = None\<rparr> =
  \<lparr>downloadedPackages = {''baz@1.0.0'', ''foo@1.0.0'', ''bar@2.0.0''},
   packageList = [''bar@2.0.0'', ''foo@1.0.0'', ''baz@1.0.0''],
   dependencyTree = [''bar@2.0.0'' \<mapsto> [''foo@1.0.0'', ''baz@1.0.0'']],
   licenseWarnings = [],
   files = {''baz-1.0.0.tgz'', ''bar-2.0.0.tgz''},
   requests = [MetadataGet ''bar'' ''2.0.0'', ArchiveGet ''bar'' ''2.0.0'' ''http://registry/bar-2.0.0.tgz'', MetadataGet ''foo'' ''1.0.0'', MetadataGet ''baz'' ''1.0.0'', ArchiveGet ''baz'' ''1.0.0'' ''http://registry/baz-1.0.0.tgz''],
   console = [''Error downloading foo@1.0.0: Request failed with status code 404''],
   tasks = [Task ''bar'' ''2.0.0'' Fulfilled, Task ''foo'' ''1.0.0'' Fulfilled, Task ''baz'' ''1.0.0'' Fulfilled],
   crashed = None\<rparr>"
  by (simp add: exec_defs env_foo_fails_def registry_foo_fails_def foo_normalize)

lemma foo_settled: "run env_foo_fails ns
  \<lparr>downloadedPackages = {''baz@1.0.0'', ''foo@1.0.0'', ''bar@2.0.0''},
   packageList = [''bar@2.0.0'', ''foo@1.0.0'', ''baz@1.0.0''],
   dependencyTree = [''bar@2.0.0'' \<mapsto> [''foo@1.0.0'', ''baz@1.0.0'']],
   licenseWarnings = [],
   files = {''baz-1.0.0.tgz'', ''bar-2.0.0.tgz''},
   requests = [MetadataGet ''bar'' ''2.0.0'', ArchiveGet ''bar'' ''2.0.0'' ''http://registry/bar-2.0.0.tgz'', MetadataGet ''foo'' ''1.0.0'', MetadataGet ''baz'' ''1.0.0'', ArchiveGet ''baz'' ''1.0.0'' ''http://registry/baz-1.0.0.tgz''],
   console = [''Error downloading foo@1.0.0: Request failed with status code 404''],
   tasks = [Task ''bar'' ''2.0.0'' Fulfilled, Task ''foo'' ''1.0.0'' Fulfilled, Task ''baz'' ''1.0.0'' Fulfilled],
   crashed = None\<rparr> =
  \<lparr>downloadedPackages = {''baz@1.0.0'', ''foo@1.0.0'', ''bar@2.0.0''},
   packageList = [''bar@2.0.0'', ''foo@1.0.0'', ''baz@1.0.0''],
   dependencyTree = [''bar@2.0.0'' \<mapsto> [''foo@1.0.0'', ''baz@1.0.0'']],
   licenseWarnings = [],
   files = {''baz-1.0.0.tgz'', ''bar-2.0.0.tgz''},
   requests = [MetadataGet ''bar'' ''2.0.0'', ArchiveGet ''bar'' ''2.0.0'' ''http://registry/bar-2.0.0.tgz'', MetadataGet ''foo'' ''1.0.0'', MetadataGet ''baz'' ''1.0.0'', ArchiveGet ''baz'' ''1.0.0'' ''http://registry/baz-1.0.0.tgz''],
   console = [''Error downloading foo@1.0.0: Request failed with status code 404''],
   tasks = [Task ''bar'' ''2.0.0'' Fulfilled, Task ''foo'' ''1.0.0'' Fulfilled, Task ''baz'' ''1.0.0'' Fulfilled],
   crashed = None\<rparr>"
  by (induction ns) (simp_all only: run.simps foo_final)

lemma mod_Suc_Suc_0_odd: "n mod Suc (Suc 0) \<noteq> 0 \<Longrightarrow> n mod Suc (Suc 0) = Suc 0"
  by arith

lemma foo_children: "run env_foo_fails [a, b, c, d, e]
  \<lparr>downloadedPackages = {''baz@1.0.0'', ''foo@1.0.0'', ''bar@2.0.0''},
   packageList = [''bar@2.0.0'', ''foo@1.0.0'', ''baz@1.0.0''],
   dependencyTree = [''bar@2.0.0'' \<mapsto> [''foo@1.0.0'', ''baz@1.0.0'']],
   licenseWarnings = [],
   files = {''bar-2.0.0.tgz''},
   requests = [MetadataGet ''bar'' ''2.0.0'', ArchiveGet ''bar'' ''2.0.0'' ''http://registry/bar-2.0.0.tgz'', MetadataGet ''foo'' ''1.0.0'', MetadataGet ''baz'' ''1.0.0''],
   console = [],
   tasks = [Task ''bar'' ''2.0.0'' (AwaitBatch [1, 2] 0), Task ''foo'' ''1.0.0'' AwaitMetadata, Task ''baz'' ''1.0.0'' AwaitMetadata],
   crashed = None\<rparr> =
  \<lparr>downloadedPackages = {''baz@1.0.0'', ''foo@1.0.0'', ''bar@2.0.0''},
   packageList = [''bar@2.0.0'', ''foo@1.0.0'', ''baz@1.0.0''],
   dependencyTree = [''bar@2.0.0'' \<mapsto> [''foo@1.0.0'', ''baz@1.0.0'']],
   licenseWarnings = [],
   files = {''baz-1.0.0.tgz'', ''bar-2.0.0.tgz''},
   requests = [MetadataGet ''bar'' ''2.0.0'', ArchiveGet ''bar'' ''2.0.0'' ''http://registry/bar-2.0.0.tgz'', MetadataGet ''foo'' ''1.0.0'', MetadataGet ''baz'' ''1.0.0'', ArchiveGet ''baz'' ''1.0.0'' ''http://registry/baz-1.0.0.tgz''],
   console = [''Error downloading foo@1.0.0: Request failed with status code 404''],
   tasks = [Task ''bar'' ''2.0.0'' Fulfilled, Task ''foo'' ''1.0.0'' Fulfilled, Task ''baz'' ''1.0.0'' Fulfilled],
   crashed = None\<rparr>"
proof (cases "a mod Suc (Suc 0) = 0")
  case f0: True
  show ?thesis
    by (simp only: run.simps foo_fails_0 [OF f0] foo_failed_0 foo_failed_1 foo_failed_2 foo_failed_3)
next
  case False
  note a1 = mod_Suc_Suc_0_odd [OF False]
  show ?thesis
  proof (cases "b mod Suc (Suc 0) = 0")
    case f1: True
    show ?thesis
      by (simp only: run.simps foo_waits_0 [OF a1] foo_fails_1 [OF f1] foo_failed_1 foo_failed_2 foo_failed_3)
  next
    case False
    note b1 = mod_Suc_Suc_0_odd [OF False]
    show ?thesis
    proof (cases "c mod Suc (Suc 0) = 0")
      case f2: True
      show ?thesis
        by (simp only: run.simps foo_waits_0 [OF a1] foo_waits_1 [OF b1] foo_fails_2 [OF f2]
            foo_failed_2 foo_failed_3)
    next
      case False
      note c1 = mod_Suc_Suc_0_odd [OF False]
      show ?thesis
        by (simp only: run.simps foo_waits_0 [OF a1] foo_waits_1 [OF b1] foo_waits_2 [OF c1]
            foo_fails_3 foo_failed_3)
    qed
  qed
qed

lemma foo_launched: "run env_foo_fails [n1, n2, n3] (start {} [(''bar'', ''2.0.0'')]) =
  \<lparr>downloadedPackages = {''baz@1.0.0'', ''foo@1.0.0'', ''bar@2.0.0''},
   packageList = [''bar@2.0.0'', ''foo@1.0.0'', ''baz@1.0.0''],
   dependencyTree = [''bar@2.0.0'' \<mapsto> [''foo@1.0.0'', ''baz@1.0.0'']],
   licenseWarnings = [],
   files = {''bar-2.0.0.tgz''},
   requests = [MetadataGet ''bar'' ''2.0.0'', ArchiveGet ''bar'' ''2.0.0'' ''http://registry/bar-2.0.0.tgz'', MetadataGet ''foo'' ''1.0.0'', MetadataGet ''baz'' ''1.0.0''],
   console = [],
   tasks = [Task ''bar'' ''2.0.0'' (AwaitBatch [1, 2] 0), Task ''foo'' ''1.0.0'' AwaitMetadata, Task ''baz'' ''1.0.0'' AwaitMetadata],
   crashed = None\<rparr>"
  by (simp only: run.simps foo_start foo_step1 foo_step2 foo_step3)

lemma run_append: "run env (ns @ ms) s = run env ms (run env ns s)"
  by (induction ns arbitrary: s) simp_all

lemma foo_run: "run env_foo_fails (n1 # n2 # n3 # n4 # n5 # n6 # n7 # n8 # rest) (start {} [(''bar'', ''2.0.0'')]) =
  \<lparr>downloadedPackages = {''baz@1.0.0'', ''foo@1.0.0'', ''bar@2.0.0''},
   packageList = [''bar@2.0.0'', ''foo@1.0.0'', ''baz@1.0.0''],
   dependencyTree = [''bar@2.0.0'' \<mapsto> [''foo@1.0.0'', ''baz@1.0.0'']],
   licenseWarnings = [],
   files = {''baz-1.0.0.tgz'', ''bar-2.0.0.tgz''},
   requests = [MetadataGet ''bar'' ''2.0.0'', ArchiveGet ''bar'' ''2.0.0'' ''http://registry/bar-2.0.0.tgz'', MetadataGet ''foo'' ''1.0.0'', MetadataGet ''baz'' ''1.0.0'', ArchiveGet ''baz'' ''1.0.0'' ''http://registry/baz-1.0.0.tgz''],
   console = [''Error downloading foo@1.0.0: Request failed with status code 404''],
   tasks = [Task ''bar'' ''2.0.0'' Fulfilled, Task ''foo'' ''1.0.0'' Fulfilled, Task ''baz'' ''1.0.0'' Fulfilled],
   crashed = None\<rparr>"
proof -
  have "run env_foo_fails ([n1, n2, n3] @ [n4, n5, n6, n7, n8] @ rest) (start {} [(''bar'', ''2.0.0'')]) =
  \<lparr>downloadedPackages = {''baz@1.0.0'', ''foo@1.0.0'', ''bar@2.0.0''},
   packageList = [''bar@2.0.0'', ''foo@1.0.0'', ''baz@1.0.0''],
   dependencyTree = [''bar@2.0.0'' \<mapsto> [''foo@1.0.0'', ''baz@1.0.0'']],
   licenseWarnings = [],
   files = {''baz-1.0.0.tgz'', ''bar-2.0.0.tgz''},
   requests = [MetadataGet ''bar'' ''2.0.0'', ArchiveGet ''bar'' ''2.0.0'' ''http://registry/bar-2.0.0.tgz'', MetadataGet ''foo'' ''1.0.0'', MetadataGet ''baz'' ''1.0.0'', ArchiveGet ''baz'' ''1.0.0'' ''http://registry/baz-1.0.0.tgz''],
   console = [''Error downloading foo@1.0.0: Request failed with status code 404''],
   tasks = [Task ''bar'' ''2.0.0'' Fulfilled, Task ''foo'' ''1.0.0'' Fulfilled, Task ''baz'' ''1.0.0'' Fulfilled],
   crashed = None\<rparr>"
    by (simp only: run_append foo_launched foo_children foo_settled)
  then show ?thesis by (simp only: append.simps)
qed
text \<open>
  C6 (as stated). The claim lists \<open>foo@1.0.0\<close> as absent from the package list. The key is
  pushed on \<open>packageList\<close> when it is claimed, before its metadata is requested, and nothing
  removes it: with a registry that has no \<open>foo\<close>, the finished run of \<open>bar@2.0.0\<close> lists
  \<open>foo@1.0.0\<close> between \<open>bar@2.0.0\<close> and \<open>baz@1.0.0\<close>.
\<close>

theorem failed_dependency_listed_counterexample:
  "registry env_foo_fails ''foo'' ''1.0.0'' = Inl (AxiosError ''Request failed with status code 404'')
   \<and> packageList (run env_foo_fails [0, 0, 0, 0, 0, 0, 0, 0] (start {} [(''bar'', ''2.0.0'')]))
       = [''bar@2.0.0'', ''foo@1.0.0'', ''baz@1.0.0'']
   \<and> all_settled (run env_foo_fails [0, 0, 0, 0, 0, 0, 0, 0] (start {} [(''bar'', ''2.0.0'')]))"
  unfolding foo_run
  by (simp add: env_foo_fails_def registry_foo_fails_def all_settled_def)

text \<open>
  C6 (amended). When the metadata fetch of a task fails, resuming the task only writes one
  error line and fulfils its promise: the package list, the claimed keys, the edges, the
  requests, the files, the license warnings and every other task are as before. So the key
  stays in the package list, with no children, no archive request and no warning. In the
  scenario (\<open>foo@1.0.0\<close> missing under \<open>bar@2.0.0\<close>, with the sibling \<open>baz@1.0.0\<close>) every
  schedule of eight or more steps ends in the same state: the archives of \<open>bar\<close> and \<open>baz\<close> are
  requested, none for \<open>foo\<close>, all promises are fulfilled and the package list is
  \<open>bar@2.0.0\<close>, \<open>foo@1.0.0\<close>, \<open>baz@1.0.0\<close>.
\<close>

theorem metadata_failure_isolated:
  "(i < length (tasks s) \<and> task_stage (tasks s ! i) = AwaitMetadata
      \<and> registry env (task_name (tasks s ! i)) (task_version (tasks s ! i)) = Inl e \<longrightarrow>
      resume env i s =
        s\<lparr>console := console s @
               [''Error downloading '' @ task_name (tasks s ! i) @ ''@'' @ task_version (tasks s ! i)
                  @ '': '' @ message e],
           tasks := (tasks s)[i := Task (task_name (tasks s ! i)) (task_version (tasks s ! i)) Fulfilled]\<rparr>)
   \<and> (let final = run env_foo_fails (n1 # n2 # n3 # n4 # n5 # n6 # n7 # n8 # rest) (start {} [(''bar'', ''2.0.0'')])
      in packageList final = [''bar@2.0.0'', ''foo@1.0.0'', ''baz@1.0.0'']
         \<and> requests final =
             [MetadataGet ''bar'' ''2.0.0'', ArchiveGet ''bar'' ''2.0.0'' ''http://registry/bar-2.0.0.tgz'',
              MetadataGet ''foo'' ''1.0.0'', MetadataGet ''baz'' ''1.0.0'',
              ArchiveGet ''baz'' ''1.0.0'' ''http://registry/baz-1.0.0.tgz'']
         \<and> dependencyTree final ''bar@2.0.0'' = Some [''foo@1.0.0'', ''baz@1.0.0'']
         \<and> dependencyTree final ''foo@1.0.0'' = None
         \<and> licenseWarnings final = []
         \<and> tasks final = [Task ''bar'' ''2.0.0'' Fulfilled, Task ''foo'' ''1.0.0'' Fulfilled,
                           Task ''baz'' ''1.0.0'' Fulfilled])"
proof -
  have local: "resume env i s =
        s\<lparr>console := console s @
               [''Error downloading '' @ task_name (tasks s ! i) @ ''@'' @ task_version (tasks s ! i)
                  @ '': '' @ message e],
           tasks := (tasks s)[i := Task (task_name (tasks s ! i)) (task_version (tasks s ! i)) Fulfilled]\<rparr>"
    if st: "task_stage (tasks s ! i) = AwaitMetadata"
      and rg: "registry env (task_name (tasks s ! i)) (task_version (tasks s ! i)) = Inl e"
  proof -
    obtain name version where t: "tasks s ! i = Task name version AwaitMetadata"
      by (cases "tasks s ! i") (use st in auto)
    show ?thesis
      using rg
      by (simp add: t resume_def resume_body_def set_stage_def catch_error_def task_key_def packageKey_of_def)
  qed
  show ?thesis
    unfolding foo_run Let_def using local by simp
qed

theorem metadata_failure_isolated_witness:
  "Suc 0 < length (tasks (run env_foo_fails [0, 0, 0] (start {} [(''bar'', ''2.0.0'')])))
   \<and> tasks (run env_foo_fails [0, 0, 0] (start {} [(''bar'', ''2.0.0'')])) ! Suc 0
       = Task ''foo'' ''1.0.0'' AwaitMetadata
   \<and> registry env_foo_fails ''foo'' ''1.0.0'' = Inl (AxiosError ''Request failed with status code 404'')
   \<and> packageList (resume env_foo_fails (Suc 0) (run env_foo_fails [0, 0, 0] (start {} [(''bar'', ''2.0.0'')])))
       = [''bar@2.0.0'', ''foo@1.0.0'', ''baz@1.0.0'']
   \<and> tasks (resume env_foo_fails (Suc 0) (run env_foo_fails [0, 0, 0] (start {} [(''bar'', ''2.0.0'')])))
       = [Task ''bar'' ''2.0.0'' (AwaitBatch [1, 2] 0), Task ''foo'' ''1.0.0'' Fulfilled,
          Task ''baz'' ''1.0.0'' AwaitMetadata]
   \<and> console (resume env_foo_fails (Suc 0) (run env_foo_fails [0, 0, 0] (start {} [(''bar'', ''2.0.0'')])))
       = [''Error downloading foo@1.0.0: Request failed with status code 404'']"
proof -
  let ?s = "run env_foo_fails [0, 0, 0] (start {} [(''bar'', ''2.0.0'')])"
  have len: "Suc 0 < length (tasks ?s)"
    and t: "tasks ?s ! Suc 0 = Task ''foo'' ''1.0.0'' AwaitMetadata"
    and ts: "tasks ?s = [Task ''bar'' ''2.0.0'' (AwaitBatch [1, 2] 0), Task ''foo'' ''1.0.0'' AwaitMetadata,
          Task ''baz'' ''1.0.0'' AwaitMetadata]"
    and pl: "packageList ?s = [''bar@2.0.0'', ''foo@1.0.0'', ''baz@1.0.0'']"
    and co: "console ?s = []"
    unfolding foo_launched by simp_all
  have r: "registry env_foo_fails ''foo'' ''1.0.0'' = Inl (AxiosError ''Request failed with status code 404'')"
    by (simp add: env_foo_fails_def registry_foo_fails_def)
  have "resume env_foo_fails (Suc 0) ?s =
        ?s\<lparr>console := console ?s @
               [''Error downloading '' @ task_name (tasks ?s ! Suc 0) @ ''@'' @ task_version (tasks ?s ! Suc 0)
                  @ '': '' @ message (AxiosError ''Request failed with status code 404'')],
           tasks := (tasks ?s)[Suc 0 := Task (task_name (tasks ?s ! Suc 0)) (task_version (tasks ?s ! Suc 0)) Fulfilled]\<rparr>"
    using metadata_failure_isolated [where i = "Suc 0" and s = ?s and env = env_foo_fails
        and e = "AxiosError ''Request failed with status code 404''"] len t r
    by (simp del: run.simps)
  then show ?thesis
    using len t r by (simp add: ts pl co del: run.simps)
qed


section \<open>What a resumed task does\<close>

lemma resume_launch:
  assumes t: "tasks s ! i = Task n v st"
    and st: "st = AwaitSkipped deps
        \<or> (\<exists>u. st = AwaitStream deps u \<and> write_error env (fileName_of n v) = None
              \<and> \<not> (\<exists>e. archive env u = StreamFails e))"
  shows "resume env i s =
      set_stage i
        (batch_stage (length (tasks s)) (length (fst (getAllDependencies (coerce env) deps))))
        (launch_all (Some (packageKey_of n v)) (fst (getAllDependencies (coerce env) deps))
           (s\<lparr>console := console s @ snd (getAllDependencies (coerce env) deps)\<rparr>))"
proof -
  obtain entries warned where g: "getAllDependencies (coerce env) deps = (entries, warned)"
    by (cases "getAllDependencies (coerce env) deps") auto
  from st show ?thesis
  proof
    assume "st = AwaitSkipped deps"
    then show ?thesis
      by (simp add: resume_def resume_body_def t launch_dependencies_def g Let_def batch_stage_def)
  next
    assume "\<exists>u. st = AwaitStream deps u \<and> write_error env (fileName_of n v) = None
        \<and> \<not> (\<exists>e. archive env u = StreamFails e)"
    then obtain u where u: "st = AwaitStream deps u" and w: "write_error env (fileName_of n v) = None"
      and ok: "\<not> (\<exists>e. archive env u = StreamFails e)"
      by blast
    show ?thesis
      by (cases "archive env u")
        (use ok in \<open>simp_all add: resume_def resume_body_def t u w launch_dependencies_def g Let_def batch_stage_def\<close>)
  qed
qed

lemma same_core_console: "same_core s (s\<lparr>console := c\<rparr>)"
  by (simp add: same_core_def)

lemma resume_effect:
  assumes "tasks s ! i = Task n v st"
  shows "(\<exists>s1 st'. resume env i s = set_stage i st' s1 \<and> quiet n v st s s1 \<and> next_stage env n v st st')
       \<or> (\<exists>s0 deps. same_core s s0
             \<and> ((\<exists>u. st = AwaitStream deps u) \<or> st = AwaitSkipped deps)
             \<and> resume env i s =
                 set_stage i
                   (batch_stage (length (tasks s)) (length (fst (getAllDependencies (coerce env) deps))))
                   (launch_all (Some (packageKey_of n v)) (fst (getAllDependencies (coerce env) deps)) s0))
       \<or> (\<exists>e. resume env i s = s\<lparr>crashed := Some e\<rparr> \<and> (\<exists>deps u. st = AwaitStream deps u))"
proof (cases st)
  case AwaitMetadata
  show ?thesis
  proof (cases "registry env n v")
    case (Inl e)
    have "resume env i s = set_stage i Fulfilled (catch_error (packageKey_of n v) e s)"
      by (simp add: resume_def resume_body_def assms AwaitMetadata Inl task_key_def)
    moreover have "quiet n v st s (catch_error (packageKey_of n v) e s)"
      by (simp add: quiet_def catch_error_def)
    moreover have "next_stage env n v st Fulfilled"
      by (simp add: next_stage_def AwaitMetadata)
    ultimately show ?thesis by blast
  next
    case (Inr md)
    let ?s1 = "check_license (packageKey_of n v) (license md) s"
    have q1: "quiet n v st s ?s1"
      by (simp add: quiet_def check_license_def)
    show ?thesis
    proof (cases "dist md")
      case None
      let ?e = "TypeError (''Cannot read properties of undefined (reading '' @ [CHR 0x27] @ ''tarball'' @ [CHR 0x27] @ '')'')"
      have "resume env i s = set_stage i Fulfilled (catch_error (packageKey_of n v) ?e ?s1)"
        by (simp add: resume_def resume_body_def assms AwaitMetadata Inr after_metadata_def None
            task_key_def Let_def)
      moreover have "quiet n v st s (catch_error (packageKey_of n v) ?e ?s1)"
        using q1 by (simp add: quiet_def catch_error_def)
      moreover have "next_stage env n v st Fulfilled"
        by (simp add: next_stage_def AwaitMetadata)
      ultimately show ?thesis by blast
    next
      case (Some u)
      show ?thesis
      proof (cases "fileName_of n v \<in> files ?s1")
        case True
        let ?s2 = "?s1\<lparr>console := console ?s1 @ [''Skipping '' @ fileName_of n v @ '' (already downloaded)'']\<rparr>"
        have "resume env i s = set_stage i (AwaitSkipped (dependencies_or_empty md)) ?s2"
          using True
          by (simp add: resume_def resume_body_def assms AwaitMetadata Inr after_metadata_def Some
              downloadTarball_start_def Let_def)
        moreover have "quiet n v st s ?s2"
          by (simp add: quiet_def check_license_def)
        moreover have "next_stage env n v st (AwaitSkipped (dependencies_or_empty md))"
          using Inr by (simp add: next_stage_def AwaitMetadata)
        ultimately show ?thesis by blast
      next
        case False
        let ?s2 = "?s1\<lparr>requests := requests ?s1 @ [ArchiveGet n v u]\<rparr>"
        have "resume env i s = set_stage i (AwaitResponse (dependencies_or_empty md) u) ?s2"
          using False
          by (simp add: resume_def resume_body_def assms AwaitMetadata Inr after_metadata_def Some
              downloadTarball_start_def Let_def)
        moreover have "quiet n v st s ?s2"
          by (simp add: quiet_def check_license_def AwaitMetadata)
        moreover have "next_stage env n v st (AwaitResponse (dependencies_or_empty md) u)"
          using Inr by (simp add: next_stage_def AwaitMetadata)
        ultimately show ?thesis by blast
      qed
    qed
  qed
next
  case (AwaitResponse deps u)
  show ?thesis
  proof (cases "archive env u")
    case (RequestFails e)
    have "resume env i s = set_stage i Fulfilled (catch_error (packageKey_of n v) e s)"
      by (simp add: resume_def resume_body_def assms AwaitResponse RequestFails task_key_def)
    moreover have "quiet n v st s (catch_error (packageKey_of n v) e s)"
      by (simp add: quiet_def catch_error_def)
    moreover have "next_stage env n v st Fulfilled"
      by (simp add: next_stage_def AwaitResponse)
    ultimately show ?thesis by blast
  next
    case other: (StreamFails e)
    have "resume env i s = set_stage i (AwaitStream deps u) (on_response env n v u s)"
      by (simp add: resume_def resume_body_def assms AwaitResponse other)
    moreover have "quiet n v st s (on_response env n v u s)"
      by (simp add: quiet_def on_response_def Let_def split: option.splits)
    moreover have "next_stage env n v st (AwaitStream deps u)"
      by (simp add: next_stage_def AwaitResponse)
    ultimately show ?thesis by blast
  next
    case other: StreamEnds
    have "resume env i s = set_stage i (AwaitStream deps u) (on_response env n v u s)"
      by (simp add: resume_def resume_body_def assms AwaitResponse other)
    moreover have "quiet n v st s (on_response env n v u s)"
      by (simp add: quiet_def on_response_def Let_def split: option.splits)
    moreover have "next_stage env n v st (AwaitStream deps u)"
      by (simp add: next_stage_def AwaitResponse)
    ultimately show ?thesis by blast
  qed
next
  case (AwaitStream deps u)
  show ?thesis
  proof (cases "write_error env (fileName_of n v)")
    case (Some e)
    have "resume env i s = set_stage i st (s\<lparr>crashed := Some e\<rparr>)"
      by (simp add: resume_def resume_body_def assms AwaitStream Some)
    also have "\<dots> = s\<lparr>crashed := Some e\<rparr>"
      using assms list_update_id [of "tasks s" i] by (simp add: set_stage_def)
    finally have "resume env i s = s\<lparr>crashed := Some e\<rparr> \<and> (\<exists>deps u. st = AwaitStream deps u)"
      using AwaitStream by simp
    then show ?thesis by (intro disjI2 exI)
  next
    case None
    show ?thesis
    proof (cases "\<exists>e. archive env u = StreamFails e")
      case True
      then obtain e where e: "archive env u = StreamFails e" by blast
      have "resume env i s = set_stage i Fulfilled (catch_error (packageKey_of n v) e s)"
        by (simp add: resume_def resume_body_def assms AwaitStream e None task_key_def)
      moreover have "quiet n v st s (catch_error (packageKey_of n v) e s)"
        by (simp add: quiet_def catch_error_def)
      moreover have "next_stage env n v st Fulfilled"
        by (simp add: next_stage_def AwaitStream)
      ultimately show ?thesis by blast
    next
      case False
      have st: "st = AwaitSkipped deps
          \<or> (\<exists>u. st = AwaitStream deps u \<and> write_error env (fileName_of n v) = None
                \<and> \<not> (\<exists>e. archive env u = StreamFails e))"
        using False None AwaitStream by simp
      show ?thesis
        apply (rule disjI2)
        apply (rule disjI1)
        apply (rule exI [where x = "s\<lparr>console := console s @ snd (getAllDependencies (coerce env) deps)\<rparr>"])
        apply (rule exI [where x = deps])
        apply (intro conjI)
          apply (rule same_core_console)
         apply (simp add: AwaitStream)
        apply (rule resume_launch [OF assms st])
        done
    qed
  qed
next
  case (AwaitSkipped deps)
  have st: "st = AwaitSkipped deps
      \<or> (\<exists>u. st = AwaitStream deps u \<and> write_error env (fileName_of n v) = None
            \<and> \<not> (\<exists>e. archive env u = StreamFails e))"
    using AwaitSkipped by simp
  show ?thesis
    apply (rule disjI2)
    apply (rule disjI1)
    apply (rule exI [where x = "s\<lparr>console := console s @ snd (getAllDependencies (coerce env) deps)\<rparr>"])
    apply (rule exI [where x = deps])
    apply (intro conjI)
      apply (rule same_core_console)
     apply (simp add: AwaitSkipped)
    apply (rule resume_launch [OF assms st])
    done
next
  case (AwaitBatch ps j)
  show ?thesis
  proof (cases "first_rejection (map (\<lambda>p. task_stage (tasks s ! p)) (batch_of ps j))")
    case None
    have "resume env i s = set_stage i
        (if j + CONCURRENCY < length ps then AwaitBatch ps (j + CONCURRENCY) else Fulfilled) s"
      by (simp add: resume_def resume_body_def assms AwaitBatch after_batch_def None)
    moreover have "quiet n v st s s"
      by (simp add: quiet_def)
    moreover have "next_stage env n v st
        (if j + CONCURRENCY < length ps then AwaitBatch ps (j + CONCURRENCY) else Fulfilled)"
      by (simp add: next_stage_def AwaitBatch)
    ultimately show ?thesis by blast
  next
    case (Some e)
    have "resume env i s = set_stage i Fulfilled (catch_error (packageKey_of n v) e s)"
      by (simp add: resume_def resume_body_def assms AwaitBatch after_batch_def Some task_key_def)
    moreover have "quiet n v st s (catch_error (packageKey_of n v) e s)"
      by (simp add: quiet_def catch_error_def)
    moreover have "next_stage env n v st Fulfilled"
      by (simp add: next_stage_def AwaitBatch)
    ultimately show ?thesis by blast
  qed
next
  case Fulfilled
  have "resume env i s = set_stage i Fulfilled s"
    by (simp add: resume_def resume_body_def assms Fulfilled)
  moreover have "quiet n v st s s" by (simp add: quiet_def)
  moreover have "next_stage env n v st Fulfilled" by (simp add: next_stage_def Fulfilled)
  ultimately show ?thesis by blast
next
  case (Rejected e)
  have "resume env i s = set_stage i (Rejected e) s"
    by (simp add: resume_def resume_body_def assms Rejected)
  moreover have "quiet n v st s s" by (simp add: quiet_def)
  moreover have "next_stage env n v st (Rejected e)" by (simp add: next_stage_def Rejected)
  ultimately show ?thesis by blast
qed

lemma resume_cases [consumes 1, case_names quiet launch crash]:
  assumes "tasks s ! i = Task n v st"
  obtains (quiet) s1 st' where "resume env i s = set_stage i st' s1" "quiet n v st s s1"
      "next_stage env n v st st'"
    | (launch) s0 deps where "same_core s s0" "(\<exists>u. st = AwaitStream deps u) \<or> st = AwaitSkipped deps"
      "resume env i s =
         set_stage i (batch_stage (length (tasks s)) (length (fst (getAllDependencies (coerce env) deps))))
           (launch_all (Some (packageKey_of n v)) (fst (getAllDependencies (coerce env) deps)) s0)"
    | (crash) e where "resume env i s = s\<lparr>crashed := Some e\<rparr>" "\<exists>deps u. st = AwaitStream deps u"
proof -
  from resume_effect [OF assms, of env]
  consider (a) "\<exists>s1 st'. resume env i s = set_stage i st' s1 \<and> quiet n v st s s1 \<and> next_stage env n v st st'"
    | (b) "\<exists>s0 deps. same_core s s0
             \<and> ((\<exists>u. st = AwaitStream deps u) \<or> st = AwaitSkipped deps)
             \<and> resume env i s =
                 set_stage i (batch_stage (length (tasks s)) (length (fst (getAllDependencies (coerce env) deps))))
                   (launch_all (Some (packageKey_of n v)) (fst (getAllDependencies (coerce env) deps)) s0)"
    | (c) "\<exists>e. resume env i s = s\<lparr>crashed := Some e\<rparr> \<and> (\<exists>deps u. st = AwaitStream deps u)"
    by (elim disjE)
  then show thesis
  proof cases
    case a
    then obtain s1 st' where "resume env i s = set_stage i st' s1" "quiet n v st s s1"
      "next_stage env n v st st'"
      by (elim exE conjE)
    then show thesis by (rule quiet)
  next
    case b
    then obtain s0 deps where "same_core s s0" "(\<exists>u. st = AwaitStream deps u) \<or> st = AwaitSkipped deps"
      "resume env i s =
         set_stage i (batch_stage (length (tasks s)) (length (fst (getAllDependencies (coerce env) deps))))
           (launch_all (Some (packageKey_of n v)) (fst (getAllDependencies (coerce env) deps)) s0)"
      by (elim exE conjE)
    then show thesis by (rule launch)
  next
    case c
    then obtain e where "resume env i s = s\<lparr>crashed := Some e\<rparr>" "\<exists>deps u. st = AwaitStream deps u"
      by blast
    then show thesis by (rule crash)
  qed
qed

section \<open>Fields after a call\<close>

lemma downloadedPackages_call [simp]:
  "downloadedPackages (downloadPackageAndDependencies n v p s) = insert (packageKey_of n v) (downloadedPackages s)"
  by (auto simp: downloadPackageAndDependencies_def Let_def)

lemma packageList_call [simp]:
  "packageList (downloadPackageAndDependencies n v p s) =
     (if packageKey_of n v \<in> downloadedPackages s then packageList s else packageList s @ [packageKey_of n v])"
  by (simp add: downloadPackageAndDependencies_def Let_def)

lemma requests_call [simp]:
  "requests (downloadPackageAndDependencies n v p s) =
     (if packageKey_of n v \<in> downloadedPackages s then requests s else requests s @ [MetadataGet n v])"
  by (simp add: downloadPackageAndDependencies_def Let_def)

lemma tasks_call [simp]:
  "tasks (downloadPackageAndDependencies n v p s) =
     tasks s @ [Task n v (if packageKey_of n v \<in> downloadedPackages s then Fulfilled else AwaitMetadata)]"
  by (simp add: downloadPackageAndDependencies_def Let_def)

lemma dependencyTree_call [simp]:
  "dependencyTree (downloadPackageAndDependencies n v p s) =
     (if packageKey_of n v \<in> downloadedPackages s then dependencyTree s
      else case p of None \<Rightarrow> dependencyTree s
           | Some k \<Rightarrow> if k = [] then dependencyTree s else push_child (dependencyTree s) k (packageKey_of n v))"
  by (simp add: downloadPackageAndDependencies_def Let_def)

lemma launch_all_Nil [simp]: "launch_all p [] s = s"
  by (simp add: launch_all_def)

lemma launch_all_Cons [simp]:
  "launch_all p ((n, v) # entries) s = launch_all p entries (downloadPackageAndDependencies n v p s)"
  by (simp add: launch_all_def)

lemma launch_all_induct:
  assumes "P s" and "\<And>n v s. P s \<Longrightarrow> P (downloadPackageAndDependencies n v p s)"
  shows "P (launch_all p entries s)"
  using assms(1)
proof (induction entries arbitrary: s)
  case Nil
  then show ?case by simp
next
  case (Cons e entries)
  obtain n v where e: "e = (n, v)" by (cases e) auto
  show ?case
    unfolding e launch_all_Cons by (rule Cons.IH) (rule assms(2) [OF Cons.prems])
qed

lemma length_tasks_launch_all [simp]:
  "length (tasks (launch_all p entries s)) = length (tasks s) + length entries"
  by (induction entries arbitrary: s) auto

lemma tasks_set_stage [simp]:
  "tasks (set_stage i st s) = (tasks s)[i := Task (task_name (tasks s ! i)) (task_version (tasks s ! i)) st]"
  by (simp add: set_stage_def)

lemma fields_set_stage [simp]:
  "downloadedPackages (set_stage i st s) = downloadedPackages s"
  "packageList (set_stage i st s) = packageList s"
  "dependencyTree (set_stage i st s) = dependencyTree s"
  "requests (set_stage i st s) = requests s"
  by (simp_all add: set_stage_def)

lemma task_key_Task [simp]: "task_key (Task n v st) = packageKey_of n v"
  by (simp add: task_key_def)

lemma task_key_restaged [simp]:
  "task_key (Task (task_name t) (task_version t) st) = task_key t"
  by (simp add: task_key_def)

section \<open>Claims\<close>

lemma metadata_keys_append [simp]:
  "metadata_keys (rq @ rq') = metadata_keys rq @ metadata_keys rq'"
  by (simp add: metadata_keys_def)

lemma archive_keys_append [simp]:
  "archive_keys (rq @ rq') = archive_keys rq @ archive_keys rq'"
  by (simp add: archive_keys_def)

lemma keys_single [simp]:
  "metadata_keys [MetadataGet n v] = [packageKey_of n v]"
  "metadata_keys [ArchiveGet n v u] = []"
  "archive_keys [MetadataGet n v] = []"
  "archive_keys [ArchiveGet n v u] = [packageKey_of n v]"
  by (simp_all add: metadata_keys_def archive_keys_def)

lemma inv_claims_initial: "inv_claims (initial_state disk)"
  by (simp add: inv_claims_def initial_state_def metadata_keys_def)

lemma inv_claims_call: "inv_claims s \<Longrightarrow> inv_claims (downloadPackageAndDependencies n v p s)"
  by (auto simp: inv_claims_def)

lemma inv_claims_launch_all: "inv_claims s \<Longrightarrow> inv_claims (launch_all p entries s)"
  by (rule launch_all_induct) (auto intro: inv_claims_call)

lemma inv_claims_same_core: "same_core s s0 \<Longrightarrow> inv_claims s \<Longrightarrow> inv_claims s0"
  by (simp add: same_core_def inv_claims_def)

lemma set_restaged:
  "set ((tasks s)[i := Task (task_name (tasks s ! i)) (task_version (tasks s ! i)) st])
     \<subseteq> insert (Task (task_name (tasks s ! i)) (task_version (tasks s ! i)) st) (set (tasks s))"
  by (rule set_update_subset_insert)

lemma task_keys_set_stage:
  assumes "t \<in> set (tasks (set_stage i st s))"
  shows "\<exists>t' \<in> set (tasks s). task_key t = task_key t'"
proof (cases "i < length (tasks s)")
  case True
  then have i: "tasks s ! i \<in> set (tasks s)" by simp
  from assms set_restaged [of s i st]
  have "t = Task (task_name (tasks s ! i)) (task_version (tasks s ! i)) st \<or> t \<in> set (tasks s)"
    by auto
  then show ?thesis
  proof
    assume "t = Task (task_name (tasks s ! i)) (task_version (tasks s ! i)) st"
    then have "task_key t = task_key (tasks s ! i)" by (simp add: task_key_def)
    then show ?thesis using i by blast
  next
    assume "t \<in> set (tasks s)"
    then show ?thesis by blast
  qed
next
  case False
  then have "(tasks s)[i := Task (task_name (tasks s ! i)) (task_version (tasks s ! i)) st] = tasks s"
    by (simp add: list_update_beyond not_less)
  then show ?thesis using assms by auto
qed

lemma inv_claims_set_stage:
  assumes "inv_claims s"
  shows "inv_claims (set_stage i st s)"
proof -
  have "task_key t \<in> downloadedPackages s" if "t \<in> set (tasks (set_stage i st s))" for t
    using task_keys_set_stage [OF that] assms by (auto simp: inv_claims_def)
  then show ?thesis
    using assms by (simp add: inv_claims_def)
qed

lemma inv_claims_quiet:
  assumes "inv_claims s" "quiet n v st s s1"
  shows "inv_claims s1"
  using assms by (auto simp: inv_claims_def quiet_def)

lemma inv_claims_resume:
  assumes "inv_claims s"
  shows "inv_claims (resume env i s)"
proof -
  obtain n v st where t: "tasks s ! i = Task n v st"
    by (cases "tasks s ! i") auto
  from t show ?thesis
  proof (cases rule: resume_cases [where env = env])
    case (quiet s1 st')
    then show ?thesis
      using inv_claims_quiet [OF assms] inv_claims_set_stage by simp
  next
    case (launch s0 deps)
    have "inv_claims s0"
      using inv_claims_same_core [OF launch(1) assms] .
    then show ?thesis
      unfolding launch(3) by (intro inv_claims_set_stage inv_claims_launch_all)
  next
    case (crash e)
    then show ?thesis
      using assms by (simp add: inv_claims_def)
  qed
qed

lemma inv_claims_step: "inv_claims s \<Longrightarrow> inv_claims (step env n s)"
  by (simp add: step_def inv_claims_resume)

lemma inv_claims_run: "inv_claims s \<Longrightarrow> inv_claims (run env sched s)"
  by (induction sched arbitrary: s) (simp_all add: inv_claims_step)

lemma inv_claims_start: "inv_claims (start disk roots)"
  unfolding start_def by (intro inv_claims_launch_all inv_claims_initial)

section \<open>Archive requests\<close>

lemma runnable_lt: "i \<in> set (runnable s) \<Longrightarrow> i < length (tasks s)"
  by (simp add: runnable_def)

lemma step_cases:
  obtains (idle) "crashed s \<noteq> None \<or> runnable s = []" "step env n s = s"
    | (resume) i where "i < length (tasks s)" "i \<in> set (runnable s)" "crashed s = None"
        "step env n s = resume env i s"
proof (cases "crashed s \<noteq> None \<or> runnable s = []")
  case True
  then have "step env n s = s" by (simp add: step_def)
  with True show thesis by (rule idle)
next
  case False
  let ?i = "runnable s ! (n mod length (runnable s))"
  have m: "?i \<in> set (runnable s)"
    using False by simp
  have "?i < length (tasks s)"
    using m by (rule runnable_lt)
  moreover have "crashed s = None" using False by simp
  moreover have "step env n s = resume env ?i s"
    using False by (simp add: step_def)
  ultimately show thesis using m resume [of ?i] by blast
qed

lemma next_stage_not_meta: "next_stage env n v st st' \<Longrightarrow> st' \<noteq> AwaitMetadata"
  by (auto simp: next_stage_def)

lemma batch_stage_not_meta: "batch_stage first count \<noteq> AwaitMetadata"
  by (simp add: batch_stage_def)

lemma inv_archive_initial: "inv_archive (initial_state disk)"
  by (simp add: inv_archive_def initial_state_def archive_keys_def)

lemma inv_archive_call:
  assumes "inv_archive s"
  shows "inv_archive (downloadPackageAndDependencies n v p s)"
proof (cases "packageKey_of n v \<in> downloadedPackages s")
  case True
  then show ?thesis
    using assms by (auto simp: inv_archive_def nth_append less_Suc_eq)
next
  case False
  let ?s = "downloadPackageAndDependencies n v p s"
  have fresh: "packageKey_of n v \<notin> set (archive_keys (requests s))"
    using False assms by (auto simp: inv_archive_def)
  have old: "task_key (tasks s ! k) \<in> downloadedPackages s"
    if "k < length (tasks s)" "task_stage (tasks s ! k) = AwaitMetadata" for k
    using that assms by (simp add: inv_archive_def)
  have p1: "distinct (archive_keys (requests ?s))"
    using assms False by (simp add: inv_archive_def)
  have p2: "set (archive_keys (requests ?s)) \<subseteq> downloadedPackages ?s"
    using assms False by (auto simp: inv_archive_def)
  have p3: "task_key (tasks ?s ! i) \<in> downloadedPackages ?s
        \<and> task_key (tasks ?s ! i) \<notin> set (archive_keys (requests ?s))"
    if i: "i < length (tasks ?s)" and m: "task_stage (tasks ?s ! i) = AwaitMetadata" for i
    by (cases "i < length (tasks s)")
      (use i m assms False fresh in \<open>auto simp: inv_archive_def nth_append\<close>)
  have p4: "task_key (tasks ?s ! i) \<noteq> task_key (tasks ?s ! j)"
    if i: "i < length (tasks ?s)" and j: "j < length (tasks ?s)"
      and h: "i \<noteq> j \<and> task_stage (tasks ?s ! i) = AwaitMetadata
           \<and> task_stage (tasks ?s ! j) = AwaitMetadata" for i j
  proof -
    consider (both) "i < length (tasks s)" "j < length (tasks s)"
      | (inew) "i = length (tasks s)" "j < length (tasks s)"
      | (jnew) "i < length (tasks s)" "j = length (tasks s)"
      using i j h by (cases "i < length (tasks s)"; cases "j < length (tasks s)") auto
    then show ?thesis
    proof cases
      case both
      then show ?thesis
        using h assms by (simp add: inv_archive_def nth_append)
    next
      case inew
      then show ?thesis
        using h False old [of j] by (auto simp: nth_append)
    next
      case jnew
      then show ?thesis
        using h False old [of i] by (auto simp: nth_append)
    qed
  qed
  show ?thesis
    unfolding inv_archive_def using p1 p2 p3 p4 by blast
qed

lemma inv_archive_launch_all: "inv_archive s \<Longrightarrow> inv_archive (launch_all p entries s)"
  by (rule launch_all_induct) (auto intro: inv_archive_call)

lemma inv_archive_same_core: "same_core s s0 \<Longrightarrow> inv_archive s \<Longrightarrow> inv_archive s0"
  by (simp add: same_core_def inv_archive_def)

lemma nth_update_any: "k < length xs \<Longrightarrow> xs[i := y] ! k = (if k = i then y else xs ! k)"
  by (cases "i < length xs") (auto simp: nth_list_update list_update_beyond not_less)

lemma inv_archive_set_stage:
  assumes "inv_archive s" "st \<noteq> AwaitMetadata"
  shows "inv_archive (set_stage i st s)"
  using assms by (auto simp: inv_archive_def nth_update_any)

lemma inv_archive_request:
  assumes inv: "inv_archive s" and i: "i < length (tasks s)"
    and t: "tasks s ! i = Task n v AwaitMetadata"
    and st: "st \<noteq> AwaitMetadata"
  shows "inv_archive (set_stage i st (s\<lparr>requests := requests s @ [ArchiveGet n v u]\<rparr>))"
proof -
  let ?s = "set_stage i st (s\<lparr>requests := requests s @ [ArchiveGet n v u]\<rparr>)"
  have ti: "task_stage (tasks s ! i) = AwaitMetadata" "task_key (tasks s ! i) = packageKey_of n v"
    by (simp_all add: t task_key_def)
  have key: "packageKey_of n v \<in> downloadedPackages s"
    and fresh: "packageKey_of n v \<notin> set (archive_keys (requests s))"
    using inv i ti by (auto simp: inv_archive_def)
  have pair: "task_key (tasks s ! k) \<noteq> task_key (tasks s ! j)"
    if "k < length (tasks s)" "j < length (tasks s)" "k \<noteq> j"
      "task_stage (tasks s ! k) = AwaitMetadata" "task_stage (tasks s ! j) = AwaitMetadata" for k j
    using inv that by (simp add: inv_archive_def)
  have others: "task_key (tasks s ! k) \<noteq> packageKey_of n v"
    if "k < length (tasks s)" "k \<noteq> i" "task_stage (tasks s ! k) = AwaitMetadata" for k
    using pair [OF that(1) i that(2) that(3) ti(1)] ti(2) by simp
  have len: "length (tasks ?s) = length (tasks s)"
    by (simp add: set_stage_def)
  have nth: "tasks ?s ! k = (if k = i then Task n v st else tasks s ! k)" if "k < length (tasks s)" for k
    using that by (simp add: set_stage_def nth_update_any t)
  have p1: "distinct (archive_keys (requests ?s))"
    using inv fresh by (simp add: inv_archive_def)
  have p2: "set (archive_keys (requests ?s)) \<subseteq> downloadedPackages ?s"
    using inv key by (auto simp: inv_archive_def)
  have p3: "task_key (tasks ?s ! k) \<in> downloadedPackages ?s
        \<and> task_key (tasks ?s ! k) \<notin> set (archive_keys (requests ?s))"
    if k: "k < length (tasks ?s)" and m: "task_stage (tasks ?s ! k) = AwaitMetadata" for k
  proof -
    have k': "k < length (tasks s)" using k len by simp
    have ki: "k \<noteq> i" using m nth [OF k'] st by auto
    have m': "task_stage (tasks s ! k) = AwaitMetadata" using m nth [OF k'] ki by simp
    have "task_key (tasks s ! k) \<in> downloadedPackages s"
      "task_key (tasks s ! k) \<notin> set (archive_keys (requests s))"
      using inv k' m' by (simp_all add: inv_archive_def)
    then show ?thesis
      using others [OF k' ki m'] nth [OF k'] ki by simp
  qed
  have p4: "task_key (tasks ?s ! k) \<noteq> task_key (tasks ?s ! l)"
    if k: "k < length (tasks ?s)" and l: "l < length (tasks ?s)"
      and h: "k \<noteq> l \<and> task_stage (tasks ?s ! k) = AwaitMetadata
           \<and> task_stage (tasks ?s ! l) = AwaitMetadata" for k l
  proof -
    have k': "k < length (tasks s)" and l': "l < length (tasks s)" using k l len by simp_all
    have "k \<noteq> i" "l \<noteq> i" using h nth [OF k'] nth [OF l'] st by auto
    then show ?thesis
      using pair [OF k' l'] h nth [OF k'] nth [OF l'] by simp
  qed
  show ?thesis
    unfolding inv_archive_def using p1 p2 p3 p4 by blast
qed

lemma inv_archive_cong:
  assumes "downloadedPackages s' = downloadedPackages s" "requests s' = requests s" "tasks s' = tasks s"
  shows "inv_archive s' = inv_archive s"
  by (simp add: inv_archive_def assms)

lemma inv_archive_quiet:
  assumes inv: "inv_archive s" and i: "i < length (tasks s)" and t: "tasks s ! i = Task n v st"
    and q: "quiet n v st s s1" and st': "st' \<noteq> AwaitMetadata"
  shows "inv_archive (set_stage i st' s1)"
proof -
  from q consider (same) "requests s1 = requests s"
    | (req) u where "st = AwaitMetadata" "requests s1 = requests s @ [ArchiveGet n v u]"
    by (auto simp: quiet_def)
  then show ?thesis
  proof cases
    case same
    have "inv_archive s1"
      using inv q same by (simp add: inv_archive_cong [of s1 s] quiet_def)
    then show ?thesis by (rule inv_archive_set_stage) (rule st')
  next
    case req
    have "inv_archive (set_stage i st' s1) =
        inv_archive (set_stage i st' (s\<lparr>requests := requests s @ [ArchiveGet n v u]\<rparr>))"
      using q req by (intro inv_archive_cong) (simp_all add: quiet_def)
    then show ?thesis
      using inv_archive_request [OF inv i _ st', of n v u] t req by simp
  qed
qed

lemma inv_archive_resume:
  assumes "inv_archive s" "i < length (tasks s)"
  shows "inv_archive (resume env i s)"
proof -
  obtain n v st where t: "tasks s ! i = Task n v st"
    by (cases "tasks s ! i") auto
  from t show ?thesis
  proof (cases rule: resume_cases [where env = env])
    case (quiet s1 st')
    show ?thesis
      unfolding quiet(1)
      by (rule inv_archive_quiet [OF assms t quiet(2) next_stage_not_meta [OF quiet(3)]])
  next
    case (launch s0 deps)
    have "inv_archive s0"
      using inv_archive_same_core [OF launch(1) assms(1)] .
    then show ?thesis
      unfolding launch(3)
      by (intro inv_archive_set_stage inv_archive_launch_all batch_stage_not_meta)
  next
    case (crash e)
    then show ?thesis
      using assms by (simp add: inv_archive_def)
  qed
qed

lemma inv_archive_step: "inv_archive s \<Longrightarrow> inv_archive (step env n s)"
  by (cases rule: step_cases [of s env n]) (simp_all add: inv_archive_resume)

lemma inv_archive_run: "inv_archive s \<Longrightarrow> inv_archive (run env sched s)"
  by (induction sched arbitrary: s) (simp_all add: inv_archive_step)

lemma inv_archive_start: "inv_archive (start disk roots)"
  unfolding start_def by (intro inv_archive_launch_all inv_archive_initial)

section \<open>Every key is resolved once\<close>

lemma downloadedPackages_launch_all:
  "downloadedPackages (launch_all p entries s)
     = downloadedPackages s \<union> (\<lambda>(n, v). packageKey_of n v) ` set entries"
  by (induction entries arbitrary: s) auto

lemma archive_keys_launch_all [simp]:
  "archive_keys (requests (launch_all p entries s)) = archive_keys (requests s)"
  by (induction entries arbitrary: s) auto

lemma downloadedPackages_resume: "downloadedPackages s \<subseteq> downloadedPackages (resume env i s)"
proof -
  obtain n v st where t: "tasks s ! i = Task n v st"
    by (cases "tasks s ! i") auto
  from t show ?thesis
  proof (cases rule: resume_cases [where env = env])
    case (quiet s1 st')
    then show ?thesis by (simp add: quiet_def)
  next
    case (launch s0 deps)
    then show ?thesis by (auto simp: same_core_def downloadedPackages_launch_all)
  next
    case (crash e)
    then show ?thesis by simp
  qed
qed

lemma downloadedPackages_step: "downloadedPackages s \<subseteq> downloadedPackages (step env n s)"
  by (simp add: step_def downloadedPackages_resume)

lemma downloadedPackages_run: "downloadedPackages s \<subseteq> downloadedPackages (run env sched s)"
proof (induction sched arbitrary: s)
  case Nil
  show ?case by simp
next
  case (Cons n sched)
  show ?case
    using downloadedPackages_step [of s env n] Cons [of "step env n s"] by auto
qed

lemma roots_claimed:
  "(n, v) \<in> set roots \<Longrightarrow> packageKey_of n v \<in> downloadedPackages (run env sched (start disk roots))"
  using downloadedPackages_run [of "start disk roots" env sched]
  by (auto simp: start_def downloadedPackages_launch_all)

lemma count_list_distinct:
  "distinct xs \<Longrightarrow> count_list xs k = (if k \<in> set xs then 1 else 0)"
  by (induction xs) auto

lemma inv_claims_reachable: "inv_claims (run env sched (start disk roots))"
  by (intro inv_claims_run inv_claims_start)

lemma inv_archive_reachable: "inv_archive (run env sched (start disk roots))"
  by (intro inv_archive_run inv_archive_start)

text \<open>The archive requests a resumed task adds: one, when its metadata has arrived with a
  \<open>dist.tarball\<close> and the archive file does not exist yet.\<close>

lemma archive_keys_resume:
  assumes t: "tasks s ! i = Task n v st"
  shows "archive_keys (requests (resume env i s)) =
     archive_keys (requests s) @
       (if st = AwaitMetadata \<and> (\<exists>md u. registry env n v = Inr md \<and> dist md = Some u)
           \<and> fileName_of n v \<notin> files s
        then [packageKey_of n v] else [])"
proof (cases "st = AwaitMetadata")
  case True
  show ?thesis
  proof (cases "registry env n v")
    case (Inl e)
    then show ?thesis
      by (simp add: resume_def resume_body_def t True catch_error_def)
  next
    case (Inr md)
    show ?thesis
    proof (cases "dist md")
      case None
      then show ?thesis
        by (simp add: resume_def resume_body_def t True Inr after_metadata_def catch_error_def
            check_license_def Let_def)
    next
      case (Some u)
      then show ?thesis
        by (simp add: resume_def resume_body_def t True Inr after_metadata_def
            check_license_def downloadTarball_start_def Let_def)
    qed
  qed
next
  case False
  from t show ?thesis
  proof (cases rule: resume_cases [where env = env])
    case (quiet s1 st')
    then show ?thesis using False by (auto simp: quiet_def)
  next
    case (launch s0 deps)
    then show ?thesis using False by (simp add: same_core_def)
  next
    case (crash e)
    then show ?thesis using False by simp
  qed
qed

lemma run_idle: "(\<And>n. step env n s = s) \<Longrightarrow> run env sched s = s"
  by (induction sched) simp_all

text \<open>
  C1 (as stated). The claim gives every key that is resolved twice exactly one archive fetch.
  The archive is requested only after the metadata has arrived: with a registry that has no
  \<open>foo\<close>, the root \<open>foo@1.0.0\<close> given twice is claimed once, its metadata is requested once,
  the second call returns at once, and no schedule ever issues an archive request.
\<close>

theorem no_archive_fetch_counterexample:
  "(\<forall>sched. archive_keys (requests (run env_foo_fails sched
        (start {} [(''foo'', ''1.0.0''), (''foo'', ''1.0.0'')]))) = [])
   \<and> requests (run env_foo_fails [0] (start {} [(''foo'', ''1.0.0''), (''foo'', ''1.0.0'')]))
       = [MetadataGet ''foo'' ''1.0.0'']
   \<and> tasks (run env_foo_fails [0] (start {} [(''foo'', ''1.0.0''), (''foo'', ''1.0.0'')]))
       = [Task ''foo'' ''1.0.0'' Fulfilled, Task ''foo'' ''1.0.0'' Fulfilled]
   \<and> console (run env_foo_fails [0] (start {} [(''foo'', ''1.0.0''), (''foo'', ''1.0.0'')]))
       = [''Error downloading foo@1.0.0: Request failed with status code 404'']"
proof -
  let ?s0 = "\<lparr>downloadedPackages = {''foo@1.0.0''}, packageList = [''foo@1.0.0''],
      dependencyTree = Map.empty, licenseWarnings = [], files = {},
      requests = [MetadataGet ''foo'' ''1.0.0''], console = [],
      tasks = [Task ''foo'' ''1.0.0'' AwaitMetadata, Task ''foo'' ''1.0.0'' Fulfilled],
      crashed = None\<rparr>"
  let ?s1 = "\<lparr>downloadedPackages = {''foo@1.0.0''}, packageList = [''foo@1.0.0''],
      dependencyTree = Map.empty, licenseWarnings = [], files = {},
      requests = [MetadataGet ''foo'' ''1.0.0''],
      console = [''Error downloading foo@1.0.0: Request failed with status code 404''],
      tasks = [Task ''foo'' ''1.0.0'' Fulfilled, Task ''foo'' ''1.0.0'' Fulfilled],
      crashed = None\<rparr>"
  have s0: "start {} [(''foo'', ''1.0.0''), (''foo'', ''1.0.0'')] = ?s0"
    by (simp add: exec_defs)
  have s1: "step env_foo_fails n ?s0 = ?s1" for n
    by (simp add: exec_defs env_foo_fails_def registry_foo_fails_def)
  have s2: "step env_foo_fails n ?s1 = ?s1" for n
    by (simp add: step_def runnable_def)
  have "archive_keys (requests (run env_foo_fails sched ?s0)) = []" for sched
  proof (cases sched)
    case Nil
    then show ?thesis by (simp add: archive_keys_def)
  next
    case (Cons n ns)
    have "run env_foo_fails sched ?s0 = ?s1"
      unfolding Cons run.simps s1 by (rule run_idle) (rule s2)
    then show ?thesis by (simp add: archive_keys_def)
  qed
  moreover have "run env_foo_fails [0] ?s0 = ?s1"
    by (simp only: run.simps s1)
  ultimately show ?thesis
    unfolding s0 by simp
qed

text \<open>
  C1 (amended). Once a key is claimed, a later call of \<open>downloadPackageAndDependencies\<close> with
  the same name and version, under any parent, changes nothing but the list of promises: its
  promise is fulfilled at once, with no request, no entry in the package list and no edge. In
  every state a run can reach, under every schedule, every root is claimed, every claimed key
  has exactly one metadata request and one entry in the package list, and no key has more than
  one archive request. The archive of a key is requested by the task that claimed it, when its
  metadata arrives with a \<open>dist.tarball\<close> and the archive file does not exist yet; no other
  resumption of a task requests an archive.
\<close>

theorem each_key_resolved_once:
  "(packageKey_of n v \<in> downloadedPackages s \<longrightarrow>
      downloadPackageAndDependencies n v parent s = s\<lparr>tasks := tasks s @ [Task n v Fulfilled]\<rparr>)
   \<and> ((rn, rv) \<in> set roots \<longrightarrow>
        packageKey_of rn rv \<in> downloadedPackages (run env sched (start disk roots)))
   \<and> count_list (metadata_keys (requests (run env sched (start disk roots)))) k
       = (if k \<in> downloadedPackages (run env sched (start disk roots)) then 1 else 0)
   \<and> count_list (packageList (run env sched (start disk roots))) k
       = (if k \<in> downloadedPackages (run env sched (start disk roots)) then 1 else 0)
   \<and> count_list (archive_keys (requests (run env sched (start disk roots)))) k \<le> 1
   \<and> (tasks s ! i = Task n v st \<longrightarrow>
        archive_keys (requests (resume env i s)) =
          archive_keys (requests s) @
            (if st = AwaitMetadata \<and> (\<exists>md u. registry env n v = Inr md \<and> dist md = Some u)
                \<and> fileName_of n v \<notin> files s
             then [packageKey_of n v] else []))"
proof -
  let ?r = "run env sched (start disk roots)"
  have c: "inv_claims ?r" by (rule inv_claims_reachable)
  have a: "inv_archive ?r" by (rule inv_archive_reachable)
  have d1: "packageKey_of n v \<in> downloadedPackages s \<longrightarrow>
      downloadPackageAndDependencies n v parent s = s\<lparr>tasks := tasks s @ [Task n v Fulfilled]\<rparr>"
    by (simp add: downloadPackageAndDependencies_def Let_def)
  have d2: "(rn, rv) \<in> set roots \<longrightarrow> packageKey_of rn rv \<in> downloadedPackages ?r"
    using roots_claimed [of rn rv roots env sched disk] by blast
  have d4: "count_list (packageList ?r) k = (if k \<in> downloadedPackages ?r then 1 else 0)"
    using c count_list_distinct [of "packageList ?r" k] by (simp add: inv_claims_def)
  have d3: "count_list (metadata_keys (requests ?r)) k = (if k \<in> downloadedPackages ?r then 1 else 0)"
    using c d4 by (simp add: inv_claims_def)
  have d5: "count_list (archive_keys (requests ?r)) k \<le> 1"
    using a count_list_distinct [of "archive_keys (requests ?r)" k] by (simp add: inv_archive_def)
  have d6: "tasks s ! i = Task n v st \<longrightarrow>
        archive_keys (requests (resume env i s)) =
          archive_keys (requests s) @
            (if st = AwaitMetadata \<and> (\<exists>md u. registry env n v = Inr md \<and> dist md = Some u)
                \<and> fileName_of n v \<notin> files s
             then [packageKey_of n v] else [])"
    using archive_keys_resume [of s i n v st env] by blast
  show ?thesis
    by (intro conjI d1 d2 d3 d4 d5 d6)
qed

theorem each_key_resolved_once_witness:
  "downloadPackageAndDependencies ''app'' ''1.0.0'' (Some ''top@1.0.0'') (start {} [(''app'', ''1.0.0'')])
     = (start {} [(''app'', ''1.0.0'')])
         \<lparr>tasks := [Task ''app'' ''1.0.0'' AwaitMetadata, Task ''app'' ''1.0.0'' Fulfilled]\<rparr>
   \<and> ''app@1.0.0'' \<in> downloadedPackages (run env_six [0, 0, 0] (start {} [(''app'', ''1.0.0'')]))
   \<and> count_list (metadata_keys (requests (run env_six [0, 0, 0] (start {} [(''app'', ''1.0.0'')])))) ''app@1.0.0'' = 1
   \<and> count_list (packageList (run env_six [0, 0, 0] (start {} [(''app'', ''1.0.0'')]))) ''app@1.0.0'' = 1
   \<and> count_list (archive_keys (requests (run env_six [0, 0, 0] (start {} [(''app'', ''1.0.0'')])))) ''app@1.0.0'' = 1
   \<and> count_list (metadata_keys (requests (run env_six [0, 0, 0] (start {} [(''app'', ''1.0.0'')])))) ''d7@1.0.0'' = 0
   \<and> tasks (start {} [(''app'', ''1.0.0'')]) ! 0 = Task ''app'' ''1.0.0'' AwaitMetadata
   \<and> archive_keys (requests (resume env_six 0 (start {} [(''app'', ''1.0.0'')]))) = [''app@1.0.0'']"
proof -
  let ?s = "start {} [(''app'', ''1.0.0'')]"
  let ?r = "run env_six [0, 0, 0] ?s"
  have key: "packageKey_of ''app'' ''1.0.0'' = ''app@1.0.0''"
    by (simp add: packageKey_of_def)
  have claimed: "packageKey_of ''app'' ''1.0.0'' \<in> downloadedPackages ?s"
    unfolding six_start by (simp add: packageKey_of_def)
  have w1: "downloadPackageAndDependencies ''app'' ''1.0.0'' (Some ''top@1.0.0'') ?s
      = ?s\<lparr>tasks := tasks ?s @ [Task ''app'' ''1.0.0'' Fulfilled]\<rparr>"
    using each_key_resolved_once [where n = "''app''" and v = "''1.0.0''" and s = ?s
        and parent = "Some ''top@1.0.0''", THEN conjunct1] claimed
    by blast
  have w2: "packageKey_of ''app'' ''1.0.0'' \<in> downloadedPackages ?r"
    using each_key_resolved_once [where rn = "''app''" and rv = "''1.0.0''"
        and roots = "[(''app'', ''1.0.0'')]" and env = env_six and sched = "[0, 0, 0]" and disk = "{}",
        THEN conjunct2, THEN conjunct1]
    by simp
  have w3: "count_list (metadata_keys (requests ?r)) ''app@1.0.0''
      = (if ''app@1.0.0'' \<in> downloadedPackages ?r then 1 else 0)"
    and w4: "count_list (packageList ?r) ''app@1.0.0''
      = (if ''app@1.0.0'' \<in> downloadedPackages ?r then 1 else 0)"
    and w5: "count_list (archive_keys (requests ?r)) ''app@1.0.0'' \<le> 1"
    using each_key_resolved_once [where k = "''app@1.0.0''"
        and roots = "[(''app'', ''1.0.0'')]" and env = env_six and sched = "[0, 0, 0]" and disk = "{}",
        THEN conjunct2, THEN conjunct2]
    by blast+
  have w3': "count_list (metadata_keys (requests ?r)) ''d7@1.0.0''
      = (if ''d7@1.0.0'' \<in> downloadedPackages ?r then 1 else 0)"
    using each_key_resolved_once [where k = "''d7@1.0.0''"
        and roots = "[(''app'', ''1.0.0'')]" and env = env_six and sched = "[0, 0, 0]" and disk = "{}",
        THEN conjunct2, THEN conjunct2, THEN conjunct1] .
  have t: "tasks ?s ! 0 = Task ''app'' ''1.0.0'' AwaitMetadata"
    unfolding six_start by simp
  have files: "files ?s = {}" and rq: "requests ?s = [MetadataGet ''app'' ''1.0.0'']"
    and ts: "tasks ?s = [Task ''app'' ''1.0.0'' AwaitMetadata]"
    unfolding six_start by simp_all
  have reg: "\<exists>md u. registry env_six ''app'' ''1.0.0'' = Inr md \<and> dist md = Some u"
    by (simp add: env_six_def registry_six_def)
  have w6: "archive_keys (requests (resume env_six 0 ?s)) =
      archive_keys (requests ?s) @
        (if AwaitMetadata = AwaitMetadata
            \<and> (\<exists>md u. registry env_six ''app'' ''1.0.0'' = Inr md \<and> dist md = Some u)
            \<and> fileName_of ''app'' ''1.0.0'' \<notin> files ?s
         then [packageKey_of ''app'' ''1.0.0''] else [])"
    using each_key_resolved_once [where s = ?s and i = 0 and n = "''app''" and v = "''1.0.0''"
        and st = AwaitMetadata and env = env_six,
        THEN conjunct2, THEN conjunct2, THEN conjunct2, THEN conjunct2, THEN conjunct2] t
    by blast
  have one: "count_list (archive_keys (requests ?r)) ''app@1.0.0'' = 1"
    unfolding six_run by (simp add: archive_keys_def packageKey_of_def)
  have d7: "''d7@1.0.0'' \<notin> downloadedPackages ?r"
    unfolding six_run by simp
  have w6': "archive_keys (requests (resume env_six 0 ?s)) = [''app@1.0.0'']"
    using w6 reg by (simp add: files rq key)
  show ?thesis
    using w1 w2 w3 w4 w3' d7 one t w6' by (simp add: key ts)
qed

section \<open>No promise is rejected\<close>

lemma unrejected_call:
  assumes "\<forall>t \<in> set (tasks s). \<not> is_rejected (task_stage t)"
  shows "\<forall>t \<in> set (tasks (downloadPackageAndDependencies n v p s)). \<not> is_rejected (task_stage t)"
  using assms by auto

lemma unrejected_launch_all:
  assumes "\<forall>t \<in> set (tasks s). \<not> is_rejected (task_stage t)"
  shows "\<forall>t \<in> set (tasks (launch_all p entries s)). \<not> is_rejected (task_stage t)"
  by (rule launch_all_induct) (use assms unrejected_call in auto)

lemma unrejected_set_stage:
  assumes "\<forall>t \<in> set (tasks s). \<not> is_rejected (task_stage t)" "\<not> is_rejected st"
  shows "\<forall>t \<in> set (tasks (set_stage i st s)). \<not> is_rejected (task_stage t)"
proof
  fix t
  assume "t \<in> set (tasks (set_stage i st s))"
  then have "t = Task (task_name (tasks s ! i)) (task_version (tasks s ! i)) st \<or> t \<in> set (tasks s)"
    using set_restaged [of s i st] by auto
  then show "\<not> is_rejected (task_stage t)"
    using assms by auto
qed

lemma next_stage_unrejected: "next_stage env n v st st' \<Longrightarrow> \<not> is_rejected st \<Longrightarrow> \<not> is_rejected st'"
  by (auto simp: next_stage_def)

lemma batch_stage_unrejected: "\<not> is_rejected (batch_stage first count)"
  by (simp add: batch_stage_def)

lemma unrejected_resume:
  assumes u: "\<forall>t \<in> set (tasks s). \<not> is_rejected (task_stage t)" and i: "i < length (tasks s)"
  shows "\<forall>t \<in> set (tasks (resume env i s)). \<not> is_rejected (task_stage t)"
proof -
  obtain n v st where t: "tasks s ! i = Task n v st"
    by (cases "tasks s ! i") auto
  have st: "\<not> is_rejected st"
    using u i t nth_mem [OF i] by fastforce
  from t show ?thesis
  proof (cases rule: resume_cases [where env = env])
    case (quiet s1 st')
    have "\<forall>t \<in> set (tasks s1). \<not> is_rejected (task_stage t)"
      using u quiet(2) by (simp add: quiet_def)
    then show ?thesis
      unfolding quiet(1)
      by (rule unrejected_set_stage) (rule next_stage_unrejected [OF quiet(3) st])
  next
    case (launch s0 deps)
    have "\<forall>t \<in> set (tasks s0). \<not> is_rejected (task_stage t)"
      using u launch(1) by (simp add: same_core_def)
    then show ?thesis
      unfolding launch(3)
      by (intro unrejected_set_stage unrejected_launch_all batch_stage_unrejected)
  next
    case (crash e)
    then show ?thesis using u by simp
  qed
qed

lemma unrejected_step:
  assumes "\<forall>t \<in> set (tasks s). \<not> is_rejected (task_stage t)"
  shows "\<forall>t \<in> set (tasks (step env n s)). \<not> is_rejected (task_stage t)"
proof (cases rule: step_cases [of s env n])
  case idle
  then show ?thesis using assms by simp
next
  case (resume i)
  show ?thesis
    unfolding resume(4) by (rule unrejected_resume [OF assms resume(1)])
qed

lemma unrejected_run:
  "\<forall>t \<in> set (tasks s). \<not> is_rejected (task_stage t) \<Longrightarrow>
   \<forall>t \<in> set (tasks (run env sched s)). \<not> is_rejected (task_stage t)"
proof (induction sched arbitrary: s)
  case Nil
  then show ?case by simp
next
  case (Cons n sched)
  show ?case
    unfolding run.simps by (rule Cons.IH) (rule unrejected_step [OF Cons.prems])
qed

lemma unrejected_reachable:
  "\<forall>t \<in> set (tasks (run env sched (start disk roots))). \<not> is_rejected (task_stage t)"
proof -
  have "\<forall>t \<in> set (tasks (initial_state disk)). \<not> is_rejected (task_stage t)"
    by (simp add: initial_state_def)
  then show ?thesis
    unfolding start_def by (intro unrejected_run unrejected_launch_all)
qed

section \<open>An archive file that cannot be written\<close>

lemma write_normalize: "normalize ''1.0.0'' = Some ''1.0.0''"
  by (simp add: semver_defs)

lemma write_start: "start {} [(''bar'', ''2.0.0'')] =
  \<lparr>downloadedPackages = {''bar@2.0.0''},
   packageList = [''bar@2.0.0''],
   dependencyTree = Map.empty,
   licenseWarnings = [],
   files = {},
   requests = [MetadataGet ''bar'' ''2.0.0''],
   console = [],
   tasks = [Task ''bar'' ''2.0.0'' AwaitMetadata],
   crashed = None\<rparr>"
  by (simp add: exec_defs)

lemma write_step1: "step env_write_fails n
  \<lparr>downloadedPackages = {''bar@2.0.0''},
   packageList = [''bar@2.0.0''],
   dependencyTree = Map.empty,
   licenseWarnings = [],
   files = {},
   requests = [MetadataGet ''bar'' ''2.0.0''],
   console = [],
   tasks = [Task ''bar'' ''2.0.0'' AwaitMetadata],
   crashed = None\<rparr> =
  \<lparr>downloadedPackages = {''bar@2.0.0''},
   packageList = [''bar@2.0.0''],
   dependencyTree = Map.empty,
   licenseWarnings = [],
   files = {},
   requests = [MetadataGet ''bar'' ''2.0.0'', ArchiveGet ''bar'' ''2.0.0'' ''http://registry/bar-2.0.0.tgz''],
   console = [],
   tasks = [Task ''bar'' ''2.0.0'' (AwaitResponse [(''foo'', ''1.0.0''), (''baz'', ''1.0.0'')] ''http://registry/bar-2.0.0.tgz'')],
   crashed = None\<rparr>"
  by (simp add: exec_defs env_write_fails_def registry_siblings_def write_normalize)

lemma write_step2: "step env_write_fails n
  \<lparr>downloadedPackages = {''bar@2.0.0''},
   packageList = [''bar@2.0.0''],
   dependencyTree = Map.empty,
   licenseWarnings = [],
   files = {},
   requests = [MetadataGet ''bar'' ''2.0.0'', ArchiveGet ''bar'' ''2.0.0'' ''http://registry/bar-2.0.0.tgz''],
   console = [],
   tasks = [Task ''bar'' ''2.0.0'' (AwaitResponse [(''foo'', ''1.0.0''), (''baz'', ''1.0.0'')] ''http://registry/bar-2.0.0.tgz'')],
   crashed = None\<rparr> =
  \<lparr>downloadedPackages = {''bar@2.0.0''},
   packageList = [''bar@2.0.0''],
   dependencyTree = Map.empty,
   licenseWarnings = [],
   files = {''bar-2.0.0.tgz''},
   requests = [MetadataGet ''bar'' ''2.0.0'', ArchiveGet ''bar'' ''2.0.0'' ''http://registry/bar-2.0.0.tgz''],
   console = [],
   tasks = [Task ''bar'' ''2.0.0'' (AwaitStream [(''foo'', ''1.0.0''), (''baz'', ''1.0.0'')] ''http://registry/bar-2.0.0.tgz'')],
   crashed = None\<rparr>"
  by (simp add: exec_defs env_write_fails_def registry_siblings_def write_normalize)

lemma write_step3: "step env_write_fails n
  \<lparr>downloadedPackages = {''bar@2.0.0''},
   packageList = [''bar@2.0.0''],
   dependencyTree = Map.empty,
   licenseWarnings = [],
   files = {''bar-2.0.0.tgz''},
   requests = [MetadataGet ''bar'' ''2.0.0'', ArchiveGet ''bar'' ''2.0.0'' ''http://registry/bar-2.0.0.tgz''],
   console = [],
   tasks = [Task ''bar'' ''2.0.0'' (AwaitStream [(''foo'', ''1.0.0''), (''baz'', ''1.0.0'')] ''http://registry/bar-2.0.0.tgz'')],
   crashed = None\<rparr> =
  \<lparr>downloadedPackages = {''baz@1.0.0'', ''foo@1.0.0'', ''bar@2.0.0''},
   packageList = [''bar@2.0.0'', ''foo@1.0.0'', ''baz@1.0.0''],
   dependencyTree = [''bar@2.0.0'' \<mapsto> [''foo@1.0.0'', ''baz@1.0.0'']],
   licenseWarnings = [],
   files = {''bar-2.0.0.tgz''},
   requests = [MetadataGet ''bar'' ''2.0.0'', ArchiveGet ''bar'' ''2.0.0'' ''http://registry/bar-2.0.0.tgz'', MetadataGet ''foo'' ''1.0.0'', MetadataGet ''baz'' ''1.0.0''],
   console = [],
   tasks = [Task ''bar'' ''2.0.0'' (AwaitBatch [1, 2] 0), Task ''foo'' ''1.0.0'' AwaitMetadata, Task ''baz'' ''1.0.0'' AwaitMetadata],
   crashed = None\<rparr>"
  by (simp add: exec_defs env_write_fails_def registry_siblings_def write_normalize)

lemma write_step4: "n mod Suc (Suc 0) = 0 \<Longrightarrow> step env_write_fails n
  \<lparr>downloadedPackages = {''baz@1.0.0'', ''foo@1.0.0'', ''bar@2.0.0''},
   packageList = [''bar@2.0.0'', ''foo@1.0.0'', ''baz@1.0.0''],
   dependencyTree = [''bar@2.0.0'' \<mapsto> [''foo@1.0.0'', ''baz@1.0.0'']],
   licenseWarnings = [],
   files = {''bar-2.0.0.tgz''},
   requests = [MetadataGet ''bar'' ''2.0.0'', ArchiveGet ''bar'' ''2.0.0'' ''http://registry/bar-2.0.0.tgz'', MetadataGet ''foo'' ''1.0.0'', MetadataGet ''baz'' ''1.0.0''],
   console = [],
   tasks = [Task ''bar'' ''2.0.0'' (AwaitBatch [1, 2] 0), Task ''foo'' ''1.0.0'' AwaitMetadata, Task ''baz'' ''1.0.0'' AwaitMetadata],
   crashed = None\<rparr> =
  \<lparr>downloadedPackages = {''baz@1.0.0'', ''foo@1.0.0'', ''bar@2.0.0''},
   packageList = [''bar@2.0.0'', ''foo@1.0.0'', ''baz@1.0.0''],
   dependencyTree = [''bar@2.0.0'' \<mapsto> [''foo@1.0.0'', ''baz@1.0.0'']],
   licenseWarnings = [],
   files = {''bar-2.0.0.tgz''},
   requests = [MetadataGet ''bar'' ''2.0.0'', ArchiveGet ''bar'' ''2.0.0'' ''http://registry/bar-2.0.0.tgz'', MetadataGet ''foo'' ''1.0.0'', MetadataGet ''baz'' ''1.0.0'', ArchiveGet ''foo'' ''1.0.0'' ''http://registry/foo-1.0.0.tgz''],
   console = [],
   tasks = [Task ''bar'' ''2.0.0'' (AwaitBatch [1, 2] 0), Task ''foo'' ''1.0.0'' (AwaitResponse [] ''http://registry/foo-1.0.0.tgz''), Task ''baz'' ''1.0.0'' AwaitMetadata],
   crashed = None\<rparr>"
  by (simp add: exec_defs env_write_fails_def registry_siblings_def write_normalize)

lemma write_step5: "n mod Suc (Suc 0) = 0 \<Longrightarrow> step env_write_fails n
  \<lparr>downloadedPackages = {''baz@1.0.0'', ''foo@1.0.0'', ''bar@2.0.0''},
   packageList = [''bar@2.0.0'', ''foo@1.0.0'', ''baz@1.0.0''],
   dependencyTree = [''bar@2.0.0'' \<mapsto> [''foo@1.0.0'', ''baz@1.0.0'']],
   licenseWarnings = [],
   files = {''bar-2.0.0.tgz''},
   requests = [MetadataGet ''bar'' ''2.0.0'', ArchiveGet ''bar'' ''2.0.0'' ''http://registry/bar-2.0.0.tgz'', MetadataGet ''foo'' ''1.0.0'', MetadataGet ''baz'' ''1.0.0'', ArchiveGet ''foo'' ''1.0.0'' ''http://registry/foo-1.0.0.tgz''],
   console = [],
   tasks = [Task ''bar'' ''2.0.0'' (AwaitBatch [1, 2] 0), Task ''foo'' ''1.0.0'' (AwaitResponse [] ''http://registry/foo-1.0.0.tgz''), Task ''baz'' ''1.0.0'' AwaitMetadata],
   crashed = None\<rparr> =
  \<lparr>downloadedPackages = {''baz@1.0.0'', ''foo@1.0.0'', ''bar@2.0.0''},
   packageList = [''bar@2.0.0'', ''foo@1.0.0'', ''baz@1.0.0''],
   dependencyTree = [''bar@2.0.0'' \<mapsto> [''foo@1.0.0'', ''baz@1.0.0'']],
   licenseWarnings = [],
   files = {''foo-1.0.0.tgz'', ''bar-2.0.0.tgz''},
   requests = [MetadataGet ''bar'' ''2.0.0'', ArchiveGet ''bar'' ''2.0.0'' ''http://registry/bar-2.0.0.tgz'', MetadataGet ''foo'' ''1.0.0'', MetadataGet ''baz'' ''1.0.0'', ArchiveGet ''foo'' ''1.0.0'' ''http://registry/foo-1.0.0.tgz''],
   console = [],
   tasks = [Task ''bar'' ''2.0.0'' (AwaitBatch [1, 2] 0), Task ''foo'' ''1.0.0'' (AwaitStream [] ''http://registry/foo-1.0.0.tgz''), Task ''baz'' ''1.0.0'' AwaitMetadata],
   crashed = None\<rparr>"
  by (simp add: exec_defs env_write_fails_def registry_siblings_def write_normalize)

lemma write_step6: "n mod Suc (Suc 0) = 0 \<Longrightarrow> step env_write_fails n
  \<lparr>downloadedPackages = {''baz@1.0.0'', ''foo@1.0.0'', ''bar@2.0.0''},
   packageList = [''bar@2.0.0'', ''foo@1.0.0'', ''baz@1.0.0''],
   dependencyTree = [''bar@2.0.0'' \<mapsto> [''foo@1.0.0'', ''baz@1.0.0'']],
   licenseWarnings = [],
   files = {''foo-1.0.0.tgz'', ''bar-2.0.0.tgz''},
   requests = [MetadataGet ''bar'' ''2.0.0'', ArchiveGet ''bar'' ''2.0.0'' ''http://registry/bar-2.0.0.tgz'', MetadataGet ''foo'' ''1.0.0'', MetadataGet ''baz'' ''1.0.0'', ArchiveGet ''foo'' ''1.0.0'' ''http://registry/foo-1.0.0.tgz''],
   console = [],
   tasks = [Task ''bar'' ''2.0.0'' (AwaitBatch [1, 2] 0), Task ''foo'' ''1.0.0'' (AwaitStream [] ''http://registry/foo-1.0.0.tgz''), Task ''baz'' ''1.0.0'' AwaitMetadata],
   crashed = None\<rparr> =
  \<lparr>downloadedPackages = {''baz@1.0.0'', ''foo@1.0.0'', ''bar@2.0.0''},
   packageList = [''bar@2.0.0'', ''foo@1.0.0'', ''baz@1.0.0''],
   dependencyTree = [''bar@2.0.0'' \<mapsto> [''foo@1.0.0'', ''baz@1.0.0'']],
   licenseWarnings = [],
   files = {''foo-1.0.0.tgz'', ''bar-2.0.0.tgz''},
   requests = [MetadataGet ''bar'' ''2.0.0'', ArchiveGet ''bar'' ''2.0.0'' ''http://registry/bar-2.0.0.tgz'', MetadataGet ''foo'' ''1.0.0'', MetadataGet ''baz'' ''1.0.0'', ArchiveGet ''foo'' ''1.0.0'' ''http://registry/foo-1.0.0.tgz''],
   console = [],
   tasks = [Task ''bar'' ''2.0.0'' (AwaitBatch [1, 2] 0), Task ''foo'' ''1.0.0'' (AwaitStream [] ''http://registry/foo-1.0.0.tgz''), Task ''baz'' ''1.0.0'' AwaitMetadata],
   crashed = Some (Error ''ENOSPC: no space left on device, write'')\<rparr>"
  by (simp add: exec_defs env_write_fails_def registry_siblings_def write_normalize)

lemma write_ended: "step env_write_fails n
  \<lparr>downloadedPackages = {''baz@1.0.0'', ''foo@1.0.0'', ''bar@2.0.0''},
   packageList = [''bar@2.0.0'', ''foo@1.0.0'', ''baz@1.0.0''],
   dependencyTree = [''bar@2.0.0'' \<mapsto> [''foo@1.0.0'', ''baz@1.0.0'']],
   licenseWarnings = [],
   files = {''foo-1.0.0.tgz'', ''bar-2.0.0.tgz''},
   requests = [MetadataGet ''bar'' ''2.0.0'', ArchiveGet ''bar'' ''2.0.0'' ''http://registry/bar-2.0.0.tgz'', MetadataGet ''foo'' ''1.0.0'', MetadataGet ''baz'' ''1.0.0'', ArchiveGet ''foo'' ''1.0.0'' ''http://registry/foo-1.0.0.tgz''],
   console = [],
   tasks = [Task ''bar'' ''2.0.0'' (AwaitBatch [1, 2] 0), Task ''foo'' ''1.0.0'' (AwaitStream [] ''http://registry/foo-1.0.0.tgz''), Task ''baz'' ''1.0.0'' AwaitMetadata],
   crashed = Some (Error ''ENOSPC: no space left on device, write'')\<rparr> =
  \<lparr>downloadedPackages = {''baz@1.0.0'', ''foo@1.0.0'', ''bar@2.0.0''},
   packageList = [''bar@2.0.0'', ''foo@1.0.0'', ''baz@1.0.0''],
   dependencyTree = [''bar@2.0.0'' \<mapsto> [''foo@1.0.0'', ''baz@1.0.0'']],
   licenseWarnings = [],
   files = {''foo-1.0.0.tgz'', ''bar-2.0.0.tgz''},
   requests = [MetadataGet ''bar'' ''2.0.0'', ArchiveGet ''bar'' ''2.0.0'' ''http://registry/bar-2.0.0.tgz'', MetadataGet ''foo'' ''1.0.0'', MetadataGet ''baz'' ''1.0.0'', ArchiveGet ''foo'' ''1.0.0'' ''http://registry/foo-1.0.0.tgz''],
   console = [],
   tasks = [Task ''bar'' ''2.0.0'' (AwaitBatch [1, 2] 0), Task ''foo'' ''1.0.0'' (AwaitStream [] ''http://registry/foo-1.0.0.tgz''), Task ''baz'' ''1.0.0'' AwaitMetadata],
   crashed = Some (Error ''ENOSPC: no space left on device, write'')\<rparr>"
  by (simp add: step_def)

lemma write_run: "run env_write_fails (n1 # n2 # n3 # 0 # 0 # 0 # rest) (start {} [(''bar'', ''2.0.0'')]) =
  \<lparr>downloadedPackages = {''baz@1.0.0'', ''foo@1.0.0'', ''bar@2.0.0''},
   packageList = [''bar@2.0.0'', ''foo@1.0.0'', ''baz@1.0.0''],
   dependencyTree = [''bar@2.0.0'' \<mapsto> [''foo@1.0.0'', ''baz@1.0.0'']],
   licenseWarnings = [],
   files = {''foo-1.0.0.tgz'', ''bar-2.0.0.tgz''},
   requests = [MetadataGet ''bar'' ''2.0.0'', ArchiveGet ''bar'' ''2.0.0'' ''http://registry/bar-2.0.0.tgz'', MetadataGet ''foo'' ''1.0.0'', MetadataGet ''baz'' ''1.0.0'', ArchiveGet ''foo'' ''1.0.0'' ''http://registry/foo-1.0.0.tgz''],
   console = [],
   tasks = [Task ''bar'' ''2.0.0'' (AwaitBatch [1, 2] 0), Task ''foo'' ''1.0.0'' (AwaitStream [] ''http://registry/foo-1.0.0.tgz''), Task ''baz'' ''1.0.0'' AwaitMetadata],
   crashed = Some (Error ''ENOSPC: no space left on device, write'')\<rparr>"
proof -
  have idle: "run env_write_fails rest
  \<lparr>downloadedPackages = {''baz@1.0.0'', ''foo@1.0.0'', ''bar@2.0.0''},
   packageList = [''bar@2.0.0'', ''foo@1.0.0'', ''baz@1.0.0''],
   dependencyTree = [''bar@2.0.0'' \<mapsto> [''foo@1.0.0'', ''baz@1.0.0'']],
   licenseWarnings = [],
   files = {''foo-1.0.0.tgz'', ''bar-2.0.0.tgz''},
   requests = [MetadataGet ''bar'' ''2.0.0'', ArchiveGet ''bar'' ''2.0.0'' ''http://registry/bar-2.0.0.tgz'', MetadataGet ''foo'' ''1.0.0'', MetadataGet ''baz'' ''1.0.0'', ArchiveGet ''foo'' ''1.0.0'' ''http://registry/foo-1.0.0.tgz''],
   console = [],
   tasks = [Task ''bar'' ''2.0.0'' (AwaitBatch [1, 2] 0), Task ''foo'' ''1.0.0'' (AwaitStream [] ''http://registry/foo-1.0.0.tgz''), Task ''baz'' ''1.0.0'' AwaitMetadata],
   crashed = Some (Error ''ENOSPC: no space left on device, write'')\<rparr> =
  \<lparr>downloadedPackages = {''baz@1.0.0'', ''foo@1.0.0'', ''bar@2.0.0''},
   packageList = [''bar@2.0.0'', ''foo@1.0.0'', ''baz@1.0.0''],
   dependencyTree = [''bar@2.0.0'' \<mapsto> [''foo@1.0.0'', ''baz@1.0.0'']],
   licenseWarnings = [],
   files = {''foo-1.0.0.tgz'', ''bar-2.0.0.tgz''},
   requests = [MetadataGet ''bar'' ''2.0.0'', ArchiveGet ''bar'' ''2.0.0'' ''http://registry/bar-2.0.0.tgz'', MetadataGet ''foo'' ''1.0.0'', MetadataGet ''baz'' ''1.0.0'', ArchiveGet ''foo'' ''1.0.0'' ''http://registry/foo-1.0.0.tgz''],
   console = [],
   tasks = [Task ''bar'' ''2.0.0'' (AwaitBatch [1, 2] 0), Task ''foo'' ''1.0.0'' (AwaitStream [] ''http://registry/foo-1.0.0.tgz''), Task ''baz'' ''1.0.0'' AwaitMetadata],
   crashed = Some (Error ''ENOSPC: no space left on device, write'')\<rparr>"
    by (rule run_idle) (rule write_ended)
  have z: "0 mod Suc (Suc 0) = 0" by simp
  from idle show ?thesis
    by (simp only: run.simps write_start write_step1 write_step2 write_step3
        write_step4 [OF z] write_step5 [OF z] write_step6 [OF z])
qed

text \<open>
  C3. The claim lets no failure of a node reach its parent or stop its siblings. The \<open>try\<close>
  block does catch what is thrown inside the call, so no promise of a call is ever rejected.
  But the write stream that \<open>downloadTarball\<close> pipes the response into (line 138) has no
  \<open>error\<close> listener, only the response stream has one: when the archive file of \<open>foo@1.0.0\<close>
  cannot be written, the error is thrown outside every call, the process ends, nothing is
  logged by the \<open>catch\<close> clause, and the sibling \<open>baz@1.0.0\<close> and the parent \<open>bar@2.0.0\<close>
  never resolve, whatever the schedule does afterwards.
\<close>

theorem write_error_ends_the_run:
  "list_all (\<lambda>t. \<not> is_rejected (task_stage t)) (tasks (run env sched (start disk roots)))
   \<and> write_error env_write_fails (fileName_of ''foo'' ''1.0.0'')
       = Some (Error ''ENOSPC: no space left on device, write'')
   \<and> (let final = run env_write_fails (n1 # n2 # n3 # 0 # 0 # 0 # rest) (start {} [(''bar'', ''2.0.0'')])
      in crashed final = Some (Error ''ENOSPC: no space left on device, write'')
         \<and> tasks final =
             [Task ''bar'' ''2.0.0'' (AwaitBatch [1, 2] 0),
              Task ''foo'' ''1.0.0'' (AwaitStream [] ''http://registry/foo-1.0.0.tgz''),
              Task ''baz'' ''1.0.0'' AwaitMetadata]
         \<and> in_flight final = [0, 1, 2]
         \<and> console final = []
         \<and> requests final =
             [MetadataGet ''bar'' ''2.0.0'', ArchiveGet ''bar'' ''2.0.0'' ''http://registry/bar-2.0.0.tgz'',
              MetadataGet ''foo'' ''1.0.0'', MetadataGet ''baz'' ''1.0.0'',
              ArchiveGet ''foo'' ''1.0.0'' ''http://registry/foo-1.0.0.tgz''])"
proof -
  have a: "list_all (\<lambda>t. \<not> is_rejected (task_stage t)) (tasks (run env sched (start disk roots)))"
    using unrejected_reachable [of env sched disk roots] by (simp add: list_all_iff)
  have b: "write_error env_write_fails (fileName_of ''foo'' ''1.0.0'')
       = Some (Error ''ENOSPC: no space left on device, write'')"
    by (simp add: env_write_fails_def fileName_of_def)
  show ?thesis
    unfolding write_run Let_def using a b by (simp add: in_flight_def)
qed

section \<open>The recorded edges form a forest\<close>





lemma claim_rank_le: "claim_rank pl x \<le> length pl"
  unfolding claim_rank_def by (rule length_takeWhile_le)











section \<open>The traversal of a forest\<close>
















section \<open>A cycle of two packages\<close>

lemma cycle_normalize: "normalize ''1.0.0'' = Some ''1.0.0''"
  by (simp add: semver_defs)

lemma cycle_start: "start {} [(''A'', ''1.0.0'')] =
  \<lparr>downloadedPackages = {''A@1.0.0''},
   packageList = [''A@1.0.0''],
   dependencyTree = Map.empty,
   licenseWarnings = [],
   files = {},
   requests = [MetadataGet ''A'' ''1.0.0''],
   console = [],
   tasks = [Task ''A'' ''1.0.0'' AwaitMetadata],
   crashed = None\<rparr>"
  by (simp add: exec_defs)

lemma cycle_step1: "step env_cycle n
  \<lparr>downloadedPackages = {''A@1.0.0''},
   packageList = [''A@1.0.0''],
   dependencyTree = Map.empty,
   licenseWarnings = [],
   files = {},
   requests = [MetadataGet ''A'' ''1.0.0''],
   console = [],
   tasks = [Task ''A'' ''1.0.0'' AwaitMetadata],
   crashed = None\<rparr> =
  \<lparr>downloadedPackages = {''A@1.0.0''},
   packageList = [''A@1.0.0''],
   dependencyTree = Map.empty,
   licenseWarnings = [],
   files = {},
   requests = [MetadataGet ''A'' ''1.0.0'', ArchiveGet ''A'' ''1.0.0'' ''http://registry/A-1.0.0.tgz''],
   console = [],
   tasks = [Task ''A'' ''1.0.0'' (AwaitResponse [(''B'', ''1.0.0'')] ''http://registry/A-1.0.0.tgz'')],
   crashed = None\<rparr>"
  by (simp add: exec_defs env_cycle_def registry_cycle_def cycle_normalize)

lemma cycle_step2: "step env_cycle n
  \<lparr>downloadedPackages = {''A@1.0.0''},
   packageList = [''A@1.0.0''],
   dependencyTree = Map.empty,
   licenseWarnings = [],
   files = {},
   requests = [MetadataGet ''A'' ''1.0.0'', ArchiveGet ''A'' ''1.0.0'' ''http://registry/A-1.0.0.tgz''],
   console = [],
   tasks = [Task ''A'' ''1.0.0'' (AwaitResponse [(''B'', ''1.0.0'')] ''http://registry/A-1.0.0.tgz'')],
   crashed = None\<rparr> =
  \<lparr>downloadedPackages = {''A@1.0.0''},
   packageList = [''A@1.0.0''],
   dependencyTree = Map.empty,
   licenseWarnings = [],
   files = {''A-1.0.0.tgz''},
   requests = [MetadataGet ''A'' ''1.0.0'', ArchiveGet ''A'' ''1.0.0'' ''http://registry/A-1.0.0.tgz''],
   console = [],
   tasks = [Task ''A'' ''1.0.0'' (AwaitStream [(''B'', ''1.0.0'')] ''http://registry/A-1.0.0.tgz'')],
   crashed = None\<rparr>"
  by (simp add: exec_defs env_cycle_def registry_cycle_def cycle_normalize)

lemma cycle_step3: "step env_cycle n
  \<lparr>downloadedPackages = {''A@1.0.0''},
   packageList = [''A@1.0.0''],
   dependencyTree = Map.empty,
   licenseWarnings = [],
   files = {''A-1.0.0.tgz''},
   requests = [MetadataGet ''A'' ''1.0.0'', ArchiveGet ''A'' ''1.0.0'' ''http://registry/A-1.0.0.tgz''],
   console = [],
   tasks = [Task ''A'' ''1.0.0'' (AwaitStream [(''B'', ''1.0.0'')] ''http://registry/A-1.0.0.tgz'')],
   crashed = None\<rparr> =
  \<lparr>downloadedPackages = {''B@1.0.0'', ''A@1.0.0''},
   packageList = [''A@1.0.0'', ''B@1.0.0''],
   dependencyTree = [''A@1.0.0'' \<mapsto> [''B@1.0.0'']],
   licenseWarnings = [],
   files = {''A-1.0.0.tgz''},
   requests = [MetadataGet ''A'' ''1.0.0'', ArchiveGet ''A'' ''1.0.0'' ''http://registry/A-1.0.0.tgz'', MetadataGet ''B'' ''1.0.0''],
   console = [],
   tasks = [Task ''A'' ''1.0.0'' (AwaitBatch [1] 0), Task ''B'' ''1.0.0'' AwaitMetadata],
   crashed = None\<rparr>"
  by (simp add: exec_defs env_cycle_def registry_cycle_def cycle_normalize)

lemma cycle_step4: "step env_cycle n
  \<lparr>downloadedPackages = {''B@1.0.0'', ''A@1.0.0''},
   packageList = [''A@1.0.0'', ''B@1.0.0''],
   dependencyTree = [''A@1.0.0'' \<mapsto> [''B@1.0.0'']],
   licenseWarnings = [],
   files = {''A-1.0.0.tgz''},
   requests = [MetadataGet ''A'' ''1.0.0'', ArchiveGet ''A'' ''1.0.0'' ''http://registry/A-1.0.0.tgz'', MetadataGet ''B'' ''1.0.0''],
   console = [],
   tasks = [Task ''A'' ''1.0.0'' (AwaitBatch [1] 0), Task ''B'' ''1.0.0'' AwaitMetadata],
   crashed = None\<rparr> =
  \<lparr>downloadedPackages = {''B@1.0.0'', ''A@1.0.0''},
   packageList = [''A@1.0.0'', ''B@1.0.0''],
   dependencyTree = [''A@1.0.0'' \<mapsto> [''B@1.0.0'']],
   licenseWarnings = [],
   files = {''A-1.0.0.tgz''},
   requests = [MetadataGet ''A'' ''1.0.0'', ArchiveGet ''A'' ''1.0.0'' ''http://registry/A-1.0.0.tgz'', MetadataGet ''B'' ''1.0.0'', ArchiveGet ''B'' ''1.0.0'' ''http://registry/B-1.0.0.tgz''],
   console = [],
   tasks = [Task ''A'' ''1.0.0'' (AwaitBatch [1] 0), Task ''B'' ''1.0.0'' (AwaitResponse [(''A'', ''1.0.0'')] ''http://registry/B-1.0.0.tgz'')],
   crashed = None\<rparr>"
  by (simp add: exec_defs env_cycle_def registry_cycle_def cycle_normalize)

lemma cycle_step5: "step env_cycle n
  \<lparr>downloadedPackages = {''B@1.0.0'', ''A@1.0.0''},
   packageList = [''A@1.0.0'', ''B@1.0.0''],
   dependencyTree = [''A@1.0.0'' \<mapsto> [''B@1.0.0'']],
   licenseWarnings = [],
   files = {''A-1.0.0.tgz''},
   requests = [MetadataGet ''A'' ''1.0.0'', ArchiveGet ''A'' ''1.0.0'' ''http://registry/A-1.0.0.tgz'', MetadataGet ''B'' ''1.0.0'', ArchiveGet ''B'' ''1.0.0'' ''http://registry/B-1.0.0.tgz''],
   console = [],
   tasks = [Task ''A'' ''1.0.0'' (AwaitBatch [1] 0), Task ''B'' ''1.0.0'' (AwaitResponse [(''A'', ''1.0.0'')] ''http://registry/B-1.0.0.tgz'')],
   crashed = None\<rparr> =
  \<lparr>downloadedPackages = {''B@1.0.0'', ''A@1.0.0''},
   packageList = [''A@1.0.0'', ''B@1.0.0''],
   dependencyTree = [''A@1.0.0'' \<mapsto> [''B@1.0.0'']],
   licenseWarnings = [],
   files = {''B-1.0.0.tgz'', ''A-1.0.0.tgz''},
   requests = [MetadataGet ''A'' ''1.0.0'', ArchiveGet ''A'' ''1.0.0'' ''http://registry/A-1.0.0.tgz'', MetadataGet ''B'' ''1.0.0'', ArchiveGet ''B'' ''1.0.0'' ''http://registry/B-1.0.0.tgz''],
   console = [],
   tasks = [Task ''A'' ''1.0.0'' (AwaitBatch [1] 0), Task ''B'' ''1.0.0'' (AwaitStream [(''A'', ''1.0.0'')] ''http://registry/B-1.0.0.tgz'')],
   crashed = None\<rparr>"
  by (simp add: exec_defs env_cycle_def registry_cycle_def cycle_normalize)

lemma cycle_step6: "step env_cycle n
  \<lparr>downloadedPackages = {''B@1.0.0'', ''A@1.0.0''},
   packageList = [''A@1.0.0'', ''B@1.0.0''],
   dependencyTree = [''A@1.0.0'' \<mapsto> [''B@1.0.0'']],
   licenseWarnings = [],
   files = {''B-1.0.0.tgz'', ''A-1.0.0.tgz''},
   requests = [MetadataGet ''A'' ''1.0.0'', ArchiveGet ''A'' ''1.0.0'' ''http://registry/A-1.0.0.tgz'', MetadataGet ''B'' ''1.0.0'', ArchiveGet ''B'' ''1.0.0'' ''http://registry/B-1.0.0.tgz''],
   console = [],
   tasks = [Task ''A'' ''1.0.0'' (AwaitBatch [1] 0), Task ''B'' ''1.0.0'' (AwaitStream [(''A'', ''1.0.0'')] ''http://registry/B-1.0.0.tgz'')],
   crashed = None\<rparr> =
  \<lparr>downloadedPackages = {''B@1.0.0'', ''A@1.0.0''},
   packageList = [''A@1.0.0'', ''B@1.0.0''],
   dependencyTree = [''A@1.0.0'' \<mapsto> [''B@1.0.0'']],
   licenseWarnings = [],
   files = {''B-1.0.0.tgz'', ''A-1.0.0.tgz''},
   requests = [MetadataGet ''A'' ''1.0.0'', ArchiveGet ''A'' ''1.0.0'' ''http://registry/A-1.0.0.tgz'', MetadataGet ''B'' ''1.0.0'', ArchiveGet ''B'' ''1.0.0'' ''http://registry/B-1.0.0.tgz''],
   console = [],
   tasks = [Task ''A'' ''1.0.0'' (AwaitBatch [1] 0), Task ''B'' ''1.0.0'' (AwaitBatch [2] 0), Task ''A'' ''1.0.0'' Fulfilled],
   crashed = None\<rparr>"
  by (simp add: exec_defs env_cycle_def registry_cycle_def cycle_normalize)





lemma cycle_revisit: "run env_cycle [n1, n2, n3, n4, n5, n6] (start {} [(''A'', ''1.0.0'')]) =
  \<lparr>downloadedPackages = {''B@1.0.0'', ''A@1.0.0''},
   packageList = [''A@1.0.0'', ''B@1.0.0''],
   dependencyTree = [''A@1.0.0'' \<mapsto> [''B@1.0.0'']],
   licenseWarnings = [],
   files = {''B-1.0.0.tgz'', ''A-1.0.0.tgz''},
   requests = [MetadataGet ''A'' ''1.0.0'', ArchiveGet ''A'' ''1.0.0'' ''http://registry/A-1.0.0.tgz'', MetadataGet ''B'' ''1.0.0'', ArchiveGet ''B'' ''1.0.0'' ''http://registry/B-1.0.0.tgz''],
   console = [],
   tasks = [Task ''A'' ''1.0.0'' (AwaitBatch [1] 0), Task ''B'' ''1.0.0'' (AwaitBatch [2] 0), Task ''A'' ''1.0.0'' Fulfilled],
   crashed = None\<rparr>"
  by (simp only: run.simps cycle_start cycle_step1 cycle_step2 cycle_step3 cycle_step4
      cycle_step5 cycle_step6)

lemma cycle_before_revisit: "run env_cycle [n1, n2, n3, n4, n5] (start {} [(''A'', ''1.0.0'')]) =
  \<lparr>downloadedPackages = {''B@1.0.0'', ''A@1.0.0''},
   packageList = [''A@1.0.0'', ''B@1.0.0''],
   dependencyTree = [''A@1.0.0'' \<mapsto> [''B@1.0.0'']],
   licenseWarnings = [],
   files = {''B-1.0.0.tgz'', ''A-1.0.0.tgz''},
   requests = [MetadataGet ''A'' ''1.0.0'', ArchiveGet ''A'' ''1.0.0'' ''http://registry/A-1.0.0.tgz'', MetadataGet ''B'' ''1.0.0'', ArchiveGet ''B'' ''1.0.0'' ''http://registry/B-1.0.0.tgz''],
   console = [],
   tasks = [Task ''A'' ''1.0.0'' (AwaitBatch [1] 0), Task ''B'' ''1.0.0'' (AwaitStream [(''A'', ''1.0.0'')] ''http://registry/B-1.0.0.tgz'')],
   crashed = None\<rparr>"
  by (simp only: run.simps cycle_start cycle_step1 cycle_step2 cycle_step3 cycle_step4
      cycle_step5)



end
